(* ===== verification/Peersh_Prelude.thy ===== *)
theory Peersh_Prelude
  imports Main "HOL-Library.Word" "HOL-Library.AList"
begin

unbundle bit_operations_syntax

text \<open>
  Shared vocabulary of the development: byte strings and machine integers, Go's
  \<^verbatim>\<open>time.Time\<close> and \<^verbatim>\<open>time.Duration\<close>, Go maps with their iteration, and the few
  functions of the packages \<^verbatim>\<open>strings\<close>, \<^verbatim>\<open>encoding/hex\<close> and \<^verbatim>\<open>encoding/base32\<close> the
  components call. Everything here belongs to the language and its standard library; no
  definition of this theory models a line of the repository.
\<close>

named_theorems go_simps \<open>equations of the standard library operations\<close>
named_theorems inv_simps \<open>unfolding rules of the components' invariants\<close>


section \<open>Bytes and machine integers\<close>

type_synonym byte = "8 word"
type_synonym bytes = "8 word list"
type_synonym u16 = "16 word"
type_synonym u32 = "32 word"
type_synonym u64 = "64 word"

text \<open>A Go \<^verbatim>\<open>string\<close> is a byte sequence; the model writes it as a \<^typ>\<open>string\<close>, whose
  characters are bytes too.\<close>

lemma unat_byte_less [simp]: "unat (b :: byte) < 256"
  using unsigned_less [of b, where ?'a = nat] by simp

definition byte_of_char :: "char \<Rightarrow> byte" where
  "byte_of_char c = of_nat (of_char c)"

definition char_of_byte :: "byte \<Rightarrow> char" where
  "char_of_byte b = char_of (unat b)"

lemma char_of_byte_of_char [simp]: "char_of_byte (byte_of_char c) = c"
  by (simp add: char_of_byte_def byte_of_char_def unat_of_nat take_bit_nat_def [symmetric]
      flip: take_bit_eq_mod)

lemma byte_of_char_of_byte [simp]: "byte_of_char (char_of_byte b) = b"
  by (simp add: char_of_byte_def byte_of_char_def)


section \<open>Time\<close>

text \<open>
  A \<^verbatim>\<open>time.Time\<close> is the number of nanoseconds since Go's zero time, so the zero value
  is \<open>0\<close>; a \<^verbatim>\<open>time.Duration\<close> is a signed 64-bit number of nanoseconds. The difference of
  two times saturates at the ends of the duration range, as \<^verbatim>\<open>Time.Sub\<close> documents.
\<close>

type_synonym time = int
type_synonym duration = int

definition maxDuration :: duration where
  "maxDuration = 2 ^ 63 - 1"

definition minDuration :: duration where
  "minDuration = - (2 ^ 63)"

definition time_sub :: "time \<Rightarrow> time \<Rightarrow> duration" where
  "time_sub t u = max minDuration (min maxDuration (t - u))"

definition second :: duration where
  "second = 1000000000"

definition minute :: duration where
  "minute = 60 * second"

definition hour :: duration where
  "hour = 60 * minute"

text \<open>\<^verbatim>\<open>Time.Unix\<close>: whole seconds since 1970, rounded down.\<close>

definition time_unix :: "time \<Rightarrow> int" where
  "time_unix t = t div second - 62135596800"

definition time_unix_milli :: "time \<Rightarrow> int" where
  "time_unix_milli t = t div 1000000 - 62135596800000"

lemma time_sub_le: "t \<le> u \<Longrightarrow> 0 \<le> d \<Longrightarrow> time_sub t u \<le> d"
  by (simp add: time_sub_def minDuration_def)

lemma time_sub_gt_iff:
  assumes "0 \<le> d" and "d < maxDuration"
  shows "time_sub t u > d \<longleftrightarrow> t - u > d"
  using assms by (auto simp: time_sub_def minDuration_def maxDuration_def)

lemma time_sub_lt_iff:
  assumes "0 \<le> d" and "d \<le> maxDuration"
  shows "time_sub t u < d \<longleftrightarrow> t - u < d"
  using assms by (auto simp: time_sub_def minDuration_def maxDuration_def)

lemma time_sub_eq: "minDuration \<le> t - u \<Longrightarrow> t - u \<le> maxDuration \<Longrightarrow> time_sub t u = t - u"
  by (simp add: time_sub_def)

lemma time_sub_mono: "t \<le> t' \<Longrightarrow> time_sub t u \<le> time_sub t' u"
  by (auto simp: time_sub_def)


section \<open>Signed 64-bit integers\<close>

text \<open>\<^verbatim>\<open>int64\<close> arithmetic wraps; \<^term>\<open>int64 x\<close> is the value an \<^verbatim>\<open>int64\<close> holds after
  computing \<open>x\<close>.\<close>

definition int64 :: "int \<Rightarrow> int" where
  "int64 x = (x + 2 ^ 63) mod 2 ^ 64 - 2 ^ 63"

lemma int64_range: "- (2 ^ 63) \<le> int64 x" "int64 x < 2 ^ 63"
  by (simp_all add: int64_def)

lemma int64_id [simp]: "- (2 ^ 63) \<le> x \<Longrightarrow> x < 2 ^ 63 \<Longrightarrow> int64 x = x"
  by (simp add: int64_def)

lemma int64_min: "int64 (2 ^ 63) = - (2 ^ 63)"
  by (simp add: int64_def)


section \<open>Maps\<close>

text \<open>
  A Go map is an association list with distinct keys. The list order stands for one
  iteration order; Go does not specify it, so the theorems of the development are stated
  over \<^const>\<open>map_of\<close>, sets and lengths, never over positions.
\<close>

type_synonym ('k, 'v) gomap = "('k \<times> 'v) list"

abbreviation gomap_ok :: "('k, 'v) gomap \<Rightarrow> bool" where
  "gomap_ok m \<equiv> distinct (map fst m)"

abbreviation gm_get :: "('k, 'v) gomap \<Rightarrow> 'k \<Rightarrow> 'v option" where
  "gm_get m k \<equiv> map_of m k"

abbreviation gm_put :: "'k \<Rightarrow> 'v \<Rightarrow> ('k, 'v) gomap \<Rightarrow> ('k, 'v) gomap" where
  "gm_put k v m \<equiv> AList.update k v m"

abbreviation gm_del :: "'k \<Rightarrow> ('k, 'v) gomap \<Rightarrow> ('k, 'v) gomap" where
  "gm_del k m \<equiv> AList.delete k m"

text \<open>A loop that deletes the entries failing a test while ranging over the map.\<close>

definition gm_retain :: "('k \<Rightarrow> 'v \<Rightarrow> bool) \<Rightarrow> ('k, 'v) gomap \<Rightarrow> ('k, 'v) gomap" where
  "gm_retain P m = filter (\<lambda>(k, v). P k v) m"

lemma gm_get_put [simp]: "gm_get (gm_put k v m) k' = (if k' = k then Some v else gm_get m k')"
  by (simp add: update_conv')

lemma gm_get_del [simp]: "gm_get (gm_del k m) k' = (if k' = k then None else gm_get m k')"
  by (simp add: delete_conv')

lemma gm_ok_put [simp]: "gomap_ok m \<Longrightarrow> gomap_ok (gm_put k v m)"
  by (rule distinct_update)

lemma gm_ok_del [simp]: "gomap_ok m \<Longrightarrow> gomap_ok (gm_del k m)"
  by (rule distinct_delete)

lemma gm_keys_del: "fst ` set (gm_del k m) = fst ` set m - {k}"
proof -
  have "set (map fst (gm_del k m)) = set (removeAll k (map fst m))"
    by (simp only: delete_keys)
  then show ?thesis by simp
qed

lemma gm_ok_retain [simp]: "gomap_ok m \<Longrightarrow> gomap_ok (gm_retain P m)"
  by (auto simp: gm_retain_def distinct_map intro: inj_on_subset)

lemma gm_get_retain:
  assumes "gomap_ok m"
  shows "gm_get (gm_retain P m) k
    = (case gm_get m k of None \<Rightarrow> None | Some v \<Rightarrow> if P k v then Some v else None)"
  using assms
proof (induction m)
  case Nil
  then show ?case by (simp add: gm_retain_def)
next
  case (Cons kv m)
  obtain k' v' where kv: "kv = (k', v')" by fastforce
  have none: "map_of (filter (\<lambda>(k, v). P k v) m) k' = None"
    using Cons.prems kv by (auto simp: map_of_eq_None_iff image_iff)
  show ?case
    using Cons kv none by (auto simp: gm_retain_def split: option.splits)
qed

lemma gm_get_in_set: "gomap_ok m \<Longrightarrow> gm_get m k = Some v \<longleftrightarrow> (k, v) \<in> set m"
  by (simp add: map_of_eq_Some_iff)

lemma length_gm_del:
  "gomap_ok m \<Longrightarrow> length (gm_del k m) = (if gm_get m k = None then length m else length m - 1)"
proof (induction m)
  case Nil
  then show ?case by simp
next
  case (Cons kv m)
  obtain k' v' where kv: "kv = (k', v')" by fastforce
  show ?case
  proof (cases "k' = k")
    case True
    then have "k \<notin> fst ` set m" using Cons.prems kv by auto
    then have "gm_del k m = m" by (simp add: delete_id)
    with True kv show ?thesis by simp
  next
    case False
    then have "map_of m k \<noteq> None \<Longrightarrow> 0 < length m" by (cases m) auto
    with Cons False kv show ?thesis by (auto simp: length_greater_0_conv)
  qed
qed

lemma length_gm_put:
  "length (gm_put k v m) = (if gm_get m k = None then length m + 1 else length m)"
  by (induction m) auto

lemma gm_del_empty_iff: "gomap_ok m \<Longrightarrow> gm_del k m = [] \<longleftrightarrow> (\<forall>k'. gm_get m k' \<noteq> None \<longrightarrow> k' = k)"
  by (metis delete_conv' fun_upd_apply gm_get_del map_of.simps(1) map_of_eq_empty_iff)


section \<open>Strings\<close>

definition HasPrefix :: "'a list \<Rightarrow> 'a list \<Rightarrow> bool" where
  "HasPrefix s p \<longleftrightarrow> take (length p) s = p"

definition HasSuffix :: "'a list \<Rightarrow> 'a list \<Rightarrow> bool" where
  "HasSuffix s p \<longleftrightarrow> length p \<le> length s \<and> drop (length s - length p) s = p"

text \<open>\<^verbatim>\<open>strings.TrimFunc\<close> over a predicate on characters.\<close>

definition trim_by :: "('a \<Rightarrow> bool) \<Rightarrow> 'a list \<Rightarrow> 'a list" where
  "trim_by P s = rev (dropWhile P (rev (dropWhile P s)))"

text \<open>
  \<^verbatim>\<open>strings.TrimSpace\<close> removes every leading and trailing code point that
  \<^verbatim>\<open>unicode.IsSpace\<close> accepts. On the bytes of a string these are the following UTF-8
  encodings; an encoding at the end of a string is recognised whatever precedes it, because
  \<^verbatim>\<open>utf8.DecodeLastRune\<close> backs up to the last start byte.
\<close>

definition chars :: "nat list \<Rightarrow> string" where
  "chars ns = map char_of ns"

definition space_encodings :: "string list" where
  "space_encodings =
     map chars ([[9], [10], [11], [12], [13], [32], [0xC2, 0x85], [0xC2, 0xA0],
       [0xE1, 0x9A, 0x80], [0xE2, 0x80, 0x80], [0xE2, 0x80, 0x81], [0xE2, 0x80, 0x82],
       [0xE2, 0x80, 0x83], [0xE2, 0x80, 0x84], [0xE2, 0x80, 0x85], [0xE2, 0x80, 0x86],
       [0xE2, 0x80, 0x87], [0xE2, 0x80, 0x88], [0xE2, 0x80, 0x89], [0xE2, 0x80, 0x8A],
       [0xE2, 0x80, 0xA8], [0xE2, 0x80, 0xA9], [0xE2, 0x80, 0xAF], [0xE2, 0x81, 0x9F],
       [0xE3, 0x80, 0x80]])"

function strip_any :: "'a list list \<Rightarrow> 'a list \<Rightarrow> 'a list" where
  "strip_any es s =
     (case find (\<lambda>e. e \<noteq> [] \<and> HasPrefix s e) es of
        None \<Rightarrow> s
      | Some e \<Rightarrow> strip_any es (drop (length e) s))"
  by pat_completeness auto
termination
proof (relation "measure (\<lambda>(es, s). length s)", simp)
  fix es :: "'a list list" and s e
  assume "find (\<lambda>e. e \<noteq> [] \<and> HasPrefix s e) es = Some e"
  then have "e \<noteq> []" and "HasPrefix s e" by (auto simp: find_Some_iff)
  then show "((es, drop (length e) s), (es, s)) \<in> measure (\<lambda>(es, s). length s)"
    by (cases e; cases s) (auto simp: HasPrefix_def)
qed

declare strip_any.simps [simp del]

definition TrimSpace :: "string \<Rightarrow> string" where
  "TrimSpace s = rev (strip_any (map rev space_encodings) (rev (strip_any space_encodings s)))"

text \<open>\<^verbatim>\<open>strings.Split\<close> at a one-character separator.\<close>

fun split_on :: "'a \<Rightarrow> 'a list \<Rightarrow> 'a list list" where
  "split_on sep [] = [[]]"
| "split_on sep (c # cs) =
     (if c = sep then [] # split_on sep cs
      else (case split_on sep cs of [] \<Rightarrow> [[c]] | w # ws \<Rightarrow> (c # w) # ws))"

lemma split_on_not_Nil [simp]: "split_on sep s \<noteq> []"
  by (induction s) (auto split: list.splits)

lemma split_on_no_sep: "c \<in> set (split_on s p) \<Longrightarrow> s \<notin> set c"
  by (induction p arbitrary: c) (auto split: if_splits list.splits)

lemma split_on_append: "s \<notin> set c \<Longrightarrow> split_on s (c @ s # p) = c # split_on s p"
  by (induction c) (auto split: list.splits)

lemma split_on_single: "s \<notin> set c \<Longrightarrow> split_on s c = [c]"
  by (induction c) auto

lemma split_on_append2: "split_on s (a @ s # b) = split_on s a @ split_on s b"
proof (induction a)
  case (Cons x a)
  then show ?case by (cases "split_on s a") auto
qed simp

lemma HasPrefix_append [simp]: "HasPrefix (p @ s) p"
  by (simp add: HasPrefix_def)

lemma HasPrefix_iff: "HasPrefix s p \<longleftrightarrow> (\<exists>r. s = p @ r)"
  unfolding HasPrefix_def by (metis append_eq_conv_conj append_take_drop_id)

lemma strip_any_id: "\<forall>e \<in> set es. e = [] \<or> \<not> HasPrefix s e \<Longrightarrow> strip_any es s = s"
proof -
  assume "\<forall>e \<in> set es. e = [] \<or> \<not> HasPrefix s e"
  then have "find (\<lambda>e. e \<noteq> [] \<and> HasPrefix s e) es = None"
    by (auto simp: find_None_iff)
  then show ?thesis by (subst strip_any.simps) simp
qed

text \<open>No encoding starts with a printable ASCII character, nor ends with one.\<close>

definition visible :: "char \<Rightarrow> bool" where
  "visible c \<longleftrightarrow> 33 \<le> (of_char c :: nat) \<and> (of_char c :: nat) < 128"

lemma space_encodings_not_visible:
  "e \<in> set space_encodings \<Longrightarrow> e \<noteq> [] \<and> \<not> visible (hd e) \<and> \<not> visible (last e)"
  by (auto simp: space_encodings_def chars_def visible_def)

lemma HasPrefix_hd: "HasPrefix s e \<Longrightarrow> e \<noteq> [] \<Longrightarrow> s \<noteq> [] \<and> hd s = hd e"
  by (auto simp: HasPrefix_iff)

lemma strip_space_visible:
  assumes "s \<noteq> []" and "visible (hd s)"
  shows "strip_any space_encodings s = s"
  using assms space_encodings_not_visible HasPrefix_hd by (metis strip_any_id)

lemma strip_space_rev_visible:
  assumes "s \<noteq> []" and "visible (last s)"
  shows "strip_any (map rev space_encodings) (rev s) = rev s"
proof (rule strip_any_id, rule ballI)
  fix e' assume "e' \<in> set (map rev space_encodings)"
  then obtain e where "e' = rev e" "e \<in> set space_encodings" by auto
  then show "e' = [] \<or> \<not> HasPrefix (rev s) e'"
    using assms space_encodings_not_visible [of e] HasPrefix_hd [of "rev s" e']
    by (auto simp: hd_rev)
qed

lemma TrimSpace_visible:
  assumes "s \<noteq> []" and "visible (hd s)" and "visible (last s)"
  shows "TrimSpace s = s"
  using assms by (simp add: TrimSpace_def strip_space_visible strip_space_rev_visible)

lemma TrimSpace_Nil [simp]: "TrimSpace [] = []"
proof -
  have "strip_any es [] = []" for es :: "char list list"
    by (rule strip_any_id) (auto simp: HasPrefix_def)
  then show ?thesis by (simp add: TrimSpace_def)
qed

lemma trim_by_Nil [simp]: "trim_by P [] = []"
  by (simp add: trim_by_def)

lemma trim_by_idem_iff: "trim_by P s = [] \<longleftrightarrow> (\<forall>c \<in> set s. P c)"
  by (simp add: trim_by_def dropWhile_eq_Nil_conv) (metis dropWhile_eq_Nil_conv hd_dropWhile hd_in_set set_dropWhileD)

lemma set_trim_by: "set (trim_by P s) \<subseteq> set s"
  by (auto simp: trim_by_def dest!: set_dropWhileD)

lemma trim_by_id: "s \<noteq> [] \<Longrightarrow> \<not> P (hd s) \<Longrightarrow> \<not> P (last s) \<Longrightarrow> trim_by P s = s"
proof -
  assume s: "s \<noteq> []" "\<not> P (hd s)" "\<not> P (last s)"
  then have "dropWhile P s = s" and "dropWhile P (rev s) = rev s"
    by (auto simp: dropWhile_eq_self_iff hd_rev)
  then show ?thesis by (simp add: trim_by_def)
qed

lemma hd_trim_by: "trim_by P s \<noteq> [] \<Longrightarrow> \<not> P (hd (trim_by P s))"
proof -
  assume ne: "trim_by P s \<noteq> []"
  define d where "d = dropWhile P s"
  have "d = [] \<Longrightarrow> trim_by P s = []" by (simp add: trim_by_def flip: d_def)
  with ne have dne: "d \<noteq> []" by blast
  then have hd: "\<not> P (hd d)" by (simp add: d_def hd_dropWhile)
  obtain ys where ys: "d = trim_by P s @ ys"
    unfolding trim_by_def d_def
    by (metis rev_append rev_rev_ident takeWhile_dropWhile_id)
  with ne have "hd (trim_by P s) = hd d" by simp
  with hd show ?thesis by simp
qed


section \<open>Hexadecimal and base32\<close>

definition hex_digit :: "nat \<Rightarrow> char" where
  "hex_digit n = ''0123456789abcdef'' ! n"

fun hex_encode :: "bytes \<Rightarrow> string" where
  "hex_encode [] = []"
| "hex_encode (b # bs) = hex_digit (unat b div 16) # hex_digit (unat b mod 16) # hex_encode bs"

text \<open>\<^verbatim>\<open>hex.DecodeString\<close>: both cases of the digits are accepted, and the length is even.\<close>

definition hex_value :: "char \<Rightarrow> nat option" where
  "hex_value c =
     (let n = of_char c :: nat
      in if 48 \<le> n \<and> n \<le> 57 then Some (n - 48)
         else if 97 \<le> n \<and> n \<le> 102 then Some (n - 87)
         else if 65 \<le> n \<and> n \<le> 70 then Some (n - 55)
         else None)"

fun hex_decode :: "string \<Rightarrow> bytes option" where
  "hex_decode [] = Some []"
| "hex_decode [c] = None"
| "hex_decode (c # d # cs) =
     (case (hex_value c, hex_value d, hex_decode cs) of
        (Some h, Some l, Some bs) \<Rightarrow> Some (of_nat (16 * h + l) # bs)
      | _ \<Rightarrow> None)"

lemma hex_value_digit: "n < 16 \<Longrightarrow> hex_value (hex_digit n) = Some n"
proof -
  assume "n < 16"
  then have "n \<in> {0, 1, 2, 3, 4, 5, 6, 7, 8, 9, 10, 11, 12, 13, 14, 15}"
    unfolding insert_iff empty_iff by arith
  then show ?thesis by (auto simp: hex_value_def hex_digit_def)
qed

lemma hex_decode_encode [simp]: "hex_decode (hex_encode bs) = Some bs"
proof (induction bs)
  case (Cons b bs)
  have "unat b div 16 < 16" "unat b mod 16 < 16"
    using unat_byte_less [of b] by (simp_all add: less_mult_imp_div_less)
  moreover have "of_nat (16 * (unat b div 16) + unat b mod 16) = b" by simp
  ultimately show ?case using Cons by (simp add: hex_value_digit del: of_nat_add)
qed simp

lemma length_hex_encode [simp]: "length (hex_encode bs) = 2 * length bs"
  by (induction bs) auto

lemma hex_digit_inj: "m < 16 \<Longrightarrow> n < 16 \<Longrightarrow> hex_digit m = hex_digit n \<longleftrightarrow> m = n"
proof -
  have d: "distinct ''0123456789abcdef''" by simp
  assume "m < 16" "n < 16"
  then show ?thesis
    unfolding hex_digit_def by (subst nth_eq_iff_index_eq [OF d]) auto
qed

lemma hex_encode_inj: "hex_encode xs = hex_encode ys \<longleftrightarrow> xs = ys"
proof (induction xs arbitrary: ys)
  case Nil
  then show ?case by (cases ys) auto
next
  case (Cons x xs)
  have q: "unat b div 16 < 16" for b :: byte
    by (rule less_mult_imp_div_less) simp
  have eq: "unat a div 16 = unat b div 16 \<and> unat a mod 16 = unat b mod 16 \<longleftrightarrow> a = b" for a b :: byte
    by (metis div_mult_mod_eq word_unat_eq_iff)
  show ?case
    using Cons.IH q eq by (cases ys) (auto simp: hex_digit_inj)
qed

text \<open>
  Unpadded base32 (RFC 4648) reads the input as a bit string, most significant bit first,
  cuts it into groups of five bits, fills the last group with zeros and maps each group to
  a letter of the alphabet.
\<close>

definition base32_alphabet :: string where
  "base32_alphabet = ''ABCDEFGHIJKLMNOPQRSTUVWXYZ234567''"

definition byte_bits :: "byte \<Rightarrow> bool list" where
  "byte_bits b = map (bit b) [7, 6, 5, 4, 3, 2, 1, 0]"

fun bits_val :: "bool list \<Rightarrow> nat" where
  "bits_val [] = 0"
| "bits_val (b # bs) = (if b then 2 ^ length bs else 0) + bits_val bs"

function base32_groups :: "bool list \<Rightarrow> string" where
  "base32_groups bs =
     (if bs = [] then []
      else (base32_alphabet ! bits_val (take 5 (take 5 bs @ replicate 4 False)))
             # base32_groups (drop 5 bs))"
  by pat_completeness auto
termination
  by (relation "measure length") auto

declare base32_groups.simps [simp del]

definition base32_encode :: "bytes \<Rightarrow> string" where
  "base32_encode bs = base32_groups (concat (map byte_bits bs))"

lemma length_base32_groups: "length (base32_groups bs) = (length bs + 4) div 5"
proof (induction bs rule: base32_groups.induct)
  case (1 bs)
  show ?case
  proof (cases "bs = []")
    case True
    then show ?thesis by (simp add: base32_groups.simps)
  next
    case False
    then have "length (base32_groups bs) = Suc ((length bs - 5 + 4) div 5)"
      using "1.IH" by (simp add: base32_groups.simps [of bs])
    moreover have "Suc ((n - 5 + 4) div 5) = (n + 4) div 5" if "0 < n" for n :: nat
      using that by (cases "n < 5") (simp_all add: div_nat_eqI Suc_div_le_mono flip: div_add_self1)
    ultimately show ?thesis using False by simp
  qed
qed

lemma length_concat_byte_bits [simp]: "length (concat (map byte_bits bs)) = 8 * length bs"
  by (induction bs) (auto simp: byte_bits_def)

lemma length_base32_encode: "length (base32_encode bs) = (8 * length bs + 4) div 5"
  by (simp add: base32_encode_def length_base32_groups)

lemma bits_val_less: "bits_val bs < 2 ^ length bs"
  by (induction bs) auto

lemma set_base32_groups: "set (base32_groups bs) \<subseteq> set base32_alphabet"
proof (induction bs rule: base32_groups.induct)
  case (1 bs)
  show ?case
  proof (cases "bs = []")
    case True
    then show ?thesis by (simp add: base32_groups.simps)
  next
    case False
    let ?g = "take 5 (take 5 bs @ replicate 4 False)"
    have "length ?g = 5" using False by (cases bs) auto
    then have "bits_val ?g < 32" using bits_val_less [of ?g] by simp
    moreover have "length base32_alphabet = 32" by (simp add: base32_alphabet_def)
    ultimately have "base32_alphabet ! bits_val ?g \<in> set base32_alphabet"
      by (intro nth_mem) simp
    with False "1.IH" show ?thesis by (simp add: base32_groups.simps [of bs])
  qed
qed

lemma set_base32_encode: "set (base32_encode bs) \<subseteq> set base32_alphabet"
  by (simp add: base32_encode_def set_base32_groups)

end
