(* ===== verification/Filepath.thy ===== *)
theory Filepath
  imports Peersh_Prelude
begin

text \<open>
  The functions of Go's \<^verbatim>\<open>path/filepath\<close> the file browser uses, in the library's Unix variant
  (separator \<^verbatim>\<open>/\<close>, no volume names), written over path components. On Windows the same source
  lines call the library's Windows variant, which is not modelled. No definition here models a
  line of the repository.
\<close>

definition comps :: "string \<Rightarrow> string list" where
  "comps p = filter (\<lambda>c. c \<noteq> []) (split_on (CHR ''/'') p)"

fun join_slash :: "string list \<Rightarrow> string" where
  "join_slash [] = []"
| "join_slash [c] = c"
| "join_slash (c # cs) = c @ ''/'' @ join_slash cs"

definition IsAbs :: "string \<Rightarrow> bool" where
  "IsAbs p \<longleftrightarrow> HasPrefix p ''/''"

text \<open>Lexical elimination of \<^verbatim>\<open>.\<close> and \<^verbatim>\<open>..\<close>; the accumulator is the reversed result.\<close>

fun clean_comps :: "bool \<Rightarrow> string list \<Rightarrow> string list \<Rightarrow> string list" where
  "clean_comps rooted acc [] = rev acc"
| "clean_comps rooted acc (c # cs) =
     (if c = ''.'' then clean_comps rooted acc cs
      else if c = ''..'' then
        (case acc of
           a # as \<Rightarrow> if a = ''..'' then clean_comps rooted (''..'' # acc) cs else clean_comps rooted as cs
         | [] \<Rightarrow> if rooted then clean_comps rooted [] cs else clean_comps rooted [''..''] cs)
      else clean_comps rooted (c # acc) cs)"

definition render_path :: "bool \<Rightarrow> string list \<Rightarrow> string" where
  "render_path rooted cs =
     (if rooted then CHR ''/'' # join_slash cs else if cs = [] then ''.'' else join_slash cs)"

definition Clean :: "string \<Rightarrow> string" where
  "Clean p = render_path (IsAbs p) (clean_comps (IsAbs p) [] (comps p))"

definition Join2 :: "string \<Rightarrow> string \<Rightarrow> string" where
  "Join2 a b =
     (if a = [] then (if b = [] then [] else Clean b) else Clean (a @ ''/'' @ b))"

definition Base :: "string \<Rightarrow> string" where
  "Base p = (if p = [] then ''.'' else case rev (comps p) of [] \<Rightarrow> ''/'' | c # _ \<Rightarrow> c)"

text \<open>\<open>wd\<close> is the process's working directory, or none when it cannot be determined.\<close>

definition Abs :: "string option \<Rightarrow> string \<Rightarrow> string option" where
  "Abs wd p = (if IsAbs p then Some (Clean p) else map_option (\<lambda>w. Join2 w p) wd)"

fun strip_common :: "'a list \<Rightarrow> 'a list \<Rightarrow> 'a list \<times> 'a list" where
  "strip_common (x # xs) (y # ys) = (if x = y then strip_common xs ys else (x # xs, y # ys))"
| "strip_common xs ys = (xs, ys)"

definition Rel :: "string \<Rightarrow> string \<Rightarrow> string option" where
  "Rel base targ =
     (let b = Clean base; t = Clean targ
      in if t = b then Some ''.''
         else if IsAbs b \<noteq> IsAbs t then None
         else
          (let bc = (if b = ''.'' then [] else comps b); tc = comps t
           in (case strip_common bc tc of
                 (bs, ts) \<Rightarrow>
                   if bs \<noteq> [] \<and> hd bs = ''..'' then None
                   else Some (join_slash (replicate (length bs) ''..'' @ ts)))))"

section \<open>Components\<close>

definition name_ok :: "string \<Rightarrow> bool" where
  "name_ok c \<longleftrightarrow> c \<noteq> [] \<and> CHR ''/'' \<notin> set c"

lemma comps_name_ok: "c \<in> set (comps p) \<Longrightarrow> name_ok c"
  by (auto simp: comps_def name_ok_def dest: split_on_no_sep)

lemma comps_join: "\<forall>c \<in> set cs. name_ok c \<Longrightarrow> comps (join_slash cs) = cs"
proof (induction cs rule: join_slash.induct)
  case (2 c)
  then show ?case by (simp add: comps_def name_ok_def split_on_single)
next
  case (3 c d cs)
  then have "comps (c @ CHR ''/'' # join_slash (d # cs)) = c # comps (join_slash (d # cs))"
    by (simp add: comps_def name_ok_def split_on_append)
  with 3 show ?case by simp
qed (simp add: comps_def)

lemma comps_slash: "comps (CHR ''/'' # p) = comps p"
  by (simp add: comps_def)

lemma comps_append: "comps (a @ CHR ''/'' # b) = comps a @ comps b"
  by (simp add: comps_def split_on_append2)

text \<open>A cleaned rooted path has no dots left.\<close>

definition plain :: "string \<Rightarrow> bool" where
  "plain c \<longleftrightarrow> name_ok c \<and> c \<noteq> ''.'' \<and> c \<noteq> ''..''"

lemma clean_rooted_plain:
  "\<forall>c \<in> set cs. name_ok c \<Longrightarrow> \<forall>a \<in> set acc. plain a \<Longrightarrow> \<forall>c \<in> set (clean_comps True acc cs). plain c"
proof (induction cs arbitrary: acc)
  case (Cons c cs)
  note IH = Cons.IH and pre = Cons.prems
  have cs: "\<forall>c \<in> set cs. name_ok c" using pre(1) by simp
  consider "c = ''.''" | "c = ''..''" "acc = []" | a as where "c = ''..''" "acc = a # as" "a \<noteq> ''..''" "\<forall>a \<in> set as. plain a"
    | "c \<noteq> ''.''" "c \<noteq> ''..''" "plain c"
    using pre by (cases acc) (auto simp: plain_def)
  then show ?case
  proof cases
    case 1
    then show ?thesis using IH [OF cs pre(2)] by simp
  next
    case 2
    then show ?thesis using IH [OF cs, of "[]"] by simp
  next
    case (3 a as)
    then show ?thesis using IH [OF cs 3(4)] by simp
  next
    case 4
    have e: "clean_comps True acc (c # cs) = clean_comps True (c # acc) cs" using 4(1,2) by simp
    have "\<forall>a \<in> set (c # acc). plain a" using 4(3) pre(2) by simp
    then show ?thesis unfolding e by (rule IH [OF cs])
  qed
qed simp

lemma clean_comps_plain: "\<forall>c \<in> set cs. plain c \<Longrightarrow> clean_comps r acc cs = rev acc @ cs"
proof (induction cs arbitrary: acc)
  case (Cons c cs)
  then have "c \<noteq> ''.''" "c \<noteq> ''..''" by (simp_all add: plain_def)
  with Cons show ?case by simp
qed simp

lemma clean_comps_append:
  assumes "\<forall>c \<in> set ds. plain c"
  shows "clean_comps r acc (cs @ ds) = clean_comps r acc cs @ ds"
  by (induction r acc cs rule: clean_comps.induct)
     (auto simp: clean_comps_plain [OF assms] split: list.splits)

lemma IsAbs_Clean: "IsAbs p \<Longrightarrow> IsAbs (Clean p)"
  by (simp add: Clean_def render_path_def IsAbs_def HasPrefix_def)

definition abs_comps :: "string \<Rightarrow> string list" where
  "abs_comps p = clean_comps True [] (comps p)"

lemma abs_comps_plain: "\<forall>c \<in> set (abs_comps p). plain c"
  unfolding abs_comps_def by (rule clean_rooted_plain) (auto dest: comps_name_ok)

lemma plain_name_ok: "plain c \<Longrightarrow> name_ok c"
  by (simp add: plain_def)

lemma Clean_abs: "IsAbs p \<Longrightarrow> Clean p = CHR ''/'' # join_slash (abs_comps p)"
  by (simp add: Clean_def render_path_def abs_comps_def)

lemma comps_Clean_abs: "IsAbs p \<Longrightarrow> comps (Clean p) = abs_comps p"
  using abs_comps_plain [of p] by (simp add: Clean_abs comps_slash comps_join plain_name_ok)

lemma abs_comps_Clean: "IsAbs p \<Longrightarrow> abs_comps (Clean p) = abs_comps p"
  using abs_comps_plain [of p] by (simp add: abs_comps_def [of "Clean p"] comps_Clean_abs clean_comps_plain)

lemma Clean_idem_abs: "IsAbs p \<Longrightarrow> Clean (Clean p) = Clean p"
  by (metis Clean_abs IsAbs_Clean abs_comps_Clean)

lemma Clean_abs_inject: "IsAbs p \<Longrightarrow> IsAbs q \<Longrightarrow> Clean p = Clean q \<longleftrightarrow> abs_comps p = abs_comps q"
  by (metis Clean_abs comps_Clean_abs)

section \<open>Relative paths\<close>

lemma strip_common_spec: "strip_common xs ys = (bs, ts) \<Longrightarrow> \<exists>zs. xs = zs @ bs \<and> ys = zs @ ts"
proof (induction xs ys rule: strip_common.induct)
  case (1 x xs y ys)
  then show ?case by (auto split: if_splits)
qed auto

lemma strip_common_prefix: "strip_common xs (xs @ ys) = ([], ys)"
  by (induction xs) auto

lemma join_dots_prefix: "n > 0 \<Longrightarrow> HasPrefix (join_slash (replicate n ''..'' @ ts)) ''..''"
proof (cases n)
  case (Suc m)
  then show ?thesis by (cases "replicate m ''..'' @ ts") (simp_all add: HasPrefix_def)
qed simp

lemma Rel_inside:
  assumes "IsAbs b" "IsAbs t" and "Rel b t = Some r" and "\<not> HasPrefix r ''..''"
  shows "\<exists>rest. abs_comps t = abs_comps b @ rest"
proof (cases "Clean t = Clean b")
  case True
  then show ?thesis using Clean_abs_inject [OF assms(2,1)] by simp
next
  case False
  obtain bs ts where S: "strip_common (abs_comps b) (abs_comps t) = (bs, ts)" by fastforce
  have "Clean b \<noteq> ''.''" using assms(1) by (simp add: Clean_abs)
  then have r: "r = join_slash (replicate (length bs) ''..'' @ ts)"
    using assms(3) False S IsAbs_Clean [OF assms(1)] IsAbs_Clean [OF assms(2)]
    by (auto simp: Rel_def Let_def comps_Clean_abs [OF assms(1)] comps_Clean_abs [OF assms(2)] split: if_splits)
  then have "bs = []" using assms(4) join_dots_prefix [of "length bs" ts] by auto
  with strip_common_spec [OF S] show ?thesis by auto
qed

lemma Rel_below:
  assumes "IsAbs b" "IsAbs t" and "abs_comps t = abs_comps b @ rest" and "rest \<noteq> []"
  shows "Rel b t = Some (join_slash rest)"
proof -
  have "Clean t \<noteq> Clean b" using Clean_abs_inject [OF assms(2,1)] assms(3,4) by simp
  moreover have "Clean b \<noteq> ''.''" using assms(1) by (simp add: Clean_abs)
  ultimately show ?thesis
    using IsAbs_Clean [OF assms(1)] IsAbs_Clean [OF assms(2)]
    by (simp add: Rel_def Let_def comps_Clean_abs [OF assms(1)] comps_Clean_abs [OF assms(2)] assms(3)
        strip_common_prefix)
qed

end
