(* ===== verification/Ring_Buffer.thy ===== *)
theory Ring_Buffer
  imports Peersh_Prelude
begin

text \<open>
  The scrollback ring buffer of \<^verbatim>\<open>windows/ptyhost/manager.go\<close> (type \<^verbatim>\<open>ringBuffer\<close>): the last
  \<^verbatim>\<open>cap\<close> bytes a terminal produced, kept in a preallocated array with a wrapping write
  index. The interface a client relies on is the locale \<open>scrollback\<close>; the ring buffer
  interprets it.
\<close>

record ringBuffer =
  buf :: bytes
  cap :: nat
  head :: nat
  full :: bool

definition newRingBuffer :: "nat \<Rightarrow> ringBuffer" where
  "newRingBuffer c = \<lparr>buf = [], cap = c, head = 0, full = False\<rparr>"

text \<open>Go's \<^verbatim>\<open>copy(dst[lo:hi], src)\<close> as an update of the array \<open>dst\<close>: it moves as many
  elements as both slices have.\<close>

definition copy_slice :: "'a list \<Rightarrow> nat \<Rightarrow> nat \<Rightarrow> 'a list \<Rightarrow> 'a list" where
  "copy_slice dst lo hi src =
     (let n = min (hi - lo) (length src)
      in take lo dst @ take n src @ drop (lo + n) dst)"

text \<open>The last part of \<^verbatim>\<open>write\<close>, reached once the array is full: \<open>p\<close> is laid across the
  write index, wrapping at the end of the array.\<close>

definition rb_overwrite :: "ringBuffer \<Rightarrow> bytes \<Rightarrow> ringBuffer" where
  "rb_overwrite r p =
     (if length p \<ge> cap r then
        r\<lparr>buf := copy_slice (buf r) 0 (length (buf r)) (drop (length p - cap r) p), head := 0\<rparr>
      else
        let tail = cap r - head r in
        if length p \<le> tail then
          let h = head r + length p in
          r\<lparr>buf := copy_slice (buf r) (head r) (head r + length p) p,
            head := (if h = cap r then 0 else h)\<rparr>
        else
          let b = copy_slice (buf r) (head r) (length (buf r)) (take tail p) in
          r\<lparr>buf := copy_slice b 0 (length b) (drop tail p), head := length p - tail\<rparr>)"

definition rb_write :: "ringBuffer \<Rightarrow> bytes \<Rightarrow> ringBuffer" where
  "rb_write r p =
     (if cap r \<le> 0 then r
      else if \<not> full r \<and> length (buf r) + length p \<le> cap r then
        let b = buf r @ p in
        r\<lparr>buf := b, head := length b, full := (if length b = cap r then True else full r)\<rparr>
      else if \<not> full r then
        let need = cap r - length (buf r) in
        if need > length p then r\<lparr>buf := buf r @ p, head := length (buf r @ p)\<rparr>
        else rb_overwrite (r\<lparr>buf := buf r @ take need p, head := 0, full := True\<rparr>) (drop need p)
      else rb_overwrite r p)"

definition rb_snapshot :: "ringBuffer \<Rightarrow> bytes" where
  "rb_snapshot r =
     (if \<not> full r then buf r
      else
        let out = copy_slice (replicate (cap r) 0) 0 (cap r) (drop (head r) (buf r)) in
        copy_slice out (cap r - head r) (cap r) (take (head r) (buf r)))"


section \<open>Invariant and behaviour\<close>

definition rb_ok :: "ringBuffer \<Rightarrow> bool" where
  "rb_ok r \<longleftrightarrow>
     length (buf r) \<le> cap r
     \<and> (full r \<longrightarrow> 0 < cap r \<and> length (buf r) = cap r \<and> head r \<le> cap r)
     \<and> (\<not> full r \<longrightarrow> head r = length (buf r) \<and> (0 < cap r \<longrightarrow> length (buf r) < cap r))"

text \<open>The specification: keep the last \<open>n\<close> elements.\<close>

definition keep_last :: "nat \<Rightarrow> 'a list \<Rightarrow> 'a list" where
  "keep_last n xs = drop (length xs - n) xs"

lemma keep_last_short [simp]: "length xs \<le> n \<Longrightarrow> keep_last n xs = xs"
  by (simp add: keep_last_def)

lemma length_keep_last [simp]: "length (keep_last n xs) = min n (length xs)"
  by (simp add: keep_last_def)

lemma keep_last_append_keep_last [simp]: "keep_last n (keep_last n xs @ ys) = keep_last n (xs @ ys)"
  by (cases "length xs \<le> n") (auto simp: keep_last_def add.commute)

lemma rb_ok_new [simp]: "rb_ok (newRingBuffer c)"
  by (simp add: rb_ok_def newRingBuffer_def)

lemma rb_snapshot_new [simp]: "rb_snapshot (newRingBuffer c) = []"
  by (simp add: rb_snapshot_def newRingBuffer_def)

lemma rb_snapshot_full:
  assumes "rb_ok r" and "full r"
  shows "rb_snapshot r = drop (head r) (buf r) @ take (head r) (buf r)"
  using assms by (simp add: rb_ok_def rb_snapshot_def copy_slice_def Let_def)

lemma rb_snapshot_not_full: "\<not> full r \<Longrightarrow> rb_snapshot r = buf r"
  by (simp add: rb_snapshot_def)

lemma rb_overwrite_cap [simp]: "cap (rb_overwrite r p) = cap r"
  by (simp add: rb_overwrite_def Let_def)

lemma rb_write_cap [simp]: "cap (rb_write r p) = cap r"
  by (simp add: rb_write_def Let_def)

lemma rb_overwrite_correct:
  assumes ok: "rb_ok r" and f: "full r"
  shows "rb_ok (rb_overwrite r p) \<and> full (rb_overwrite r p)
    \<and> rb_snapshot (rb_overwrite r p) = keep_last (cap r) (rb_snapshot r @ p)"
proof -
  let ?b = "buf r" and ?h = "head r" and ?c = "cap r" and ?n = "length p"
  have len: "length ?b = ?c" "?h \<le> ?c" "0 < ?c" using ok f by (auto simp: rb_ok_def)
  note snap = rb_snapshot_full [OF ok f]
  consider (big) "?c \<le> ?n" | (fits) "?n < ?c" "?n \<le> ?c - ?h" | (wraps) "?n < ?c" "?c - ?h < ?n"
    by linarith
  then show ?thesis
  proof cases
    case big
    then have "rb_overwrite r p = r\<lparr>buf := drop (?n - ?c) p, head := 0\<rparr>"
      using len by (simp add: rb_overwrite_def copy_slice_def)
    moreover have "rb_ok (r\<lparr>buf := drop (?n - ?c) p, head := 0\<rparr>)"
      using big f len by (simp add: rb_ok_def)
    ultimately show ?thesis
      using big len f by (simp add: rb_snapshot_full snap keep_last_def)
  next
    case fits
    let ?b' = "take ?h ?b @ p @ drop (?h + ?n) ?b"
    let ?h' = "if ?h + ?n = ?c then 0 else ?h + ?n"
    have eq: "rb_overwrite r p = r\<lparr>buf := ?b', head := ?h'\<rparr>"
      using fits len by (simp add: rb_overwrite_def copy_slice_def Let_def)
    have ok': "rb_ok (r\<lparr>buf := ?b', head := ?h'\<rparr>)"
      using fits len f by (auto simp: rb_ok_def)
    have "drop ?h' ?b' @ take ?h' ?b' = drop (?h + ?n) ?b @ take ?h ?b @ p"
      using fits len by auto
    then show ?thesis
      using eq ok' f fits len by (simp add: rb_snapshot_full snap keep_last_def add.commute)
  next
    case wraps
    let ?t = "?c - ?h"
    let ?b' = "drop ?t p @ drop (?n - ?t) (take ?h ?b @ take ?t p)"
    have eq: "rb_overwrite r p = r\<lparr>buf := ?b', head := ?n - ?t\<rparr>"
      using wraps len by (simp add: rb_overwrite_def copy_slice_def Let_def)
    have ok': "rb_ok (r\<lparr>buf := ?b', head := ?n - ?t\<rparr>)"
      using wraps len f by (auto simp: rb_ok_def)
    have "drop (?n - ?t) ?b' @ take (?n - ?t) ?b' = drop (?n - ?t) (take ?h ?b) @ p"
      using wraps len by simp
    then show ?thesis
      using eq ok' f wraps len by (simp add: rb_snapshot_full snap keep_last_def)
  qed
qed

lemma rb_write_correct:
  assumes ok: "rb_ok r"
  shows "rb_ok (rb_write r p) \<and> rb_snapshot (rb_write r p) = keep_last (cap r) (rb_snapshot r @ p)"
proof -
  consider (zero) "cap r = 0" | (room) "0 < cap r" "\<not> full r" "length (buf r) + length p \<le> cap r"
    | (cross) "0 < cap r" "\<not> full r" "cap r < length (buf r) + length p"
    | (full) "0 < cap r" "full r"
    by linarith
  then show ?thesis
  proof cases
    case zero
    with ok show ?thesis by (simp add: rb_write_def rb_ok_def rb_snapshot_def keep_last_def)
  next
    case room
    let ?r' = "r\<lparr>buf := buf r @ p, head := length (buf r @ p),
      full := length (buf r @ p) = cap r\<rparr>"
    have eq: "rb_write r p = ?r'"
      using room by (simp add: rb_write_def Let_def)
    have "rb_ok ?r'" using room ok by (auto simp: rb_ok_def)
    moreover have "rb_snapshot ?r' = buf r @ p"
      using room by (simp add: rb_snapshot_def copy_slice_def Let_def)
    ultimately show ?thesis
      using room eq by (simp add: rb_snapshot_not_full)
  next
    case cross
    let ?need = "cap r - length (buf r)"
    let ?r1 = "r\<lparr>buf := buf r @ take ?need p, head := 0, full := True\<rparr>"
    have eq: "rb_write r p = rb_overwrite ?r1 (drop ?need p)"
      using cross by (simp add: rb_write_def Let_def)
    have ok1: "rb_ok ?r1" using ok cross by (auto simp: rb_ok_def)
    have "rb_snapshot ?r1 = buf r @ take ?need p"
      using ok1 by (simp add: rb_snapshot_full)
    then show ?thesis
      using rb_overwrite_correct [OF ok1, of "drop ?need p"] cross eq
      by (simp add: rb_snapshot_not_full)
  next
    case full
    then show ?thesis
      using rb_overwrite_correct [OF ok] by (simp add: rb_write_def)
  qed
qed


section \<open>The scrollback interface\<close>

locale scrollback =
  fixes wr :: "'s \<Rightarrow> 'a list \<Rightarrow> 's"
    and snapshot :: "'s \<Rightarrow> 'a list"
    and limit :: "'s \<Rightarrow> nat"
    and ok :: "'s \<Rightarrow> bool"
  assumes write_ok: "ok s \<Longrightarrow> ok (wr s p)"
    and write_limit: "ok s \<Longrightarrow> limit (wr s p) = limit s"
    and snapshot_write: "ok s \<Longrightarrow> snapshot (wr s p) = keep_last (limit s) (snapshot s @ p)"
begin

lemma fold_write_ok: "ok s \<Longrightarrow> ok (foldl wr s ps) \<and> limit (foldl wr s ps) = limit s"
  by (induction ps arbitrary: s) (auto simp: write_ok write_limit)

lemma snapshot_fold_write:
  "ok s \<Longrightarrow> length (snapshot s) \<le> limit s
    \<Longrightarrow> snapshot (foldl wr s ps) = keep_last (limit s) (snapshot s @ concat ps)"
proof (induction ps arbitrary: s)
  case Nil
  then show ?case by simp
next
  case (Cons p ps)
  then have "snapshot (foldl wr (wr s p) ps)
      = keep_last (limit s) (keep_last (limit s) (snapshot s @ p) @ concat ps)"
    by (simp add: write_ok write_limit snapshot_write)
  then show ?case by simp
qed

lemma chunking_irrelevant:
  "ok s \<Longrightarrow> length (snapshot s) \<le> limit s \<Longrightarrow> concat ps = concat qs
    \<Longrightarrow> snapshot (foldl wr s ps) = snapshot (foldl wr s qs)"
  by (simp add: snapshot_fold_write)

end

interpretation ring: scrollback rb_write rb_snapshot cap rb_ok
  by unfold_locales (simp_all add: rb_write_correct)

text \<open>C12: after any sequence of writes to a fresh buffer, \<^verbatim>\<open>snapshot\<close> is exactly the last
  \<^verbatim>\<open>cap\<close> bytes of everything written, oldest first, however the output was cut into chunks
  and however often the write index wrapped; the invariant of the array holds throughout.\<close>

theorem ring_buffer_keeps_last:
  "rb_ok (foldl rb_write (newRingBuffer c) ps)
   \<and> rb_snapshot (foldl rb_write (newRingBuffer c) ps) = keep_last c (concat ps)"
  using ring.fold_write_ok [of "newRingBuffer c" ps]
    ring.snapshot_fold_write [of "newRingBuffer c" ps]
  by simp (simp add: newRingBuffer_def)

text \<open>one \<^verbatim>\<open>write\<close> on any buffer that satisfies the invariant keeps it and the capacity,
  and a later \<^verbatim>\<open>snapshot\<close> is the specification's: append, then drop the oldest bytes beyond
  \<^verbatim>\<open>cap\<close>.\<close>

theorem ring_buffer_write_refines:
  assumes "rb_ok r"
  shows "rb_ok (rb_write r p) \<and> cap (rb_write r p) = cap r
    \<and> length (buf (rb_write r p)) \<le> cap r
    \<and> rb_snapshot (rb_write r p) = keep_last (cap r) (rb_snapshot r @ p)"
  using rb_write_correct [OF assms, of p] by (auto simp: rb_ok_def)

theorem ring_buffer_write_refines_witness:
  "let r = \<lparr>buf = [3, 4, 2], cap = 3, head = 2, full = True\<rparr>
   in rb_ok (rb_write r [5, 6]) \<and> cap (rb_write r [5, 6]) = cap r
      \<and> length (buf (rb_write r [5, 6])) \<le> cap r
      \<and> rb_snapshot (rb_write r [5, 6]) = keep_last (cap r) (rb_snapshot r @ [5, 6])"
  unfolding Let_def by (rule ring_buffer_write_refines) (simp add: rb_ok_def)

end
