(* ===== verification/Cwd_Tracker.thy ===== *)
theory Cwd_Tracker
  imports Peersh_Prelude
begin

text \<open>
  \<^verbatim>\<open>windows/session/cwdtracker.go\<close>: the parser that watches a terminal's output for the
  OSC 9;9 sequences the prompt hooks of \<^verbatim>\<open>windows/shell/shell.go\<close> emit, and reports the
  directory each one carries. It is fed the output chunk by chunk, so its state survives a
  sequence that is cut at any byte.
\<close>

datatype cwdParserMode = cwdText | cwdEscaped | cwdOSC | cwdOSCStringEscaped

record CWDTracker =
  mode :: cwdParserMode
  payload :: bytes
  overflow :: bool

definition cwdMaxBody :: nat where
  "cwdMaxBody = 4096"

definition NewCWDTracker :: CWDTracker where
  "NewCWDTracker = \<lparr>mode = cwdText, payload = [], overflow = False\<rparr>"

abbreviation ESC :: byte where "ESC \<equiv> 0x1b"
abbreviation BEL :: byte where "BEL \<equiv> 0x07"
abbreviation RBRACKET :: byte where "RBRACKET \<equiv> 0x5d"
abbreviation BACKSLASH :: byte where "BACKSLASH \<equiv> 0x5c"

definition string_of_bytes :: "bytes \<Rightarrow> string" where
  "string_of_bytes bs = map char_of_byte bs"

definition osc99_prefix :: string where
  "osc99_prefix = ''9;9;''"

definition parseOSC99 :: "bytes \<Rightarrow> string option" where
  "parseOSC99 body =
     (let s = string_of_bytes body in
      if \<not> HasPrefix s osc99_prefix then None
      else
        let p = TrimSpace (drop (length osc99_prefix) s);
            p' = trim_by (\<lambda>c. c = CHR 0x22) p
        in if p' = [] then None else Some p')"

definition tracker_reset :: "CWDTracker \<Rightarrow> CWDTracker" where
  "tracker_reset t = t\<lparr>mode := cwdText, payload := [], overflow := False\<rparr>"

definition feedEscaped :: "CWDTracker \<Rightarrow> byte \<Rightarrow> CWDTracker" where
  "feedEscaped t b =
     (if b = RBRACKET then t\<lparr>mode := cwdOSC, payload := [], overflow := False\<rparr>
      else if b = ESC then t\<lparr>mode := cwdEscaped\<rparr>
      else t\<lparr>mode := cwdText\<rparr>)"

definition appendPayload :: "CWDTracker \<Rightarrow> byte \<Rightarrow> CWDTracker" where
  "appendPayload t b =
     (if length (payload t) < cwdMaxBody then t\<lparr>payload := payload t @ [b]\<rparr>
      else t\<lparr>overflow := True\<rparr>)"

definition finishOSC :: "CWDTracker \<Rightarrow> string list \<Rightarrow> CWDTracker \<times> string list" where
  "finishOSC t paths =
     (tracker_reset t,
      if \<not> overflow t then
        (case parseOSC99 (payload t) of Some path \<Rightarrow> paths @ [path] | None \<Rightarrow> paths)
      else paths)"

text \<open>The body of the loop in \<^verbatim>\<open>Feed\<close>, for one byte.\<close>

definition feed_byte :: "CWDTracker \<times> string list \<Rightarrow> byte \<Rightarrow> CWDTracker \<times> string list" where
  "feed_byte tp b =
     (case tp of (t, paths) \<Rightarrow>
       (case mode t of
          cwdText \<Rightarrow> (if b = ESC then (t\<lparr>mode := cwdEscaped\<rparr>, paths) else (t, paths))
        | cwdEscaped \<Rightarrow> (feedEscaped t b, paths)
        | cwdOSC \<Rightarrow>
            (if b = BEL then finishOSC t paths
             else if b = ESC then (t\<lparr>mode := cwdOSCStringEscaped\<rparr>, paths)
             else (appendPayload t b, paths))
        | cwdOSCStringEscaped \<Rightarrow>
            (if b = BACKSLASH then finishOSC t paths
             else (feedEscaped (tracker_reset t) b, paths))))"

definition Feed :: "CWDTracker \<Rightarrow> bytes \<Rightarrow> CWDTracker \<times> string list" where
  "Feed t p = foldl feed_byte (t, []) p"


section \<open>Chunks\<close>

lemma feed_byte_paths:
  "feed_byte (t, ps @ qs) b = (fst (feed_byte (t, qs) b), ps @ snd (feed_byte (t, qs) b))"
  by (auto simp: feed_byte_def finishOSC_def split: cwdParserMode.split option.split)

lemma foldl_feed_paths:
  "foldl feed_byte (t, ps @ qs) p
    = (fst (foldl feed_byte (t, qs) p), ps @ snd (foldl feed_byte (t, qs) p))"
proof (induction p arbitrary: t qs)
  case Nil
  then show ?case by simp
next
  case (Cons b p)
  obtain t' qs' where "feed_byte (t, qs) b = (t', qs')" by fastforce
  then show ?case using Cons.IH [of t' qs'] by (simp add: feed_byte_paths)
qed

lemma foldl_feed_Feed: "foldl feed_byte (t, ps) p = (fst (Feed t p), ps @ snd (Feed t p))"
  using foldl_feed_paths [of t ps "[]" p] by (simp add: Feed_def)

lemma Feed_Nil [simp]: "Feed t [] = (t, [])"
  by (simp add: Feed_def)

lemma Feed_append:
  "Feed t (p @ q) = (case Feed t p of (t1, ps) \<Rightarrow> case Feed t1 q of (t2, qs) \<Rightarrow> (t2, ps @ qs))"
  using foldl_feed_Feed [of "fst (Feed t p)" "snd (Feed t p)" q]
  by (simp add: Feed_def split: prod.split)

fun feed_chunks :: "CWDTracker \<Rightarrow> bytes list \<Rightarrow> CWDTracker \<times> string list" where
  "feed_chunks t [] = (t, [])"
| "feed_chunks t (c # cs) =
     (case Feed t c of (t1, ps) \<Rightarrow> case feed_chunks t1 cs of (t2, qs) \<Rightarrow> (t2, ps @ qs))"

text \<open>feeding the output in chunks reports the same directories, and leaves the parser
  in the same state, as feeding it in one piece: an OSC sequence may be cut anywhere,
  inside the escape, the payload or the two-byte terminator.\<close>

theorem feed_chunks_eq: "feed_chunks t cs = Feed t (concat cs)"
  by (induction cs arbitrary: t) (auto simp: Feed_append split: prod.split)


section \<open>Bounds\<close>

definition payload_bounded :: "CWDTracker \<Rightarrow> bool" where
  "payload_bounded t \<longleftrightarrow> length (payload t) \<le> cwdMaxBody"

lemma feed_byte_bounded: "payload_bounded t \<Longrightarrow> payload_bounded (fst (feed_byte (t, ps) b))"
  by (auto simp: payload_bounded_def feed_byte_def feedEscaped_def appendPayload_def finishOSC_def
      tracker_reset_def split: cwdParserMode.split)

lemma Feed_bounded: "payload_bounded t \<Longrightarrow> payload_bounded (fst (Feed t p))"
proof -
  have "payload_bounded t \<Longrightarrow> payload_bounded (fst (foldl feed_byte (t, ps) p))" for t ps
  proof (induction p arbitrary: t ps)
    case (Cons b p)
    obtain t' ps' where "feed_byte (t, ps) b = (t', ps')" by fastforce
    with feed_byte_bounded [OF Cons.prems, of ps b] Cons.IH [of t' ps'] show ?case by simp
  qed simp
  then show "payload_bounded t \<Longrightarrow> ?thesis" by (simp add: Feed_def)
qed

text \<open>whatever the child process prints, the parser never holds more than 4096 payload
  bytes.\<close>

theorem tracker_memory_bounded: "length (payload (fst (Feed NewCWDTracker p))) \<le> cwdMaxBody"
  using Feed_bounded [of NewCWDTracker p] by (simp add: payload_bounded_def NewCWDTracker_def)


section \<open>What the parser reports\<close>

text \<open>Terminal output as the prompt hooks produce it: text, and OSC 9;9 sequences closed by
  BEL (PowerShell, bash and zsh hooks) or by the string terminator (cmd's prompt macro).\<close>

datatype segment = Text bytes | OscBel bytes | OscST bytes

definition osc99_open :: bytes where
  "osc99_open = [ESC, RBRACKET, 0x39, 0x3b, 0x39, 0x3b]"

fun render :: "segment \<Rightarrow> bytes" where
  "render (Text t) = t"
| "render (OscBel d) = osc99_open @ d @ [BEL]"
| "render (OscST d) = osc99_open @ d @ [ESC, BACKSLASH]"

definition plain_dir :: "bytes \<Rightarrow> bool" where
  "plain_dir d \<longleftrightarrow> d \<noteq> [] \<and> ESC \<notin> set d \<and> BEL \<notin> set d \<and> length d \<le> cwdMaxBody - 4
     \<and> (let s = string_of_bytes d in
        visible (hd s) \<and> visible (last s) \<and> hd s \<noteq> CHR 0x22 \<and> last s \<noteq> CHR 0x22)"

fun segment_ok :: "segment \<Rightarrow> bool" where
  "segment_ok (Text t) = (ESC \<notin> set t)"
| "segment_ok (OscBel d) = plain_dir d"
| "segment_ok (OscST d) = plain_dir d"

fun reported :: "segment \<Rightarrow> string list" where
  "reported (Text t) = []"
| "reported (OscBel d) = [string_of_bytes d]"
| "reported (OscST d) = [string_of_bytes d]"

lemma feed_text: "mode t = cwdText \<Longrightarrow> ESC \<notin> set p \<Longrightarrow> foldl feed_byte (t, ps) p = (t, ps)"
  by (induction p) (auto simp: feed_byte_def)

lemma feed_payload:
  assumes "mode t = cwdOSC" and "ESC \<notin> set d" and "BEL \<notin> set d"
    and "length (payload t) + length d \<le> cwdMaxBody"
  shows "foldl feed_byte (t, ps) d = (t\<lparr>payload := payload t @ d\<rparr>, ps)"
  using assms
proof (induction d arbitrary: t)
  case Nil
  then show ?case by simp
next
  case (Cons b d)
  then have "feed_byte (t, ps) b = (t\<lparr>payload := payload t @ [b]\<rparr>, ps)"
    by (auto simp: feed_byte_def appendPayload_def)
  then show ?case using Cons by simp
qed

lemma parseOSC99_plain:
  assumes "plain_dir d"
  shows "parseOSC99 ([0x39, 0x3b, 0x39, 0x3b] @ d) = Some (string_of_bytes d)"
proof -
  let ?s = "string_of_bytes d"
  have ne: "?s \<noteq> []" and v: "visible (hd ?s)" "visible (last ?s)"
    and q: "hd ?s \<noteq> CHR 0x22" "last ?s \<noteq> CHR 0x22"
    using assms by (auto simp: plain_dir_def string_of_bytes_def Let_def)
  have "string_of_bytes ([0x39, 0x3b, 0x39, 0x3b] @ d) = osc99_prefix @ ?s"
    by (simp add: string_of_bytes_def osc99_prefix_def char_of_byte_def char_of_def bit_0)
  then show ?thesis
    using ne TrimSpace_visible [OF ne v] trim_by_id [OF ne, of "\<lambda>c. c = CHR 0x22"] q
    by (simp add: parseOSC99_def Let_def)
qed

lemma feed_osc_open:
  assumes "mode t = cwdText"
  shows "foldl feed_byte (t, ps) osc99_open
    = (t\<lparr>mode := cwdOSC, payload := [0x39, 0x3b, 0x39, 0x3b], overflow := False\<rparr>, ps)"
  using assms
  by (simp add: osc99_open_def feed_byte_def feedEscaped_def appendPayload_def cwdMaxBody_def)

lemma feed_segment:
  assumes t: "mode t = cwdText" "payload t = []" "\<not> overflow t" and ok: "segment_ok g"
  shows "Feed t (render g) = (t, reported g)"
proof -
  have osc: "foldl feed_byte (t, []) (osc99_open @ d)
      = (t\<lparr>mode := cwdOSC, payload := [0x39, 0x3b, 0x39, 0x3b] @ d, overflow := False\<rparr>, [])"
    if "plain_dir d" for d
    using that t feed_osc_open [OF t(1)]
    by (simp add: feed_payload plain_dir_def cwdMaxBody_def)
  have reset: "t\<lparr>mode := cwdText, payload := [], overflow := False\<rparr> = t"
    using t by (cases t) simp
  show ?thesis
  proof (cases g)
    case (Text x)
    with ok t show ?thesis by (simp add: Feed_def feed_text)
  next
    case (OscBel d)
    then show ?thesis
      using ok osc [of d] parseOSC99_plain [of d] reset
      by (simp add: Feed_def feed_byte_def finishOSC_def tracker_reset_def flip: append_assoc)
  next
    case (OscST d)
    then show ?thesis
      using ok osc [of d] parseOSC99_plain [of d] reset
      by (simp add: Feed_def feed_byte_def finishOSC_def tracker_reset_def flip: append_assoc)
  qed
qed



lemma feed_overflow:
  assumes "mode t = cwdOSC" and "ESC \<notin> set d" and "BEL \<notin> set d"
    and "length (payload t) \<le> cwdMaxBody"
    and "overflow t \<or> cwdMaxBody < length (payload t) + length d"
  shows "\<exists>t'. foldl feed_byte (t, ps) d = (t', ps) \<and> mode t' = cwdOSC \<and> overflow t'"
  using assms
proof (induction d arbitrary: t)
  case Nil
  then show ?case by auto
next
  case (Cons b d)
  then have "feed_byte (t, ps) b = (appendPayload t b, ps)" by (simp add: feed_byte_def)
  then show ?case using Cons by (auto simp: appendPayload_def)
qed

text \<open>a payload longer than 4096 bytes is discarded as a whole: the sequence reports
  nothing, and the parser is back in its initial state after the terminator.\<close>

theorem tracker_oversized_ignored:
  assumes "ESC \<notin> set d" and "BEL \<notin> set d" and "cwdMaxBody < length d"
  shows "Feed NewCWDTracker ([ESC, RBRACKET] @ d @ [BEL]) = (NewCWDTracker, [])"
proof -
  let ?t = "NewCWDTracker\<lparr>mode := cwdOSC\<rparr>"
  have "foldl feed_byte (NewCWDTracker, []) [ESC, RBRACKET] = (?t, [])"
    by (simp add: feed_byte_def feedEscaped_def NewCWDTracker_def)
  moreover obtain t' where "foldl feed_byte (?t, []) d = (t', [])" "mode t' = cwdOSC" "overflow t'"
    using feed_overflow [of ?t d "[]"] assms by (auto simp: NewCWDTracker_def)
  ultimately have "Feed NewCWDTracker ([ESC, RBRACKET] @ d @ [BEL]) = (tracker_reset t', [])"
    by (simp add: Feed_def feed_byte_def finishOSC_def)
  then show ?thesis by (cases t') (simp add: tracker_reset_def NewCWDTracker_def)
qed

theorem tracker_oversized_ignored_witness:
  "Feed NewCWDTracker ([ESC, RBRACKET] @ replicate 4097 0x61 @ [BEL]) = (NewCWDTracker, [])"
  by (rule tracker_oversized_ignored) (simp_all add: cwdMaxBody_def)

end
