(* ===== verification/Pty_Session.thy ===== *)
theory Pty_Session
  imports Ring_Buffer Cwd_Tracker
begin

text \<open>
  \<^verbatim>\<open>windows/ptyhost/ptyhost.go\<close>: one shell under a pseudo-terminal, and the sinks that
  receive its output. Each operation that takes \<^verbatim>\<open>sinkMu\<close> is one atomic function, so a
  sequence of them is one interleaving of the goroutines that share the session.

  A sink is a callback whose errors \<^verbatim>\<open>Pump\<close> ignores; the model keeps the sink's identity
  (type \<open>'k\<close>) and returns the frames each call delivers to it. The pseudo-terminal is the
  operating system's: the session records what the code asks of it (the bytes written, the
  last size, how often it was closed), and what it answers is an argument. The closure that
  \<^verbatim>\<open>Manager.Register\<close> installs with \<^verbatim>\<open>SetRingAppend\<close> writes into the entry's ring buffer; the
  session holds that buffer in \<open>ringAppend\<close>.
\<close>

datatype ptyframe = PTYData bytes | PTYExit "32 word" "string option"

datatype pty_err = errClosed | PtyOsError

record 'k session =
  p_input :: "bytes list"
  p_size :: "u16 \<times> u16"
  p_closes :: nat
  closed :: bool
  sinks :: "(u64, 'k) gomap"
  nextSink :: u64
  ringAppend :: "ringBuffer option"
  tracker :: CWDTracker
  cwd :: string

definition Open :: "u16 \<Rightarrow> u16 \<Rightarrow> 'k session" where
  "Open cols rows =
     \<lparr>p_input = [], p_size = (if cols = 0 then 80 else cols, if rows = 0 then 24 else rows),
      p_closes = 0, closed = False, sinks = [], nextSink = 0, ringAppend = None,
      tracker = NewCWDTracker, cwd = []\<rparr>"

text \<open>\<^verbatim>\<open>Write\<close>: \<open>res\<close> is what the pseudo-terminal's own \<^verbatim>\<open>Write\<close> returns.\<close>

definition Session_Write ::
  "'k session \<Rightarrow> bytes \<Rightarrow> nat \<times> pty_err option \<Rightarrow> 'k session \<times> nat \<times> pty_err option" where
  "Session_Write s data res =
     (if closed s then (s, 0, Some errClosed)
      else (s\<lparr>p_input := p_input s @ [data]\<rparr>, res))"

definition Session_Resize ::
  "'k session \<Rightarrow> u16 \<Rightarrow> u16 \<Rightarrow> pty_err option \<Rightarrow> 'k session \<times> pty_err option" where
  "Session_Resize s cols rows res =
     (if closed s then (s, Some errClosed)
      else (s\<lparr>p_size := (cols, rows)\<rparr>, res))"

definition Session_Close :: "'k session \<Rightarrow> 'k session" where
  "Session_Close s =
     (if closed s then s
      else s\<lparr>closed := True, p_closes := Suc (p_closes s)\<rparr>)"

definition addSinkLocked :: "'k session \<Rightarrow> 'k \<Rightarrow> 'k session \<times> u64" where
  "addSinkLocked s k =
     (let n = nextSink s + 1
      in (s\<lparr>nextSink := n, sinks := gm_put n k (sinks s)\<rparr>, n))"

definition AddSink :: "'k session \<Rightarrow> 'k \<Rightarrow> 'k session \<times> u64" where
  "AddSink s k = addSinkLocked s k"

definition RemoveSink :: "'k session \<Rightarrow> u64 \<Rightarrow> 'k session" where
  "RemoveSink s t = s\<lparr>sinks := gm_del t (sinks s)\<rparr>"

definition AddSinkWithSnapshot ::
  "'k session \<Rightarrow> ('k session \<Rightarrow> bytes) \<Rightarrow> 'k \<Rightarrow> 'k session \<times> u64 \<times> bytes" where
  "AddSinkWithSnapshot s snapshotFn k =
     (let snap = snapshotFn s; (s', t) = addSinkLocked s k in (s', t, snap))"

definition SetRingAppend :: "'k session \<Rightarrow> ringBuffer option \<Rightarrow> 'k session" where
  "SetRingAppend s f = s\<lparr>ringAppend := f\<rparr>"

definition dispatchData :: "'k session \<Rightarrow> bytes \<Rightarrow> 'k session \<times> ((u64 \<times> 'k) \<times> ptyframe) list" where
  "dispatchData s p =
     (s\<lparr>ringAppend := map_option (\<lambda>r. rb_write r p) (ringAppend s)\<rparr>,
      if length (sinks s) = 0 then [] else map (\<lambda>k. (k, PTYData p)) (sinks s))"

definition dispatchExit :: "'k session \<Rightarrow> ptyframe \<Rightarrow> ((u64 \<times> 'k) \<times> ptyframe) list" where
  "dispatchExit s f = (if length (sinks s) = 0 then [] else map (\<lambda>k. (k, f)) (sinks s))"

text \<open>One round of the loop in \<^verbatim>\<open>Pump\<close>: \<^verbatim>\<open>Read\<close> returned \<open>p\<close> (empty when \<open>n = 0\<close>). The
  tracker is fed before the chunk is dispatched.\<close>

definition pump_chunk :: "'k session \<Rightarrow> bytes \<Rightarrow> 'k session \<times> ((u64 \<times> 'k) \<times> ptyframe) list" where
  "pump_chunk s p =
     (if length p > 0 then
        let (t, paths) = Feed (tracker s) p;
            s1 = s\<lparr>tracker := t\<rparr>;
            s2 = (if length paths > 0 then s1\<lparr>cwd := last paths\<rparr> else s1)
        in dispatchData s2 p
      else (s, []))"

text \<open>The end of \<^verbatim>\<open>Pump\<close>, after \<^verbatim>\<open>Read\<close> failed: the child's result arrives from the watcher,
  which has closed the session.\<close>

definition pump_exit ::
  "'k session \<Rightarrow> int \<Rightarrow> (string \<times> bool) option \<Rightarrow> 'k session \<times> ((u64 \<times> 'k) \<times> ptyframe) list" where
  "pump_exit s code werr =
     (let s' = Session_Close s;
          e = (case werr of Some (msg, is_eof) \<Rightarrow> if is_eof then None else Some msg | None \<Rightarrow> None)
      in (s', dispatchExit s' (PTYExit (word_of_int code) e)))"

text \<open>The whole of \<^verbatim>\<open>Pump\<close> when nothing else touches the session: the chunks \<^verbatim>\<open>Read\<close>
  returns, then the exit.\<close>

fun pump_chunks :: "'k session \<Rightarrow> bytes list \<Rightarrow> 'k session \<times> ((u64 \<times> 'k) \<times> ptyframe) list" where
  "pump_chunks s [] = (s, [])"
| "pump_chunks s (p # ps) =
     (case pump_chunk s p of (s1, d1) \<Rightarrow>
       (case pump_chunks s1 ps of (s2, d2) \<Rightarrow> (s2, d1 @ d2)))"

definition Pump ::
  "'k session \<Rightarrow> bytes list \<Rightarrow> int \<Rightarrow> (string \<times> bool) option
     \<Rightarrow> 'k session \<times> ((u64 \<times> 'k) \<times> ptyframe) list" where
  "Pump s ps code werr =
     (case pump_chunks s ps of (s1, d1) \<Rightarrow>
       (case pump_exit s1 code werr of (s2, d2) \<Rightarrow> (s2, d1 @ d2)))"


section \<open>Interleaved operations\<close>

text \<open>What the goroutines that share a session can do to its sinks. The snapshot function
  \<^verbatim>\<open>Manager.Attach\<close> passes is the ring buffer's.\<close>

datatype 'k sess_op =
    OpChunk bytes
  | OpAdd 'k
  | OpAttach 'k
  | OpRemove u64

definition ring_snapshot :: "'k session \<Rightarrow> bytes" where
  "ring_snapshot s = (case ringAppend s of None \<Rightarrow> [] | Some r \<Rightarrow> rb_snapshot r)"

fun sess_step :: "'k session \<Rightarrow> 'k sess_op \<Rightarrow> 'k session \<times> ((u64 \<times> 'k) \<times> ptyframe) list" where
  "sess_step s (OpChunk p) = pump_chunk s p"
| "sess_step s (OpAdd k) = (fst (AddSink s k), [])"
| "sess_step s (OpAttach k) = (fst (AddSinkWithSnapshot s ring_snapshot k), [])"
| "sess_step s (OpRemove t) = (RemoveSink s t, [])"

fun sess_run :: "'k session \<Rightarrow> 'k sess_op list \<Rightarrow> 'k session \<times> ((u64 \<times> 'k) \<times> ptyframe) list" where
  "sess_run s [] = (s, [])"
| "sess_run s (x # xs) =
     (case sess_step s x of (s1, d1) \<Rightarrow> (case sess_run s1 xs of (s2, d2) \<Rightarrow> (s2, d1 @ d2)))"

fun op_output :: "'k sess_op \<Rightarrow> bytes" where
  "op_output (OpChunk p) = p"
| "op_output _ = []"

fun op_adds :: "'k sess_op \<Rightarrow> nat" where
  "op_adds (OpAdd k) = 1"
| "op_adds (OpAttach k) = 1"
| "op_adds _ = 0"

text \<open>The bytes a list of deliveries carries to the sink with a given token.\<close>

fun frame_data :: "ptyframe \<Rightarrow> bytes" where
  "frame_data (PTYData p) = p"
| "frame_data (PTYExit c e) = []"

definition delivered_to :: "u64 \<Rightarrow> ((u64 \<times> 'k) \<times> ptyframe) list \<Rightarrow> bytes" where
  "delivered_to t ds = concat (map (frame_data \<circ> snd) (filter (\<lambda>d. fst (fst d) = t) ds))"

lemma delivered_to_append [simp]: "delivered_to t (xs @ ys) = delivered_to t xs @ delivered_to t ys"
  by (simp add: delivered_to_def)

lemma delivered_to_Nil [simp]: "delivered_to t [] = []"
  by (simp add: delivered_to_def)


subsection \<open>Tokens\<close>

text \<open>\<open>n\<close> further sinks can be added before the token counter would pass \<open>2\<^sup>64\<close>.\<close>

definition sess_ok :: "nat \<Rightarrow> 'k session \<Rightarrow> bool" where
  "sess_ok n s \<longleftrightarrow> gomap_ok (sinks s) \<and> unat (nextSink s) + n < 2 ^ 64
     \<and> (\<forall>t \<in> fst ` set (sinks s). t \<noteq> 0 \<and> t \<le> nextSink s)
     \<and> (\<forall>r. ringAppend s = Some r \<longrightarrow> rb_ok r)"

lemma sess_ok_mono: "sess_ok n s \<Longrightarrow> m \<le> n \<Longrightarrow> sess_ok m s"
  by (auto simp: sess_ok_def)

lemma next_token:
  assumes "sess_ok (Suc n) s"
  shows "unat (nextSink s + 1) = Suc (unat (nextSink s))" "nextSink s + 1 \<noteq> 0"
    "nextSink s < nextSink s + 1"
proof -
  have lt: "unat (nextSink s) + 1 < 2 ^ 64" using assms by (simp add: sess_ok_def)
  then show u: "unat (nextSink s + 1) = Suc (unat (nextSink s))"
    by (simp add: unat_word_ariths)
  show "nextSink s + 1 \<noteq> 0" using u by auto
  show "nextSink s < nextSink s + 1" using u by (simp add: word_less_nat_alt)
qed

lemma addSinkLocked_ok:
  assumes ok: "sess_ok (Suc n) s"
  shows "sess_ok n (fst (addSinkLocked s k))"
    "gm_get (sinks s) (snd (addSinkLocked s k)) = None"
    "gm_get (sinks (fst (addSinkLocked s k))) (snd (addSinkLocked s k)) = Some k"
    "snd (addSinkLocked s k) \<noteq> 0"
proof -
  note nt = next_token [OF ok]
  have "t \<le> nextSink s + 1" if "t \<in> fst ` set (sinks s)" for t
    using ok that nt(3) by (auto simp: sess_ok_def)
  then show "sess_ok n (fst (addSinkLocked s k))"
    using ok nt by (auto simp: sess_ok_def addSinkLocked_def Let_def dom_update)
  show "gm_get (sinks s) (snd (addSinkLocked s k)) = None"
    using ok nt(3) by (auto simp: sess_ok_def addSinkLocked_def Let_def map_of_eq_None_iff)
  show "gm_get (sinks (fst (addSinkLocked s k))) (snd (addSinkLocked s k)) = Some k"
    by (simp add: addSinkLocked_def Let_def)
  show "snd (addSinkLocked s k) \<noteq> 0"
    using nt(2) by (simp add: addSinkLocked_def Let_def)
qed

lemma dispatchData_ok: "sess_ok n s \<Longrightarrow> sess_ok n (fst (dispatchData s p))"
  by (auto simp: sess_ok_def dispatchData_def rb_write_correct)

lemma pump_chunk_ok: "sess_ok n s \<Longrightarrow> sess_ok n (fst (pump_chunk s p))"
  by (auto simp: pump_chunk_def Let_def sess_ok_def dispatchData_def rb_write_correct
      split: prod.split)

lemma pump_chunk_sinks [simp]:
  "sinks (fst (pump_chunk s p)) = sinks s" "nextSink (fst (pump_chunk s p)) = nextSink s"
  by (simp_all add: pump_chunk_def dispatchData_def Let_def split: prod.split)

lemma RemoveSink_ok: "sess_ok n s \<Longrightarrow> sess_ok n (RemoveSink s t)"
proof -
  assume ok: "sess_ok n s"
  then have "\<forall>t' \<in> fst ` set (gm_del t (sinks s)). t' \<noteq> 0 \<and> t' \<le> nextSink s"
    by (auto simp: sess_ok_def gm_keys_del)
  with ok show ?thesis by (simp add: sess_ok_def RemoveSink_def)
qed

lemma sess_step_ok: "sess_ok (op_adds x + n) s \<Longrightarrow> sess_ok n (fst (sess_step s x))"
  by (cases x) (auto simp: pump_chunk_ok RemoveSink_ok AddSink_def AddSinkWithSnapshot_def
      addSinkLocked_ok Let_def split_beta)

lemma sess_run_ok:
  "sess_ok (sum_list (map op_adds xs) + n) s \<Longrightarrow> sess_ok n (fst (sess_run s xs))"
proof (induction xs arbitrary: s)
  case Nil
  then show ?case by simp
next
  case (Cons x xs)
  then have "sess_ok (sum_list (map op_adds xs) + n) (fst (sess_step s x))"
    by (intro sess_step_ok) (simp add: add.assoc)
  then show ?case using Cons.IH by (simp add: split_beta)
qed

subsection \<open>Deliveries to an installed sink\<close>

lemma delivered_dispatch:
  assumes "gomap_ok m" and "gm_get m t = Some k"
  shows "delivered_to t (map (\<lambda>k. (k, PTYData p)) m) = p"
  using assms
proof (induction m)
  case (Cons e m)
  obtain t' k' where e: "e = (t', k')" by fastforce
  show ?case
  proof (cases "t' = t")
    case True
    then have "t \<notin> fst ` set m" using Cons.prems e by auto
    then have "filter (\<lambda>d. fst (fst d) = t) (map (\<lambda>k. (k, PTYData p)) m) = []"
      by (auto simp: filter_empty_conv)
    with True e show ?thesis by (simp add: delivered_to_def)
  next
    case False
    with Cons e show ?thesis by (simp add: delivered_to_def)
  qed
qed simp

lemma delivered_chunk:
  assumes "gomap_ok (sinks s)" and "gm_get (sinks s) t = Some k"
  shows "delivered_to t (snd (pump_chunk s p)) = p"
proof (cases "p = []")
  case False
  have "length (sinks s) \<noteq> 0" using assms(2) by auto
  with False show ?thesis
    using delivered_dispatch [OF assms, of p]
    by (auto simp: pump_chunk_def dispatchData_def Let_def split: prod.split)
qed (simp add: pump_chunk_def)

lemma sess_step_installed:
  assumes ok: "sess_ok (op_adds x + n) s" and t: "gm_get (sinks s) t = Some k" and x: "x \<noteq> OpRemove t"
  shows "gm_get (sinks (fst (sess_step s x))) t = Some k
    \<and> delivered_to t (snd (sess_step s x)) = op_output x"
proof (cases x)
  case (OpChunk p)
  with ok t show ?thesis by (simp add: delivered_chunk sess_ok_def)
next
  case (OpAdd k')
  then have "sess_ok (Suc n) s" using ok by simp
  then have "snd (addSinkLocked s k') \<noteq> t" using addSinkLocked_ok(2) [of n s k'] t by auto
  with OpAdd t show ?thesis by (auto simp: AddSink_def addSinkLocked_def Let_def)
next
  case (OpAttach k')
  then have "sess_ok (Suc n) s" using ok by simp
  then have "snd (addSinkLocked s k') \<noteq> t" using addSinkLocked_ok(2) [of n s k'] t by auto
  with OpAttach t show ?thesis by (auto simp: AddSinkWithSnapshot_def addSinkLocked_def Let_def)
next
  case (OpRemove t')
  with x t show ?thesis by (simp add: RemoveSink_def)
qed

lemma sess_run_installed:
  assumes "sess_ok (sum_list (map op_adds xs) + n) s" and "gm_get (sinks s) t = Some k"
    and "OpRemove t \<notin> set xs"
  shows "delivered_to t (snd (sess_run s xs)) = concat (map op_output xs)"
  using assms
proof (induction xs arbitrary: s)
  case Nil
  then show ?case by simp
next
  case (Cons x xs)
  let ?m = "sum_list (map op_adds xs) + n"
  have ok: "sess_ok (op_adds x + ?m) s" using Cons.prems(1) by (simp add: add.assoc)
  note step = sess_step_installed [OF ok Cons.prems(2)]
  have "x \<noteq> OpRemove t" "OpRemove t \<notin> set xs" using Cons.prems(3) by auto
  then show ?case
    using Cons.IH [OF sess_step_ok [OF ok]] step by (auto split: prod.split)
qed

lemma sess_step_tokens:
  "sess_ok (op_adds x + n) s \<Longrightarrow> nextSink s \<le> nextSink (fst (sess_step s x))
    \<and> (\<forall>d \<in> set (snd (sess_step s x)). fst (fst d) \<le> nextSink s)"
proof (cases x)
  case (OpChunk p)
  assume "sess_ok (op_adds x + n) s"
  then have "\<forall>t \<in> fst ` set (sinks s). t \<le> nextSink s" by (simp add: sess_ok_def)
  with OpChunk show ?thesis
    by (auto simp: pump_chunk_def dispatchData_def Let_def split: prod.splits if_splits)
next
  case (OpAdd k)
  assume "sess_ok (op_adds x + n) s"
  with OpAdd next_token(3) [of n s] show ?thesis
    by (simp add: AddSink_def addSinkLocked_def Let_def)
next
  case (OpAttach k)
  assume "sess_ok (op_adds x + n) s"
  with OpAttach next_token(3) [of n s] show ?thesis
    by (simp add: AddSinkWithSnapshot_def addSinkLocked_def Let_def)
qed (simp add: RemoveSink_def)

lemma sess_run_tokens:
  "sess_ok (sum_list (map op_adds xs) + n) s \<Longrightarrow> nextSink s \<le> nextSink (fst (sess_run s xs))
    \<and> (\<forall>d \<in> set (snd (sess_run s xs)). fst (fst d) \<le> nextSink (fst (sess_run s xs)))"
proof (induction xs arbitrary: s)
  case Nil
  then show ?case by simp
next
  case (Cons x xs)
  let ?m = "sum_list (map op_adds xs) + n"
  have ok: "sess_ok (op_adds x + ?m) s" using Cons.prems(1) by (simp add: add.assoc)
  obtain s1 d1 where s1: "sess_step s x = (s1, d1)" by fastforce
  obtain s2 d2 where s2: "sess_run s1 xs = (s2, d2)" by fastforce
  from sess_step_tokens [OF ok] s1 have "nextSink s \<le> nextSink s1" "\<forall>d \<in> set d1. fst (fst d) \<le> nextSink s"
    by auto
  moreover from Cons.IH [of s1] sess_step_ok [OF ok] s1 s2
  have "nextSink s1 \<le> nextSink s2" "\<forall>d \<in> set d2. fst (fst d) \<le> nextSink s2" by auto
  ultimately show ?case using s1 s2 by (auto intro: order_trans)
qed

subsection \<open>The ring buffer under interleaving\<close>

lemma sess_step_ring:
  assumes "ringAppend s = Some r" and "rb_ok r"
  shows "\<exists>r'. ringAppend (fst (sess_step s x)) = Some r' \<and> rb_ok r' \<and> cap r' = cap r
    \<and> (rb_snapshot r' = keep_last (cap r) (rb_snapshot r @ op_output x) \<or> r' = r \<and> op_output x = [])"
  using assms
  by (cases x) (auto simp: pump_chunk_def dispatchData_def Let_def rb_write_correct AddSink_def
      AddSinkWithSnapshot_def addSinkLocked_def RemoveSink_def split: prod.split)

lemma rb_snapshot_length: "rb_ok r \<Longrightarrow> length (rb_snapshot r) \<le> cap r"
  by (cases "full r") (auto simp: rb_snapshot_full rb_snapshot_not_full rb_ok_def)

lemma sess_run_ring:
  assumes "ringAppend s = Some r" and "rb_ok r"
  shows "\<exists>r'. ringAppend (fst (sess_run s xs)) = Some r' \<and> rb_ok r' \<and> cap r' = cap r
    \<and> rb_snapshot r' = keep_last (cap r) (rb_snapshot r @ concat (map op_output xs))"
  using assms
proof (induction xs arbitrary: s r)
  case Nil
  then show ?case by (simp add: rb_snapshot_length)
next
  case (Cons x xs)
  obtain s1 d1 where s1: "sess_step s x = (s1, d1)" by fastforce
  obtain r1 where r1: "ringAppend s1 = Some r1" "rb_ok r1" "cap r1 = cap r"
    and snap: "rb_snapshot r1 = keep_last (cap r) (rb_snapshot r @ op_output x)
      \<or> r1 = r \<and> op_output x = []"
    using sess_step_ring [OF Cons.prems, of x] s1 by auto
  have "rb_snapshot r1 = keep_last (cap r) (rb_snapshot r @ op_output x)"
    using snap rb_snapshot_length [OF Cons.prems(2)] by auto
  with Cons.IH [OF r1(1,2)] s1 r1(3) show ?case
    by (auto split: prod.split)
qed

text \<open>C1: a client that attaches while the shell is printing neither misses nor repeats a
  byte. For every interleaving of output chunks with other clients attaching and detaching:
  the replay is the scrollback at the moment of the attach, the live stream is everything
  printed after it, and nothing reaches the new sink's token before. The bound on the number
  of attachments keeps the 64-bit token counter from wrapping.\<close>

theorem attach_no_gap_no_duplicate:
  assumes ring: "ringAppend s = Some (newRingBuffer c)"
    and ok: "sess_ok (sum_list (map op_adds (xs @ ys)) + 1) s"
    and run: "sess_run s xs = (s1, d1)"
    and att: "AddSinkWithSnapshot s1 ring_snapshot k = (s2, t, replay)"
    and "OpRemove t \<notin> set ys"
  shows "replay = keep_last c (concat (map op_output xs))
    \<and> delivered_to t (snd (sess_run s2 ys)) = concat (map op_output ys)
    \<and> delivered_to t d1 = []"
proof -
  let ?n = "sum_list (map op_adds ys)"
  have ok0: "sess_ok (sum_list (map op_adds xs) + Suc ?n) s" using ok by (simp add: ac_simps)
  from sess_run_ok [OF ok0] run have ok1: "sess_ok (Suc ?n) s1" by simp
  from att have eq: "addSinkLocked s1 k = (s2, t)" "replay = ring_snapshot s1"
    by (auto simp: AddSinkWithSnapshot_def Let_def split: prod.splits)
  from sess_run_ring [OF ring, of xs] run
  have replay: "replay = keep_last c (concat (map op_output xs))"
    by (auto simp: eq ring_snapshot_def newRingBuffer_def rb_ok_def rb_snapshot_def)
  note add = addSinkLocked_ok [OF ok1, of k]
  have ok2: "sess_ok (?n + 0) s2" using add(1) eq(1) by simp
  have inst: "gm_get (sinks s2) t = Some k" using add(3) eq(1) by simp
  have "t = nextSink s1 + 1" using eq(1) by (auto simp: addSinkLocked_def Let_def)
  moreover have "\<forall>d \<in> set d1. fst (fst d) \<le> nextSink s1"
    using sess_run_tokens [OF ok0] run by simp
  ultimately have "\<forall>d \<in> set d1. fst (fst d) \<noteq> t"
    using next_token(3) [OF ok1] by auto
  then have "filter (\<lambda>d. fst (fst d) = t) d1 = []" by (auto simp: filter_empty_conv)
  then show ?thesis
    using replay sess_run_installed [OF ok2 inst] assms(5) by (simp add: delivered_to_def)
qed

definition demo_session :: "nat session" where
  "demo_session = SetRingAppend (Open 80 24) (Some (newRingBuffer 3))"

definition demo_before :: "nat sess_op list" where
  "demo_before = [OpChunk [1, 2], OpAdd 7, OpChunk [3, 4]]"

definition demo_after :: "nat sess_op list" where
  "demo_after = [OpChunk [5], OpRemove 1, OpChunk [6]]"

theorem attach_no_gap_no_duplicate_witness:
  "[2, 3, 4] = keep_last 3 (concat (map op_output demo_before))
   \<and> delivered_to 2 (snd (sess_run (fst (AddSinkWithSnapshot (fst (sess_run demo_session demo_before))
        ring_snapshot 8)) demo_after)) = concat (map op_output demo_after)
   \<and> delivered_to 2 (snd (sess_run demo_session demo_before)) = []"
proof (rule attach_no_gap_no_duplicate)
  show "ringAppend demo_session = Some (newRingBuffer 3)"
    by (simp add: demo_session_def SetRingAppend_def)
  show "sess_ok (sum_list (map op_adds (demo_before @ demo_after)) + 1) demo_session"
    by (simp add: demo_session_def demo_before_def demo_after_def SetRingAppend_def Open_def sess_ok_def)
  show "AddSinkWithSnapshot (fst (sess_run demo_session demo_before)) ring_snapshot 8
    = (fst (AddSinkWithSnapshot (fst (sess_run demo_session demo_before)) ring_snapshot 8),
       2, [2, 3, 4])"
    by (simp add: demo_session_def demo_before_def SetRingAppend_def Open_def AddSinkWithSnapshot_def
        addSinkLocked_def AddSink_def pump_chunk_def dispatchData_def Feed_def feed_byte_def
        NewCWDTracker_def ring_snapshot_def newRingBuffer_def rb_write_def rb_snapshot_def
        rb_overwrite_def copy_slice_def Let_def)
qed (simp_all add: demo_after_def)

lemma pump_chunk_cwd:
  "tracker (fst (pump_chunk s p)) = fst (Feed (tracker s) p)
   \<and> cwd (fst (pump_chunk s p)) = (let qs = snd (Feed (tracker s) p) in if qs = [] then cwd s else last qs)"
  by (cases p) (auto simp: pump_chunk_def dispatchData_def Let_def split: prod.split)

text \<open>the directory \<^verbatim>\<open>CWD\<close> returns is the last one the whole output announced, however it
  arrived, and the previous value if it announced none.\<close>

theorem session_cwd_last_prompt:
  "cwd (fst (pump_chunks s ps))
    = (let qs = snd (Feed (tracker s) (concat ps)) in if qs = [] then cwd s else last qs)"
proof (induction ps arbitrary: s)
  case Nil
  then show ?case by simp
next
  case (Cons p ps)
  have "cwd (fst (pump_chunks s (p # ps))) = cwd (fst (pump_chunks (fst (pump_chunk s p)) ps))"
    by (simp add: split_beta)
  then show ?case
    using Cons.IH [of "fst (pump_chunk s p)"] pump_chunk_cwd [of s p]
    by (simp add: Feed_append Let_def split_beta)
qed

end
