(* ===== verification/Pty_Manager.thy ===== *)
theory Pty_Manager
  imports Pty_Session "HOL-Library.Multiset"
begin

text \<open>
  \<^verbatim>\<open>windows/ptyhost/manager.go\<close>: the process-wide table of persisted shells. An entry is found
  by its handle and belongs to an owner; clients attach and detach, an idle sweep closes the
  shells nobody is attached to, and the shell's own exit removes its entry.

  The sessions are shared objects (the manager, every stream and every pump goroutine hold
  pointers to them), so the model keeps them in a heap indexed by \<^typ>\<open>nat\<close>. \<^verbatim>\<open>Register\<close> is
  called once for each opened session, so an entry's session identifies the entry, and the
  ring buffer an entry owns is the one its session's append closure writes to. Random
  handles, the clock and the sinks are arguments.
\<close>

definition IdleTimeout :: duration where
  "IdleTimeout = 24 * hour"

definition RingBufferSize :: nat where
  "RingBufferSize = 1 * 1024 * 1024"

record entry =
  handle :: string
  owner :: string
  sess :: nat
  attachCount :: nat
  lastSeen :: time
  command :: string

record 'k Manager =
  entries :: "(string, entry) gomap"
  timeout :: duration
  ringSize :: nat
  mclosed :: bool
  heap :: "nat \<Rightarrow> 'k session"

record AttachToken =
  tHandle :: string
  tSink :: u64
  tOwner :: string

record AttachResult =
  rSession :: nat
  rReplay :: bytes
  rToken :: AttachToken

datatype mgr_err = ManagerClosed | UnknownHandle

definition NewManager :: "(nat \<Rightarrow> 'k session) \<Rightarrow> 'k Manager" where
  "NewManager hp =
     \<lparr>entries = [], timeout = IdleTimeout, ringSize = RingBufferSize, mclosed = False, heap = hp\<rparr>"

definition SetIdleTimeout :: "'k Manager \<Rightarrow> duration \<Rightarrow> 'k Manager" where
  "SetIdleTimeout m d = m\<lparr>timeout := d\<rparr>"

text \<open>\<^verbatim>\<open>newHandle\<close>: ten random bytes, or the clock's nanoseconds when the random source fails.\<close>

definition newHandle :: "bytes option \<Rightarrow> int \<Rightarrow> string" where
  "newHandle rnd unix_nano =
     base32_encode
       (case rnd of Some b \<Rightarrow> b
        | None \<Rightarrow> map (\<lambda>i. word_of_int (unix_nano div 2 ^ (i * 8))) [0..<10])"

text \<open>\<open>upd_sess\<close> and \<open>upd_entry\<close> write through a session and an entry pointer. An entry that
  is no longer in the table is an orphan, whose counters nobody reads any more.\<close>

definition upd_sess :: "'k Manager \<Rightarrow> nat \<Rightarrow> 'k session \<Rightarrow> 'k Manager" where
  "upd_sess m i s = m\<lparr>heap := (heap m)(i := s)\<rparr>"

definition upd_entry :: "'k Manager \<Rightarrow> entry \<Rightarrow> (entry \<Rightarrow> entry) \<Rightarrow> 'k Manager" where
  "upd_entry m e f =
     (case gm_get (entries m) (handle e) of
        None \<Rightarrow> m
      | Some cur \<Rightarrow>
          if sess cur = sess e then m\<lparr>entries := gm_put (handle e) (f cur) (entries m)\<rparr> else m)"

definition Register ::
  "'k Manager \<Rightarrow> string \<Rightarrow> string \<Rightarrow> nat \<Rightarrow> string \<Rightarrow> 'k option \<Rightarrow> time
     \<Rightarrow> 'k Manager \<times> string \<times> AttachResult option" where
  "Register m h own i cmd sink now =
     (if mclosed m then (m, [], None)
      else
        let e = \<lparr>handle = h, owner = own, sess = i, attachCount = 0, lastSeen = now, command = cmd\<rparr>;
            m1 = m\<lparr>entries := gm_put h e (entries m)\<rparr>;
            m2 = upd_sess m1 i (SetRingAppend (heap m1 i) (Some (newRingBuffer (ringSize m1))))
        in (case sink of
              None \<Rightarrow> (m2, h, Some \<lparr>rSession = i, rReplay = [],
                                 rToken = \<lparr>tHandle = h, tSink = 0, tOwner = own\<rparr>\<rparr>)
            | Some k \<Rightarrow>
                let (s, tok) = AddSink (heap m2 i) k;
                    m3 = upd_sess m2 i s;
                    m4 = upd_entry m3 e (\<lambda>c. c\<lparr>attachCount := attachCount c + 1, lastSeen := now\<rparr>)
                in (m4, h, Some \<lparr>rSession = i, rReplay = [],
                                 rToken = \<lparr>tHandle = h, tSink = tok, tOwner = own\<rparr>\<rparr>)))"

text \<open>The goroutine \<^verbatim>\<open>Register\<close> starts runs the session's \<^verbatim>\<open>Pump\<close> and, when it returns,
  removes the entry if it is still the one under its handle.\<close>

definition pump_returned :: "'k Manager \<Rightarrow> string \<Rightarrow> nat \<Rightarrow> 'k Manager" where
  "pump_returned m h i =
     (case gm_get (entries m) h of
        Some cur \<Rightarrow> if sess cur = i then m\<lparr>entries := gm_del h (entries m)\<rparr> else m
      | None \<Rightarrow> m)"

text \<open>\<^verbatim>\<open>Attach\<close> takes the manager's lock twice: to find the entry, and, after the session has
  installed the sink, to count the attachment.\<close>

definition Attach_lookup :: "'k Manager \<Rightarrow> string \<Rightarrow> string \<Rightarrow> mgr_err + entry" where
  "Attach_lookup m own h =
     (if mclosed m then Inl ManagerClosed
      else (case gm_get (entries m) h of
              None \<Rightarrow> Inl UnknownHandle
            | Some e \<Rightarrow> if owner e \<noteq> own then Inl UnknownHandle else Inr e))"

definition Attach_bind ::
  "'k Manager \<Rightarrow> string \<Rightarrow> string \<Rightarrow> entry \<Rightarrow> 'k option \<Rightarrow> time \<Rightarrow> 'k Manager \<times> AttachResult" where
  "Attach_bind m own h e sink now =
     (let (s, tok, snap) =
            (case sink of
               Some k \<Rightarrow> AddSinkWithSnapshot (heap m (sess e)) ring_snapshot k
             | None \<Rightarrow> (heap m (sess e), 0, ring_snapshot (heap m (sess e))));
          m1 = upd_sess m (sess e) s;
          m2 = upd_entry m1 e (\<lambda>c. c\<lparr>attachCount := attachCount c + 1, lastSeen := now\<rparr>)
      in (m2, \<lparr>rSession = sess e, rReplay = snap,
               rToken = \<lparr>tHandle = h, tSink = tok, tOwner = own\<rparr>\<rparr>))"

definition Attach ::
  "'k Manager \<Rightarrow> string \<Rightarrow> string \<Rightarrow> 'k option \<Rightarrow> time \<Rightarrow> mgr_err + ('k Manager \<times> AttachResult)" where
  "Attach m own h sink now =
     (case Attach_lookup m own h of
        Inl err \<Rightarrow> Inl err
      | Inr e \<Rightarrow> Inr (Attach_bind m own h e sink now))"

definition Detach :: "'k Manager \<Rightarrow> AttachToken \<Rightarrow> time \<Rightarrow> 'k Manager" where
  "Detach m t now =
     (case gm_get (entries m) (tHandle t) of
        None \<Rightarrow> m
      | Some e \<Rightarrow>
          if owner e \<noteq> tOwner t then m
          else
            let m1 = (if tSink t \<noteq> 0 then upd_sess m (sess e) (RemoveSink (heap m (sess e)) (tSink t))
                      else m)
            in upd_entry m1 e (\<lambda>c.
                 let n = (if attachCount c > 0 then attachCount c - 1 else attachCount c)
                 in c\<lparr>attachCount := n, lastSeen := (if n = 0 then now else lastSeen c)\<rparr>))"

definition close_sess :: "'k Manager \<Rightarrow> nat \<Rightarrow> 'k Manager" where
  "close_sess m i = upd_sess m i (Session_Close (heap m i))"

definition Drop :: "'k Manager \<Rightarrow> string \<Rightarrow> string \<Rightarrow> 'k Manager" where
  "Drop m own h =
     (case gm_get (entries m) h of
        None \<Rightarrow> m
      | Some e \<Rightarrow>
          if owner e = own then close_sess (m\<lparr>entries := gm_del h (entries m)\<rparr>) (sess e) else m)"

definition is_expired :: "'k Manager \<Rightarrow> time \<Rightarrow> entry \<Rightarrow> bool" where
  "is_expired m now e \<longleftrightarrow> attachCount e = 0 \<and> time_sub now (lastSeen e) > timeout m"

definition Sweep :: "'k Manager \<Rightarrow> time \<Rightarrow> 'k Manager \<times> nat" where
  "Sweep m now =
     (let expired = filter (is_expired m now) (map snd (entries m));
          m1 = m\<lparr>entries := gm_retain (\<lambda>h e. \<not> is_expired m now e) (entries m)\<rparr>
      in (foldl close_sess m1 (map sess expired), length expired))"

definition Manager_Close :: "'k Manager \<Rightarrow> 'k Manager" where
  "Manager_Close m =
     (if mclosed m then m
      else foldl close_sess (m\<lparr>mclosed := True, entries := []\<rparr>) (map (sess \<circ> snd) (entries m)))"

definition Append :: "'k Manager \<Rightarrow> string \<Rightarrow> string \<Rightarrow> bytes \<Rightarrow> 'k Manager" where
  "Append m own h d =
     (if length d = 0 then m
      else (case gm_get (entries m) h of
              None \<Rightarrow> m
            | Some e \<Rightarrow>
                if owner e \<noteq> own then m
                else upd_sess m (sess e)
                  ((heap m (sess e))\<lparr>ringAppend :=
                     map_option (\<lambda>r. rb_write r d) (ringAppend (heap m (sess e)))\<rparr>)))"

record Listing =
  lHandle :: string
  lCommand :: string
  lAttachedCount :: u32
  lCWD :: string
  lLastSeenMs :: int

text \<open>The two nested loops that order the listing: position \<open>i\<close> is exchanged with every
  later position that holds a more recent time.\<close>

function sort_inner :: "nat \<Rightarrow> nat \<Rightarrow> Listing list \<Rightarrow> Listing list" where
  "sort_inner i j out =
     (if j < length out then
        sort_inner i (Suc j)
          (if lLastSeenMs (out ! j) > lLastSeenMs (out ! i)
           then out[i := out ! j, j := out ! i] else out)
      else out)"
  by pat_completeness auto
termination
  by (relation "measure (\<lambda>(i, j, out). length out - j)") auto

declare sort_inner.simps [simp del]

lemma length_sort_inner [simp]: "length (sort_inner i j out) = length out"
  by (induction i j out rule: sort_inner.induct) (simp add: sort_inner.simps)

function sort_outer :: "nat \<Rightarrow> Listing list \<Rightarrow> Listing list" where
  "sort_outer i out =
     (if i < length out then sort_outer (Suc i) (sort_inner i (Suc i) out) else out)"
  by pat_completeness auto
termination
  by (relation "measure (\<lambda>(i, out). length out - i)") auto

declare sort_outer.simps [simp del]

definition listing_of :: "'k Manager \<Rightarrow> entry \<Rightarrow> Listing" where
  "listing_of m e =
     \<lparr>lHandle = handle e, lCommand = command e, lAttachedCount = of_nat (attachCount e),
      lCWD = cwd (heap m (sess e)), lLastSeenMs = time_unix_milli (lastSeen e)\<rparr>"

definition Manager_List :: "'k Manager \<Rightarrow> string \<Rightarrow> Listing list" where
  "Manager_List m own =
     sort_outer 0 (map (listing_of m) (filter (\<lambda>e. owner e = own) (map snd (entries m))))"

definition CWDOf :: "'k Manager \<Rightarrow> string \<Rightarrow> string \<Rightarrow> string" where
  "CWDOf m own h =
     (case gm_get (entries m) h of
        None \<Rightarrow> []
      | Some e \<Rightarrow> if owner e \<noteq> own then [] else cwd (heap m (sess e)))"

definition Get :: "'k Manager \<Rightarrow> string \<Rightarrow> string \<Rightarrow> nat option" where
  "Get m own h =
     (case gm_get (entries m) h of
        Some e \<Rightarrow> if owner e = own then Some (sess e) else None
      | None \<Rightarrow> None)"


section \<open>The listing order\<close>

lemma mset_sort_inner: "i < length out \<Longrightarrow> mset (sort_inner i j out) = mset out"
proof (induction i j out rule: sort_inner.induct)
  case (1 i j out)
  show ?case
  proof (cases "j < length out")
    case True
    then show ?thesis
      using "1.IH" [OF True] "1.prems" mset_swap [of j out i]
      by (subst sort_inner.simps) (auto split: if_splits)
  qed (simp add: sort_inner.simps)
qed

lemma mset_sort_outer: "mset (sort_outer i out) = mset out"
proof (induction i out rule: sort_outer.induct)
  case (1 i out)
  then show ?case
    by (cases "i < length out") (simp_all add: sort_outer.simps [of i out] mset_sort_inner)
qed

lemma sort_inner_spec:
  assumes "i < j" and "i < length out"
    and "\<forall>k. i < k \<and> k < j \<and> k < length out \<longrightarrow> lLastSeenMs (out ! k) \<le> lLastSeenMs (out ! i)"
  shows "(\<forall>k. i < k \<and> k < length out \<longrightarrow>
            lLastSeenMs (sort_inner i j out ! k) \<le> lLastSeenMs (sort_inner i j out ! i))
    \<and> take i (sort_inner i j out) = take i out"
  using assms
proof (induction i j out rule: sort_inner.induct)
  case (1 i j out)
  show ?case
  proof (cases "j < length out")
    case False
    with "1.prems" show ?thesis by (simp add: sort_inner.simps)
  next
    case True
    let ?o = "if lLastSeenMs (out ! j) > lLastSeenMs (out ! i)
       then out[i := out ! j, j := out ! i] else out"
    have "\<forall>k. i < k \<and> k < Suc j \<and> k < length ?o \<longrightarrow> lLastSeenMs (?o ! k) \<le> lLastSeenMs (?o ! i)"
      using "1.prems" True by (auto simp: nth_list_update less_Suc_eq)
    then have "(\<forall>k. i < k \<and> k < length ?o \<longrightarrow>
            lLastSeenMs (sort_inner i (Suc j) ?o ! k) \<le> lLastSeenMs (sort_inner i (Suc j) ?o ! i))
       \<and> take i (sort_inner i (Suc j) ?o) = take i ?o"
      using "1.prems" True by (intro "1.IH") auto
    moreover have "take i ?o = take i out" using "1.prems"(1) by simp
    moreover have "sort_inner i j out = sort_inner i (Suc j) ?o"
      using True by (subst sort_inner.simps) simp
    ultimately show ?thesis by (simp del: sort_inner.simps)
  qed
qed

definition newest_first :: "Listing list \<Rightarrow> bool" where
  "newest_first xs \<longleftrightarrow> sorted_wrt (\<lambda>a b. lLastSeenMs b \<le> lLastSeenMs a) xs"


definition prefix_newest :: "nat \<Rightarrow> Listing list \<Rightarrow> bool" where
  "prefix_newest i xs \<longleftrightarrow>
     (\<forall>a b. a < i \<and> a < b \<and> b < length xs \<longrightarrow> lLastSeenMs (xs ! b) \<le> lLastSeenMs (xs ! a))"

lemma sort_inner_prefix:
  assumes i: "i < length xs" and p: "prefix_newest i xs"
  shows "prefix_newest (Suc i) (sort_inner i (Suc i) xs)"
proof -
  let ?ys = "sort_inner i (Suc i) xs"
  have spec: "\<forall>k. i < k \<and> k < length xs \<longrightarrow> lLastSeenMs (?ys ! k) \<le> lLastSeenMs (?ys ! i)"
    and tk: "take i ?ys = take i xs"
    using sort_inner_spec [of i "Suc i" xs] i by auto
  have "mset (take i ?ys) + mset (drop i ?ys) = mset (take i xs) + mset (drop i xs)"
    using mset_sort_inner [OF i, of "Suc i"] by (metis append_take_drop_id mset_append)
  then have dr: "set (drop i ?ys) = set (drop i xs)"
    using tk by (metis add_left_cancel set_mset_mset)
  have low: "lLastSeenMs (?ys ! b) \<le> lLastSeenMs (?ys ! a)"
    if "a < i" "a < b" "b < length xs" for a b
  proof (cases "b < i")
    case True
    then have "?ys ! a = xs ! a" "?ys ! b = xs ! b"
      using that tk by (metis nth_take, metis nth_take)
    with p that show ?thesis by (auto simp: prefix_newest_def)
  next
    case False
    then have "?ys ! b \<in> set (drop i ?ys)"
      using that nth_mem [of "b - i" "drop i ?ys"] by simp
    then obtain c where "i \<le> c" "c < length xs" "?ys ! b = xs ! c"
      unfolding dr in_set_conv_nth by (auto simp: less_diff_conv add.commute intro: that [of "_ + i"])
    moreover have "?ys ! a = xs ! a" using that tk by (metis nth_take)
    ultimately show ?thesis using p that by (auto simp: prefix_newest_def)
  qed
  show ?thesis
    unfolding prefix_newest_def using low spec by (auto simp: less_Suc_eq)
qed

lemma sort_outer_newest: "prefix_newest i xs \<Longrightarrow> newest_first (sort_outer i xs)"
proof (induction i xs rule: sort_outer.induct)
  case (1 i xs)
  show ?case
  proof (cases "i < length xs")
    case True
    then show ?thesis
      using "1.IH" "1.prems" sort_inner_prefix by (simp add: sort_outer.simps [of i xs])
  next
    case False
    with "1.prems" show ?thesis
      by (auto simp: sort_outer.simps prefix_newest_def newest_first_def sorted_wrt_iff_nth_less)
  qed
qed

text \<open>\<^verbatim>\<open>List\<close> returns exactly the caller's own terminals, each once, with the most recently
  used first.\<close>

theorem list_own_newest_first:
  "newest_first (Manager_List m own)
   \<and> mset (Manager_List m own)
     = image_mset (listing_of m) (filter_mset (\<lambda>e. owner e = own) (mset (map snd (entries m))))"
  by (simp add: Manager_List_def mset_sort_outer sort_outer_newest prefix_newest_def)


section \<open>The table invariant\<close>

text \<open>An entry sits under its own handle and has a session of its own.\<close>

definition mgr_ok :: "'k Manager \<Rightarrow> bool" where
  "mgr_ok m \<longleftrightarrow> gomap_ok (entries m)
     \<and> (\<forall>h e. gm_get (entries m) h = Some e \<longrightarrow> handle e = h)
     \<and> (\<forall>h h' e e'. gm_get (entries m) h = Some e \<and> gm_get (entries m) h' = Some e' \<and> sess e = sess e'
          \<longrightarrow> h = h')"

lemma mgr_okD [inv_simps]:
  assumes "mgr_ok m"
  shows "gomap_ok (entries m)" "gm_get (entries m) h = Some e \<Longrightarrow> handle e = h"
    "gm_get (entries m) h = Some e \<Longrightarrow> gm_get (entries m) h' = Some e' \<Longrightarrow> sess e = sess e' \<Longrightarrow> h = h'"
  using assms unfolding mgr_ok_def by blast+

lemma mgr_ok_put:
  assumes ok: "mgr_ok m" and "handle e' = h"
    and i: "\<And>h' e. gm_get (entries m) h' = Some e \<Longrightarrow> sess e = sess e' \<Longrightarrow> h' = h"
    and es: "entries m' = gm_put h e' (entries m)"
  shows "mgr_ok m'"
  unfolding mgr_ok_def
proof (intro conjI allI impI)
  show "gomap_ok (entries m')" using ok es by (simp add: mgr_okD)
  show "handle e = k" if "gm_get (entries m') k = Some e" for k e
    using that ok assms(2) unfolding es by (auto simp only: gm_get_put mgr_okD split: if_splits)
  show "k = k'"
    if "gm_get (entries m') k = Some e1 \<and> gm_get (entries m') k' = Some e2 \<and> sess e1 = sess e2" for k k' e1 e2
    using that mgr_okD(3) [OF ok] i unfolding es gm_get_put by (metis option.inject)
qed

lemma upd_sess_simps [simp]:
  "entries (upd_sess m i s) = entries m" "timeout (upd_sess m i s) = timeout m"
  "mclosed (upd_sess m i s) = mclosed m" "ringSize (upd_sess m i s) = ringSize m"
  "heap (upd_sess m i s) = (heap m)(i := s)"
  by (simp_all add: upd_sess_def)

lemma close_sess_simps [simp]:
  "entries (close_sess m i) = entries m" "timeout (close_sess m i) = timeout m"
  "mclosed (close_sess m i) = mclosed m"
  by (simp_all add: close_sess_def)

lemma upd_entry_simps [simp]:
  "timeout (upd_entry m e f) = timeout m" "mclosed (upd_entry m e f) = mclosed m"
  "heap (upd_entry m e f) = heap m"
  by (simp_all add: upd_entry_def split: option.splits)

lemma upd_entry_found:
  "gm_get (entries m) (handle e) = Some e \<Longrightarrow>
     upd_entry m e f = m\<lparr>entries := gm_put (handle e) (f e) (entries m)\<rparr>"
  by (simp add: upd_entry_def)

lemma foldl_close_simps [simp]:
  "entries (foldl close_sess m is) = entries m" "mclosed (foldl close_sess m is) = mclosed m"
  "timeout (foldl close_sess m is) = timeout m"
  by (induction "is" arbitrary: m) simp_all

lemma Session_Close_idem [simp]: "Session_Close (Session_Close s) = Session_Close s"
  by (simp add: Session_Close_def)

lemma heap_foldl_close:
  "heap (foldl close_sess m is) i = (if i \<in> set is then Session_Close (heap m i) else heap m i)"
  by (induction "is" arbitrary: m) (auto simp: close_sess_def)

lemma sweep_entries_heap:
  assumes "mgr_ok m"
  shows "gm_get (entries (fst (Sweep m now))) h
      = (case gm_get (entries m) h of
           None \<Rightarrow> None
         | Some e \<Rightarrow> if attachCount e = 0 \<and> time_sub now (lastSeen e) > timeout m then None else Some e)"
    and "heap (fst (Sweep m now)) i
      = (if \<exists>h e. gm_get (entries m) h = Some e \<and> sess e = i
              \<and> attachCount e = 0 \<and> time_sub now (lastSeen e) > timeout m
         then Session_Close (heap m i) else heap m i)"
proof -
  let ?ex = "filter (is_expired m now) (map snd (entries m))"
  have m': "fst (Sweep m now) = foldl close_sess
      (m\<lparr>entries := gm_retain (\<lambda>h e. \<not> is_expired m now e) (entries m)\<rparr>) (map sess ?ex)"
    by (simp add: Sweep_def Let_def)
  show "gm_get (entries (fst (Sweep m now))) h
      = (case gm_get (entries m) h of
           None \<Rightarrow> None
         | Some e \<Rightarrow> if attachCount e = 0 \<and> time_sub now (lastSeen e) > timeout m then None else Some e)"
    by (auto simp: m' gm_get_retain mgr_okD [OF assms(1)] is_expired_def split: option.splits)
  have mem: "i \<in> set (map sess ?ex) \<longleftrightarrow> (\<exists>h e. gm_get (entries m) h = Some e \<and> sess e = i \<and> is_expired m now e)"
    by (auto simp: gm_get_in_set [OF mgr_okD(1) [OF assms(1)]] image_iff) force+
  have "heap (fst (Sweep m now)) i
      = (if i \<in> set (map sess ?ex) then Session_Close (heap m i) else heap m i)"
    unfolding m' heap_foldl_close by simp
  then show "heap (fst (Sweep m now)) i
      = (if \<exists>h e. gm_get (entries m) h = Some e \<and> sess e = i
              \<and> attachCount e = 0 \<and> time_sub now (lastSeen e) > timeout m
         then Session_Close (heap m i) else heap m i)"
    unfolding mem unfolding is_expired_def .
qed

lemma sweep_count: "snd (Sweep m now) + length (entries (fst (Sweep m now))) = length (entries m)"
  using sum_length_filter_compl [of "is_expired m now" "map snd (entries m)"]
  by (simp add: Sweep_def Let_def gm_retain_def filter_map comp_def case_prod_beta')

text \<open>\<^verbatim>\<open>Sweep\<close> removes exactly the entries nobody is attached to that have been idle for
  longer than the timeout, closes their sessions and no other, and returns their number.\<close>

theorem sweep_exact:
  assumes "mgr_ok m" and "Sweep m now = (m', n)"
  shows "gm_get (entries m') h
        = (case gm_get (entries m) h of
             None \<Rightarrow> None
           | Some e \<Rightarrow> if attachCount e = 0 \<and> time_sub now (lastSeen e) > timeout m then None else Some e)
    \<and> heap m' i
        = (if \<exists>h e. gm_get (entries m) h = Some e \<and> sess e = i
                \<and> attachCount e = 0 \<and> time_sub now (lastSeen e) > timeout m
           then Session_Close (heap m i) else heap m i)
    \<and> n + length (entries m') = length (entries m)"
  using sweep_entries_heap(1) [OF assms(1), of now h] sweep_entries_heap(2) [OF assms(1), of now i]
    sweep_count [of m now] assms(2) by simp

definition demo_idle :: "unit Manager" where
  "demo_idle = (NewManager (\<lambda>i. Open 80 24))\<lparr>entries :=
     [(''H'', \<lparr>handle = ''H'', owner = ''alice'', sess = 0, attachCount = 0, lastSeen = 1, command = ''pwsh''\<rparr>)]\<rparr>"

lemma mgr_ok_demo_idle: "mgr_ok demo_idle"
  by (simp add: demo_idle_def mgr_ok_def NewManager_def split: if_splits)

lemma sweep_exact_witness:
  "gm_get (entries (fst (Sweep demo_idle (2 + IdleTimeout)))) ''H'' = None"
proof -
  note ok = mgr_ok_demo_idle
  have g: "time_sub (2 + IdleTimeout) 1 > IdleTimeout"
    by (simp add: time_sub_def IdleTimeout_def hour_def minute_def second_def maxDuration_def minDuration_def)
  show ?thesis
    using conjunct1 [OF sweep_exact [OF ok surjective_pairing, of "2 + IdleTimeout" "''H''"]] g
    by (simp add: demo_idle_def NewManager_def)
qed

section \<open>Attachments\<close>

text \<open>The attachments made and not yet given back are a multiset of tokens. The steps are
  the manager's operations; a handle and a session that \<^verbatim>\<open>Register\<close> receives are new, which
  80 random bits and a session opened for the call stand for. A client calls \<^verbatim>\<open>Detach\<close> once
  for each token it was given.\<close>

inductive pty_step :: "'k Manager \<times> AttachToken multiset \<Rightarrow> 'k Manager \<times> AttachToken multiset \<Rightarrow> bool" where
  register:
    "\<lbrakk>gm_get (entries m) h = None; \<forall>t \<in># T. tHandle t \<noteq> h; \<forall>h' e. gm_get (entries m) h' = Some e \<longrightarrow> sess e \<noteq> i;
      Register m h own i cmd (Some k) now = (m', h, Some r)\<rbrakk>
     \<Longrightarrow> pty_step (m, T) (m', add_mset (rToken r) T)"
| attach: "Attach m own h (Some k) now = Inr (m', r) \<Longrightarrow> pty_step (m, T) (m', add_mset (rToken r) T)"
| detach: "t \<in># T \<Longrightarrow> pty_step (m, T) (Detach m t now, T - {#t#})"
| drop_step: "pty_step (m, T) (Drop m own h, T)"
| sweep: "pty_step (m, T) (fst (Sweep m now), T)"
| pump_end: "pty_step (m, T) (pump_returned m h i, T)"
| chunk: "pty_step (m, T) (upd_sess m i (fst (sess_step (heap m i) (OpChunk p))), T)"
| append_step: "pty_step (m, T) (Append m own h d, T)"
| close_all: "pty_step (m, T) (Manager_Close m, T)"

inductive pty_reach :: "'k Manager \<times> AttachToken multiset \<Rightarrow> bool" where
  init: "pty_reach (NewManager hp, {#})"
| step: "pty_reach s \<Longrightarrow> pty_step s s' \<Longrightarrow> pty_reach s'"

definition attach_ok :: "'k Manager \<Rightarrow> AttachToken multiset \<Rightarrow> bool" where
  "attach_ok m T \<longleftrightarrow> mgr_ok m
     \<and> (\<forall>h e. gm_get (entries m) h = Some e \<longrightarrow>
          attachCount e = size (filter_mset (\<lambda>t. tHandle t = h) T)
          \<and> (\<forall>t \<in># T. tHandle t = h \<longrightarrow> tOwner t = owner e))"

text \<open>Steps that only remove entries, or only write sessions.\<close>

lemma attach_ok_sub:
  assumes "attach_ok m T" and "gomap_ok (entries m')"
    and "\<And>h e. gm_get (entries m') h = Some e \<Longrightarrow> gm_get (entries m) h = Some e"
  shows "attach_ok m' T"
  using assms unfolding attach_ok_def mgr_ok_def by blast

lemma attach_okI:
  assumes "mgr_ok m"
    and "\<And>h e. gm_get (entries m) h = Some e \<Longrightarrow> attachCount e = size (filter_mset (\<lambda>t. tHandle t = h) T)"
    and "\<And>h e t. gm_get (entries m) h = Some e \<Longrightarrow> t \<in># T \<Longrightarrow> tHandle t = h \<Longrightarrow> tOwner t = owner e"
  shows "attach_ok m T"
  using assms unfolding attach_ok_def by blast

lemma attach_okD:
  assumes "attach_ok m T"
  shows "mgr_ok m"
    and "gm_get (entries m) h = Some e \<Longrightarrow> attachCount e = size (filter_mset (\<lambda>t. tHandle t = h) T)"
    and "gm_get (entries m) h = Some e \<Longrightarrow> t \<in># T \<Longrightarrow> tHandle t = h \<Longrightarrow> tOwner t = owner e"
  using assms unfolding attach_ok_def by blast+

lemma attach_ok_put:
  assumes ok: "attach_ok m T" and es: "entries m' = gm_put h e' (entries m)"
    and m': "mgr_ok m'"
    and cnt: "attachCount e' = size (filter_mset (\<lambda>t. tHandle t = h) T')"
    and T': "\<And>h'. h' \<noteq> h \<Longrightarrow> filter_mset (\<lambda>t. tHandle t = h') T' = filter_mset (\<lambda>t. tHandle t = h') T"
    and own: "\<And>t. t \<in># T' \<Longrightarrow> tHandle t = h \<Longrightarrow> tOwner t = owner e'"
  shows "attach_ok m' T'"
proof (rule attach_okI [OF m'])
  fix k e assume k: "gm_get (entries m') k = Some e"
  show "attachCount e = size (filter_mset (\<lambda>t. tHandle t = k) T')"
  proof (cases "k = h")
    case True
    then show ?thesis using k cnt by (simp add: es)
  next
    case False
    then show ?thesis using k attach_okD(2) [OF ok, of k e] T' [of k] by (simp add: es)
  qed
  fix t assume t: "t \<in># T'" "tHandle t = k"
  show "tOwner t = owner e"
  proof (cases "k = h")
    case True
    then show ?thesis using k own t by (simp add: es)
  next
    case False
    have "t \<in># filter_mset (\<lambda>t. tHandle t = k) T'" using t by simp
    then have "t \<in># T" unfolding T' [OF False] by simp
    then show ?thesis using k False t attach_okD(3) [OF ok, of k e t] by (simp add: es)
  qed
qed

lemma attach_ok_Register:
  assumes ok: "attach_ok m T" and h: "\<forall>t \<in># T. tHandle t \<noteq> h"
    and i: "\<forall>h' e. gm_get (entries m) h' = Some e \<longrightarrow> sess e \<noteq> i"
    and R: "Register m h own i cmd (Some k) now = (m', h, Some r)"
  shows "attach_ok m' (add_mset (rToken r) T)"
proof -
  let ?e = "\<lparr>handle = h, owner = own, sess = i, attachCount = 1, lastSeen = now, command = cmd\<rparr>"
  have r: "tHandle (rToken r) = h" "tOwner (rToken r) = own"
    and es: "entries m' = gm_put h ?e (entries m)"
    using R by (auto simp: Register_def Let_def upd_entry_def split: if_splits prod.splits)
  have m': "mgr_ok m'"
    using i es by (intro mgr_ok_put [OF attach_okD(1) [OF ok], of ?e h]) auto
  have "filter_mset (\<lambda>t. tHandle t = h) T = {#}" using h by auto
  then show ?thesis
    using h r by (intro attach_ok_put [OF ok es m']) auto
qed

lemma attach_ok_Attach:
  assumes ok: "attach_ok m T" and A: "Attach m own h (Some k) now = Inr (m', r)"
  shows "attach_ok m' (add_mset (rToken r) T)"
proof -
  obtain e where e: "gm_get (entries m) h = Some e" "owner e = own"
    using A by (auto simp: Attach_def Attach_lookup_def split: if_splits option.splits)
  have he: "handle e = h" using mgr_okD(2) [OF attach_okD(1) [OF ok] e(1)] .
  let ?e = "e\<lparr>attachCount := attachCount e + 1, lastSeen := now\<rparr>"
  have es: "entries m' = gm_put h ?e (entries m)"
    and r: "tHandle (rToken r) = h" "tOwner (rToken r) = own"
    using A e he by (auto simp: Attach_def Attach_lookup_def Attach_bind_def Let_def upd_entry_def
        split: if_splits prod.splits)
  have m': "mgr_ok m'"
    using he mgr_okD(3) [OF attach_okD(1) [OF ok] _ e(1)] es
    by (intro mgr_ok_put [OF attach_okD(1) [OF ok], of ?e h]) auto
  show ?thesis
    using attach_okD(2,3) [OF ok e(1)] r e(2) by (intro attach_ok_put [OF ok es m']) auto
qed

lemma attach_ok_Detach:
  assumes ok: "attach_ok m T" and t: "t \<in># T"
  shows "attach_ok (Detach m t now) (T - {#t#})"
proof (cases "gm_get (entries m) (tHandle t)")
  case None
  have "size (filter_mset (\<lambda>u. tHandle u = h) (T - {#t#})) = size (filter_mset (\<lambda>u. tHandle u = h) T)"
    if "h \<noteq> tHandle t" for h
    using that t by (simp add: filter_diff_mset)
  with None show ?thesis
    using attach_okD [OF ok] by (intro attach_okI) (auto simp: Detach_def dest: in_diffD)
next
  case (Some e)
  let ?h = "tHandle t"
  have own: "owner e = tOwner t" using attach_okD(3) [OF ok Some t] by simp
  have he: "handle e = ?h" using mgr_okD(2) [OF attach_okD(1) [OF ok] Some] .
  have cnt: "attachCount e = size (filter_mset (\<lambda>u. tHandle u = ?h) T)"
    by (rule attach_okD(2) [OF ok Some])
  moreover have "t \<in># filter_mset (\<lambda>u. tHandle u = ?h) T" using t by simp
  ultimately have pos: "attachCount e > 0" by (metis gr0I size_eq_0_iff_empty empty_not_add_mset multi_member_split)
  define e' where "e' = e\<lparr>attachCount := attachCount e - 1,
       lastSeen := (if attachCount e - 1 = 0 then now else lastSeen e)\<rparr>"
  have es: "entries (Detach m t now) = gm_put ?h e' (entries m)"
    using Some own he pos by (simp add: Detach_def Let_def upd_entry_def e'_def)
  have m': "mgr_ok (Detach m t now)"
    using he mgr_okD(3) [OF attach_okD(1) [OF ok] _ Some] es
    by (intro mgr_ok_put [OF attach_okD(1) [OF ok], of e' ?h]) (auto simp: e'_def)
  have "filter_mset P (T - {#t#}) = (if P t then filter_mset P T - {#t#} else filter_mset P T)" for P
    by (simp add: filter_diff_mset)
  then show ?thesis
    using cnt own t attach_okD(3) [OF ok Some]
    by (intro attach_ok_put [OF ok es m']) (auto simp: e'_def size_Diff_singleton dest: in_diffD)
qed

lemma attach_ok_step:
  assumes "pty_step (m, T) (m', T')" and "attach_ok m T"
  shows "attach_ok m' T'"
  using assms
proof (cases rule: pty_step.cases)
  case (register h i own cmd k now r)
  then show ?thesis using attach_ok_Register [OF assms(2)] by simp
next
  case (attach own h k now r)
  then show ?thesis using attach_ok_Attach [OF assms(2)] by simp
next
  case (detach t now)
  then show ?thesis using attach_ok_Detach [OF assms(2)] by simp
next
  case (drop_step own h)
  then show ?thesis
    by (auto intro!: attach_ok_sub [OF assms(2)] simp: Drop_def mgr_okD [OF attach_okD(1) [OF assms(2)]]
        split: option.splits if_splits)
next
  case (sweep now)
  have ok: "gomap_ok (entries m)" using mgr_okD(1) [OF attach_okD(1) [OF assms(2)]] .
  show ?thesis unfolding sweep using ok
    by (intro attach_ok_sub [OF assms(2)])
       (simp_all add: Sweep_def Let_def gm_get_retain del: map_of_eq_Some_iff split: option.splits if_splits)
next
  case (pump_end h i)
  then show ?thesis
    by (auto intro!: attach_ok_sub [OF assms(2)] simp: pump_returned_def mgr_okD [OF attach_okD(1) [OF assms(2)]]
        split: option.splits if_splits)
next
  case (chunk i p)
  then show ?thesis
    by (auto intro!: attach_ok_sub [OF assms(2)] simp: mgr_okD [OF attach_okD(1) [OF assms(2)]])
next
  case (append_step own h d)
  then show ?thesis
    by (auto intro!: attach_ok_sub [OF assms(2)] simp: Append_def mgr_okD [OF attach_okD(1) [OF assms(2)]]
        split: option.splits if_splits)
next
  case close_all
  then show ?thesis
    by (auto intro!: attach_ok_sub [OF assms(2)] simp: Manager_Close_def mgr_okD [OF attach_okD(1) [OF assms(2)]])
qed

lemma attach_ok_reach: "pty_reach s \<Longrightarrow> attach_ok (fst s) (snd s)"
proof (induction rule: pty_reach.induct)
  case (init hp)
  show ?case by (simp add: attach_ok_def mgr_ok_def NewManager_def)
next
  case (step s s')
  then show ?case using attach_ok_step [of "fst s" "snd s" "fst s'" "snd s'"] by simp
qed


definition demo_reg :: "unit Manager \<times> string \<times> AttachResult option" where
  "demo_reg = Register (NewManager (\<lambda>i. Open 80 24)) ''H'' ''alice'' 0 ''pwsh'' (Some ()) 5"


section \<open>Owners\<close>

text \<open>The table as it would be if only \<open>own\<close> had ever registered terminals.\<close>

definition own_view :: "string \<Rightarrow> 'k Manager \<Rightarrow> 'k Manager" where
  "own_view own m = m\<lparr>entries := filter (\<lambda>(h, e). owner e = own) (entries m)\<rparr>"

lemma own_view_simps [simp]:
  "mclosed (own_view own m) = mclosed m" "heap (own_view own m) = heap m"
  "timeout (own_view own m) = timeout m" "ringSize (own_view own m) = ringSize m"
  by (simp_all add: own_view_def)

lemma own_view_get:
  assumes "gomap_ok (entries m)"
  shows "gm_get (entries (own_view own m)) h
     = (case gm_get (entries m) h of None \<Rightarrow> None | Some e \<Rightarrow> if owner e = own then Some e else None)"
  using gm_get_retain [OF assms, of "\<lambda>h e. owner e = own" h] by (simp add: own_view_def gm_retain_def)

lemma filter_own_put:
  assumes "gm_get es h = Some e" and "owner e' = owner e" and "gomap_ok es" and "owner e = own"
  shows "filter (\<lambda>(h, e). owner e = own) (gm_put h e' es)
    = gm_put h e' (filter (\<lambda>(h, e). owner e = own) es)"
  using assms
proof (induction es)
  case (Cons kv es)
  then show ?case by (cases kv) (auto split: if_splits)
qed simp

lemma own_view_upd_sess: "own_view own (upd_sess m i s) = upd_sess (own_view own m) i s"
  by (simp add: own_view_def upd_sess_def)

lemma own_view_upd_entry:
  assumes "mgr_ok m" and "gm_get (entries m) h = Some e" and "owner e = own"
    and "\<And>c. owner (f c) = owner c"
  shows "own_view own (upd_entry m e f) = upd_entry (own_view own m) e f"
proof -
  have h: "handle e = h" using assms by (simp add: mgr_okD)
  show ?thesis
    using assms filter_own_put [OF assms(2), of "f e" own] own_view_get [of m own h]
    by (simp add: upd_entry_def h mgr_okD(1)) (simp add: own_view_def mgr_okD(1))
qed

lemma own_view_Attach:
  assumes "mgr_ok m"
  shows "Attach (own_view own m) own h sink now
        = (case Attach m own h sink now of Inl err \<Rightarrow> Inl err | Inr (m', r) \<Rightarrow> Inr (own_view own m', r))"
proof -
  have l: "Attach_lookup (own_view own m) own h = Attach_lookup m own h"
    using own_view_get [OF mgr_okD(1) [OF assms], of own h]
    by (simp add: Attach_lookup_def split: option.splits)
  have b: "Attach_bind (own_view own m) own h e sink now
      = (own_view own (fst (Attach_bind m own h e sink now)), snd (Attach_bind m own h e sink now))"
    if "Attach_lookup m own h = Inr e" for e
  proof -
    have e: "gm_get (entries m) h = Some e" "owner e = own"
      using that by (auto simp: Attach_lookup_def split: if_splits option.splits)
    have "mgr_ok (upd_sess m i s)" for i s using assms by (simp add: mgr_ok_def)
    then show ?thesis
      using e by (cases sink) (simp_all add: Attach_bind_def Let_def split_beta own_view_upd_sess [symmetric]
          own_view_upd_entry [where h = h])
  qed
  show ?thesis by (simp add: Attach_def l b split: sum.splits prod.splits)
qed

lemma filter_own_del:
  "filter (\<lambda>(h, e). owner e = own) (gm_del h es) = gm_del h (filter (\<lambda>(h, e). owner e = own) es)"
  by (simp add: AList.delete_eq filter_filter split_beta conj_commute)

lemma own_view_Drop:
  assumes "mgr_ok m"
  shows "own_view own (Drop m own h) = Drop (own_view own m) own h"
  using own_view_get [OF mgr_okD(1) [OF assms], of own h]
  by (cases "gm_get (entries m) h")
     (auto simp: Drop_def close_sess_def own_view_upd_sess, auto simp: own_view_def filter_own_del)

lemma own_view_Append:
  assumes "mgr_ok m"
  shows "own_view own (Append m own h d) = Append (own_view own m) own h d"
  using own_view_get [OF mgr_okD(1) [OF assms], of own h]
  by (cases "gm_get (entries m) h") (auto simp: Append_def own_view_upd_sess)

lemma own_view_Detach:
  assumes "mgr_ok m" and "tOwner t = own"
  shows "own_view own (Detach m t now) = Detach (own_view own m) t now"
proof (cases "gm_get (entries m) (tHandle t)")
  case None
  then show ?thesis using own_view_get [OF mgr_okD(1) [OF assms(1)], of own "tHandle t"]
    by (simp add: Detach_def)
next
  case (Some e)
  have "mgr_ok (upd_sess m i s)" for i s using assms by (simp add: mgr_ok_def)
  then show ?thesis
    using own_view_get [OF mgr_okD(1) [OF assms(1)], of own "tHandle t"] Some assms
    by (simp add: Detach_def Let_def own_view_upd_sess [symmetric] own_view_upd_entry [where h = "tHandle t"])
qed

lemma own_view_List: "Manager_List (own_view own m) own = Manager_List m own"
  by (simp add: Manager_List_def own_view_def filter_map comp_def case_prod_beta' listing_of_def)

text \<open>C4: A client works as if its own terminals were the only ones: every request answers
  exactly what it would answer on a table without the other owners' entries, so a handle that
  belongs to somebody else cannot be told from one that does not exist, and what the request
  does to the client's own entries does not depend on the others.\<close>

theorem owner_noninterference:
  assumes "mgr_ok m" and "tOwner t = own"
  shows "Attach (own_view own m) own h sink now
        = (case Attach m own h sink now of Inl err \<Rightarrow> Inl err | Inr (m', r) \<Rightarrow> Inr (own_view own m', r))
    \<and> Get (own_view own m) own h = Get m own h
    \<and> CWDOf (own_view own m) own h = CWDOf m own h
    \<and> Manager_List (own_view own m) own = Manager_List m own
    \<and> own_view own (Detach m t now) = Detach (own_view own m) t now
    \<and> own_view own (Drop m own h) = Drop (own_view own m) own h
    \<and> own_view own (Append m own h d) = Append (own_view own m) own h d"
  using own_view_Attach [OF assms(1)] own_view_Detach [OF assms] own_view_Drop [OF assms(1)]
    own_view_Append [OF assms(1)] own_view_get [OF mgr_okD(1) [OF assms(1)], of own h]
  by (simp add: own_view_List Get_def CWDOf_def split: option.splits)

lemma owner_noninterference_witness:
  "Attach (own_view ''bob'' demo_idle) ''bob'' ''H'' (Some ()) 7 = Inl UnknownHandle"
proof -
  have "Attach demo_idle ''bob'' ''H'' (Some ()) 7 = Inl UnknownHandle"
    by (simp add: demo_idle_def NewManager_def Attach_def Attach_lookup_def)
  then show ?thesis
    using conjunct1 [OF owner_noninterference [OF mgr_ok_demo_idle,
        of "\<lparr>tHandle = ''H'', tSink = 0, tOwner = ''bob''\<rparr>" "''bob''" "''H''" "Some ()" 7]] by simp
qed

text \<open>What one client does leaves every other owner's terminals as they are: the entry and
  the session behind it.\<close>

theorem foreign_entries_untouched:
  assumes "mgr_ok m" and "gm_get (entries m) h' = Some e" and "owner e \<noteq> own" and "tOwner t = own"
    and "m' \<in> {Detach m t now, Drop m own h, Append m own h d}
       \<or> (\<exists>r. Attach m own h sink now = Inr (m', r))"
  shows "gm_get (entries m') h' = Some e \<and> heap m' (sess e) = heap m (sess e)"
proof -
  have other: "h' \<noteq> h \<and> sess c \<noteq> sess e" if "gm_get (entries m) h = Some c" "owner c = own" for c h
    using mgr_okD(3) [OF assms(1) that(1) assms(2)] assms(2,3) that by auto
  have hd: "handle c = h" if "gm_get (entries m) h = Some c" for c h
    using mgr_okD(2) [OF assms(1) that] .
  consider "m' = Detach m t now" | "m' = Drop m own h" | "m' = Append m own h d"
    | r where "Attach m own h sink now = Inr (m', r)"
    using assms(5) by blast
  then show ?thesis
  proof cases
    case 1
    show ?thesis
    proof (cases "gm_get (entries m) (tHandle t)")
      case (Some c)
      then show ?thesis using 1 assms(2,4) other [OF Some] hd [OF Some]
        by (cases "owner c = own") (simp_all add: Detach_def Let_def upd_entry_def)
    qed (simp add: 1 assms(2) Detach_def)
  next
    case 2
    then show ?thesis using assms(2) other [of h]
      by (auto simp: Drop_def close_sess_def split: option.splits)
  next
    case 3
    then show ?thesis using assms(2) other [of h]
      by (auto simp: Append_def split: option.splits)
  next
    case 4
    then show ?thesis using assms(2) other [of h] hd [of h]
      by (auto simp: Attach_def Attach_lookup_def Attach_bind_def Let_def upd_entry_def
          split: option.splits if_splits prod.splits)
  qed
qed

lemma foreign_entries_untouched_witness:
  "gm_get (entries (Drop demo_idle ''bob'' ''H'')) ''H'' \<noteq> None"
proof -
  note mgr_ok_demo_idle
  moreover obtain e where "gm_get (entries demo_idle) ''H'' = Some e" "owner e = ''alice''"
    by (simp add: demo_idle_def)
  ultimately show ?thesis
    using foreign_entries_untouched [of demo_idle "''H''" e "''bob''"
        "\<lparr>tHandle = ''H'', tSink = 0, tOwner = ''bob''\<rparr>" "Drop demo_idle ''bob'' ''H''" 7 "''H''"] by simp
qed

section \<open>Attaching while the sweep runs\<close>

text \<open>\<^verbatim>\<open>Attach\<close> gives up the lock between finding the entry and counting the attachment. A
  sweep that runs in between closes the idle session it found; the attach still succeeds, with
  a token for a session that is closed and no longer in the table.\<close>

theorem attach_sweep_race:
  assumes "mgr_ok m" and "Attach_lookup m own h = Inr e"
    and "attachCount e = 0" and "time_sub now (lastSeen e) > timeout m"
    and "Attach_bind (fst (Sweep m now)) own h e (Some k) now = (m', r)"
  shows "closed (heap m' (rSession r)) \<and> gm_get (entries m') h = None
    \<and> Attach m' own h (Some k) now = Inl UnknownHandle"
proof -
  have e: "gm_get (entries m) h = Some e" "\<not> mclosed m"
    using assms(2) by (auto simp: Attach_lookup_def split: if_splits option.splits)
  have he: "handle e = h" using mgr_okD(2) [OF assms(1) e(1)] .
  have none: "gm_get (entries (fst (Sweep m now))) h = None"
    using sweep_entries_heap(1) [OF assms(1), of now h] e(1) assms(3,4) by simp
  have "heap (fst (Sweep m now)) (sess e) = Session_Close (heap m (sess e))"
    unfolding sweep_entries_heap(2) [OF assms(1)] using e(1) assms(3,4) by (intro if_P) blast
  then have cl: "closed (heap (fst (Sweep m now)) (sess e))" by (simp add: Session_Close_def)
  have "mclosed (fst (Sweep m now)) = mclosed m" by (simp add: Sweep_def Let_def)
  with cl none he e(2) show ?thesis
    using assms(5) by (auto simp: Attach_bind_def Let_def upd_entry_def AddSinkWithSnapshot_def
        addSinkLocked_def Attach_def Attach_lookup_def split: option.splits prod.splits)
qed

lemma attach_sweep_race_witness:
  "\<exists>e m' r. Attach_lookup demo_idle ''alice'' ''H'' = Inr e
     \<and> Attach_bind (fst (Sweep demo_idle (2 + IdleTimeout))) ''alice'' ''H'' e (Some ()) (2 + IdleTimeout) = (m', r)
     \<and> closed (heap m' (rSession r))"
proof -
  note ok = mgr_ok_demo_idle
  obtain e where e: "Attach_lookup demo_idle ''alice'' ''H'' = Inr e" "attachCount e = 0" "lastSeen e = 1"
    by (simp add: demo_idle_def NewManager_def Attach_lookup_def)
  have g: "time_sub (2 + IdleTimeout) (lastSeen e) > timeout demo_idle"
    by (simp add: e demo_idle_def NewManager_def time_sub_def IdleTimeout_def hour_def minute_def second_def
        maxDuration_def minDuration_def)
  show ?thesis using attach_sweep_race [OF ok e(1,2) g surjective_pairing, of "()"] e(1)
    by (metis surjective_pairing)
qed

end
