(* ===== verification/Wire.thy ===== *)
theory Wire
  imports Peersh_Prelude
begin

unbundle bit_operations_syntax

text \<open>
  \<^verbatim>\<open>core/wire/wire.go\<close>: length-prefixed framing. A frame is the payload's length as a
  \<^verbatim>\<open>uvarint\<close> followed by the payload. The protobuf runtime that turns a message into its
  payload and back is third-party code, so \<^verbatim>\<open>proto.Marshal\<close> and \<^verbatim>\<open>proto.Unmarshal\<close> are
  arguments of the two operations; \<^verbatim>\<open>encoding/binary\<close> and \<^verbatim>\<open>io.ReadFull\<close> belong to the
  standard library and are defined here.

  A byte stream is the list of bytes that will still arrive before end-of-file. The reader
  is one that satisfies \<^verbatim>\<open>io.ByteReader\<close> (every caller in the repository passes the
  \<^verbatim>\<open>*bufio.Reader\<close> of \<^verbatim>\<open>NewReader\<close>), so a call consumes exactly the bytes of its frame.
\<close>

datatype io_err = EOF | ErrUnexpectedEOF | ErrVarintOverflow | WriteFailed

datatype wire_err =
    ErrMarshal
  | ErrWriteLength io_err
  | ErrWritePayload io_err
  | ErrReadLength io_err
  | ErrFrameTooLarge
  | ErrReadPayload io_err
  | ErrUnmarshal

definition MaxFrameSize :: nat where
  "MaxFrameSize = 4 * 2 ^ 20"

definition MaxVarintLen64 :: nat where
  "MaxVarintLen64 = 10"


section \<open>Varints\<close>

text \<open>\<^verbatim>\<open>binary.PutUvarint\<close>: seven bits per byte, least significant group first, the top
  bit set on every byte but the last.\<close>

function PutUvarint :: "u64 \<Rightarrow> bytes" where
  "PutUvarint x =
     (if 0x80 \<le> x then (ucast x OR 0x80) # PutUvarint (drop_bit 7 x) else [ucast x])"
  by pat_completeness auto
termination
proof (relation "measure unat", simp)
  fix x :: u64
  assume "0x80 \<le> x"
  then have "128 \<le> unat x"
    by (simp add: word_le_nat_alt)
  moreover have "unat (drop_bit 7 x) = unat x div 2 ^ 7"
    by (subst unat_drop_bit_eq) (simp add: drop_bit_eq_div)
  ultimately show "(drop_bit 7 x, x) \<in> measure unat"
    by simp
qed

declare PutUvarint.simps [simp del]

text \<open>\<^verbatim>\<open>binary.ReadUvarint\<close>: \<open>i\<close> counts the bytes read so far, \<open>x\<close> is the value
  accumulated and \<open>s\<close> the next shift. Ten bytes are the most a 64-bit value takes.\<close>

function ReadUvarint_loop :: "nat \<Rightarrow> u64 \<Rightarrow> nat \<Rightarrow> bytes \<Rightarrow> io_err + (u64 \<times> bytes)" where
  "ReadUvarint_loop i x s r =
     (if i < MaxVarintLen64 then
        (case r of
           [] \<Rightarrow> Inl (if 0 < i then ErrUnexpectedEOF else EOF)
         | b # r' \<Rightarrow>
             if b < 0x80 then
               (if i = MaxVarintLen64 - 1 \<and> 1 < b then Inl ErrVarintOverflow
                else Inr (x OR push_bit s (ucast b), r'))
             else ReadUvarint_loop (Suc i) (x OR push_bit s (ucast (b AND 0x7f))) (s + 7) r')
      else Inl ErrVarintOverflow)"
  by pat_completeness auto
termination
  by (relation "measure (\<lambda>(i, x, s, r). length r)") auto

declare ReadUvarint_loop.simps [simp del]

definition ReadUvarint :: "bytes \<Rightarrow> io_err + (u64 \<times> bytes)" where
  "ReadUvarint r = ReadUvarint_loop 0 0 0 r"


section \<open>Frames\<close>

text \<open>\<^verbatim>\<open>io.ReadFull\<close> into a buffer of \<open>n\<close> bytes.\<close>

definition ReadFull :: "nat \<Rightarrow> bytes \<Rightarrow> io_err + (bytes \<times> bytes)" where
  "ReadFull n r =
     (if n \<le> length r then Inr (take n r, drop n r)
      else if r = [] then Inl EOF else Inl ErrUnexpectedEOF)"

text \<open>\<^verbatim>\<open>Write\<close>: \<open>wwrite w p\<close> is the writer's \<^verbatim>\<open>Write\<close>, which returns an error or not
  and the writer's next state.\<close>

definition wire_Write ::
  "('m \<Rightarrow> bytes option) \<Rightarrow> ('w \<Rightarrow> bytes \<Rightarrow> io_err option \<times> 'w) \<Rightarrow> 'w \<Rightarrow> 'm
     \<Rightarrow> wire_err option \<times> 'w" where
  "wire_Write marshal wwrite w m =
     (case marshal m of
        None \<Rightarrow> (Some ErrMarshal, w)
      | Some payload \<Rightarrow>
          (case wwrite w (PutUvarint (of_nat (length payload))) of
             (Some e, w1) \<Rightarrow> (Some (ErrWriteLength e), w1)
           | (None, w1) \<Rightarrow>
               (case wwrite w1 payload of
                  (Some e, w2) \<Rightarrow> (Some (ErrWritePayload e), w2)
                | (None, w2) \<Rightarrow> (None, w2))))"

definition wire_Read ::
  "(bytes \<Rightarrow> 'm option) \<Rightarrow> bytes \<Rightarrow> wire_err + ('m \<times> bytes)" where
  "wire_Read unmarshal r =
     (case ReadUvarint r of
        Inl e \<Rightarrow> Inl (ErrReadLength e)
      | Inr (len, r1) \<Rightarrow>
          if len > of_nat MaxFrameSize then Inl ErrFrameTooLarge
          else
            (case ReadFull (unat len) r1 of
               Inl e \<Rightarrow> Inl (ErrReadPayload e)
             | Inr (payload, r2) \<Rightarrow>
                 (case unmarshal payload of
                    None \<Rightarrow> Inl ErrUnmarshal
                  | Some m \<Rightarrow> Inr (m, r2))))"

text \<open>A writer that never fails and collects what it is given: a \<^verbatim>\<open>bytes.Buffer\<close>.\<close>

definition buffer_write :: "bytes \<Rightarrow> bytes \<Rightarrow> io_err option \<times> bytes" where
  "buffer_write w p = (None, w @ p)"

text \<open>The bytes one successful \<^const>\<open>wire_Write\<close> emits.\<close>

definition frame_bytes :: "bytes \<Rightarrow> bytes" where
  "frame_bytes payload = PutUvarint (of_nat (length payload)) @ payload"


section \<open>The varint round trip\<close>

lemma unat_drop_bit_u64: "unat (drop_bit n (x :: u64)) = unat x div 2 ^ n"
  by (subst unat_drop_bit_eq) (simp add: drop_bit_eq_div)

lemma bit_u64_127: "bit (127 :: u64) n \<longleftrightarrow> n < 7"
proof -
  have "bit (127 :: u64) n \<longleftrightarrow> bit (mask 7 :: u64) n"
    by (rule arg_cong [where f = "\<lambda>w. bit w n"]) (simp add: mask_eq_exp_minus_1)
  also have "\<dots> \<longleftrightarrow> n < 7" by (subst bit_mask_iff) (auto simp: possible_bit_def)
  finally show ?thesis .
qed

lemma bit_byte_127: "bit (127 :: byte) n \<longleftrightarrow> n < 7"
proof -
  have "bit (127 :: byte) n \<longleftrightarrow> bit (mask 7 :: byte) n"
    by (rule arg_cong [where f = "\<lambda>w. bit w n"]) (simp add: mask_eq_exp_minus_1)
  also have "\<dots> \<longleftrightarrow> n < 7" by (subst bit_mask_iff) (auto simp: possible_bit_def)
  finally show ?thesis .
qed

lemma bit_byte_128: "bit (128 :: byte) n \<longleftrightarrow> n = 7"
proof -
  have "bit (128 :: byte) n \<longleftrightarrow> bit (2 ^ 7 :: byte) n" by simp
  also have "\<dots> \<longleftrightarrow> n = 7" by (subst bit_exp_iff) (auto simp: possible_bit_def)
  finally show ?thesis .
qed

lemmas group_bits = bit_u64_127 bit_byte_127 bit_byte_128 bit_and_iff bit_or_iff
  bit_unsigned_iff bit_push_bit_iff bit_drop_bit_eq possible_bit_def

lemma group_value:
  "ucast ((((ucast (y :: u64)) :: byte) OR 128) AND 127) = (y AND 127 :: u64)"
  by (rule bit_word_eqI) (auto simp only: group_bits, auto)

lemma group_continues: "\<not> (((ucast (y :: u64)) :: byte) OR 128) < 128"
proof -
  have "bit (((ucast y) :: byte) OR 128) 7"
    by (simp only: bit_or_iff bit_byte_128 simp_thms)
  moreover have "\<not> bit b 7" if "b < 128" for b :: byte
  proof -
    have "unat b < 2 ^ 7" using that by (simp add: word_less_nat_alt)
    then have "\<not> bit (unat b) 7" by (simp add: bit_iff_odd)
    then show ?thesis by (simp only: bit_unsigned_iff) (simp add: possible_bit_def)
  qed
  ultimately show ?thesis by blast
qed

lemma shift_groups: "push_bit s (y AND 127 :: u64) OR push_bit (s + 7) (drop_bit 7 y) = push_bit s y"
proof (rule bit_word_eqI)
  fix n assume "n < LENGTH(64)"
  consider "n < s" | "s \<le> n" "n < s + 7" | "s + 7 \<le> n" by linarith
  then show "bit (push_bit s (y AND 127 :: u64) OR push_bit (s + 7) (drop_bit 7 y)) n
    = bit (push_bit s y) n"
  proof cases
    case 3
    then have "n - s = 7 + (n - (s + 7))" by simp
    with 3 show ?thesis by (simp only: group_bits comp_def) auto
  qed (auto simp only: group_bits comp_def)
qed

lemma ReadUvarint_loop_PutUvarint:
  assumes "s = 7 * i" and "s < 64" and "unat y < 2 ^ (64 - s)"
  shows "ReadUvarint_loop i x s (PutUvarint y @ r) = Inr (x OR push_bit s y, r)"
  using assms
proof (induction y arbitrary: i x s rule: PutUvarint.induct)
  case (1 y)
  have i: "i < MaxVarintLen64" using "1.prems" by (simp add: MaxVarintLen64_def)
  show ?case
  proof (cases "0x80 \<le> y")
    case False
    then have small: "unat y < 128" by (simp add: word_le_nat_alt)
    then have lt: "(ucast y :: byte) < 128"
      by (simp add: word_less_nat_alt unsigned_ucast_eq take_bit_eq_mod)
    have u: "unat (ucast y :: byte) = unat y"
      using small by (simp add: unsigned_ucast_eq take_bit_eq_mod)
    have "unat (ucast (ucast y :: byte) :: u64) = unat y"
      using small by (subst unsigned_ucast_eq) (simp add: u take_bit_nat_eq_self)
    then have same: "ucast (ucast y :: byte) = y"
      by (simp only: word_unat_eq_iff)
    have top: "\<not> (i = MaxVarintLen64 - 1 \<and> 1 < (ucast y :: byte))"
      using "1.prems" small
      by (auto simp: MaxVarintLen64_def word_less_nat_alt unsigned_ucast_eq take_bit_eq_mod)
    show ?thesis
      using False i lt top same
      by (simp add: PutUvarint.simps [of y] ReadUvarint_loop.simps [of i])
  next
    case True
    then have big: "128 \<le> unat y" by (simp add: word_le_nat_alt)
    have s7: "s + 7 < 64"
    proof (rule ccontr)
      assume "\<not> s + 7 < 64"
      then have "64 - s \<le> 7" by simp
      then have "(2::nat) ^ (64 - s) \<le> 2 ^ 7" by (rule power_increasing) simp
      with "1.prems"(3) big show False by simp
    qed
    have "unat (drop_bit 7 y) < 2 ^ (64 - (s + 7))"
    proof -
      have "64 - s = 7 + (64 - (s + 7))" using s7 by simp
      then have "unat y < 2 ^ 7 * 2 ^ (64 - (s + 7))"
        using "1.prems"(3) by (metis power_add)
      then show ?thesis
        by (subst unat_drop_bit_u64) (simp add: less_mult_imp_div_less mult.commute)
    qed
    then have IH: "ReadUvarint_loop (Suc i) x' (s + 7) (PutUvarint (drop_bit 7 y) @ r)
        = Inr (x' OR push_bit (s + 7) (drop_bit 7 y), r)" for x'
      using "1.IH" [OF True, of "s + 7" "Suc i" x'] "1.prems"(1) s7 by simp
    have "ReadUvarint_loop i x s (PutUvarint y @ r)
        = ReadUvarint_loop (Suc i) (x OR push_bit s (y AND 127)) (s + 7)
            (PutUvarint (drop_bit 7 y) @ r)"
      using True i group_continues [of y] group_value [of y]
      by (subst PutUvarint.simps, subst ReadUvarint_loop.simps) (simp only: if_True if_False append_Cons list.case)
    also have "\<dots> = Inr (x OR (push_bit s (y AND 127) OR push_bit (s + 7) (drop_bit 7 y)), r)"
      by (simp only: IH or.assoc)
    also have "\<dots> = Inr (x OR push_bit s y, r)"
      by (simp only: shift_groups)
    finally show ?thesis .
  qed
qed

lemma ReadUvarint_PutUvarint: "ReadUvarint (PutUvarint x @ r) = Inr (x, r)"
proof -
  have "unat x < 2 ^ 64" using unsigned_less [of x, where ?'a = nat] by simp
  then show ?thesis
    using ReadUvarint_loop_PutUvarint [of 0 0 x 0 r] by (simp add: ReadUvarint_def)
qed

lemma wire_Write_buffer:
  "wire_Write marshal buffer_write w m
    = (case marshal m of None \<Rightarrow> (Some ErrMarshal, w) | Some p \<Rightarrow> (None, w @ frame_bytes p))"
  by (simp add: wire_Write_def buffer_write_def frame_bytes_def split: option.split)

lemma unat_of_nat_length: "n < 2 ^ 64 \<Longrightarrow> unat (of_nat n :: u64) = n"
  by (simp add: unat_of_nat take_bit_nat_def)

lemma wire_Read_frame:
  assumes "length p \<le> MaxFrameSize"
  shows "wire_Read unmarshal (frame_bytes p @ r)
    = (case unmarshal p of None \<Rightarrow> Inl ErrUnmarshal | Some m \<Rightarrow> Inr (m, r))"
proof -
  have lt: "length p < 2 ^ 64" and mx: "MaxFrameSize < 2 ^ 64"
    using assms by (auto simp: MaxFrameSize_def)
  have "\<not> (of_nat (length p) :: u64) > of_nat MaxFrameSize"
    using assms lt mx by (simp add: word_less_nat_alt unat_of_nat_length)
  then show ?thesis
    using lt by (simp add: wire_Read_def frame_bytes_def ReadUvarint_PutUvarint unat_of_nat_length
        ReadFull_def split: option.split)
qed

lemma wire_Read_oversized:
  assumes "MaxFrameSize < length p" and "length p < 2 ^ 64"
  shows "wire_Read unmarshal (frame_bytes p @ r) = Inl ErrFrameTooLarge"
proof -
  have "MaxFrameSize < 2 ^ 64" by (simp add: MaxFrameSize_def)
  then have "(of_nat (length p) :: u64) > of_nat MaxFrameSize"
    using assms by (simp add: word_less_nat_alt unat_of_nat_length)
  then show ?thesis
    by (simp add: wire_Read_def frame_bytes_def ReadUvarint_PutUvarint)
qed


section \<open>Streams of frames\<close>

text \<open>Consecutive calls on one stream, as the per-stream loops of the host and the clients
  make them.\<close>

fun write_all :: "('m \<Rightarrow> bytes option) \<Rightarrow> bytes \<Rightarrow> 'm list \<Rightarrow> wire_err option \<times> bytes" where
  "write_all marshal w [] = (None, w)"
| "write_all marshal w (m # ms) =
     (case wire_Write marshal buffer_write w m of
        (Some e, w') \<Rightarrow> (Some e, w')
      | (None, w') \<Rightarrow> write_all marshal w' ms)"

fun read_n :: "(bytes \<Rightarrow> 'm option) \<Rightarrow> nat \<Rightarrow> bytes \<Rightarrow> wire_err + ('m list \<times> bytes)" where
  "read_n unmarshal 0 r = Inr ([], r)"
| "read_n unmarshal (Suc n) r =
     (case wire_Read unmarshal r of
        Inl e \<Rightarrow> Inl e
      | Inr (m, r') \<Rightarrow>
          (case read_n unmarshal n r' of
             Inl e \<Rightarrow> Inl e
           | Inr (ms, r'') \<Rightarrow> Inr (m # ms, r'')))"

definition sendable :: "('m \<Rightarrow> bytes option) \<Rightarrow> 'm \<Rightarrow> bool" where
  "sendable marshal m \<longleftrightarrow> (\<exists>p. marshal m = Some p \<and> length p \<le> MaxFrameSize)"

lemma write_all_sendable:
  "(\<And>m. m \<in> set ms \<Longrightarrow> sendable marshal m)
    \<Longrightarrow> write_all marshal w ms = (None, w @ concat (map (frame_bytes \<circ> the \<circ> marshal) ms))"
proof (induction ms arbitrary: w)
  case Nil
  then show ?case by simp
next
  case (Cons m ms)
  from Cons.prems [of m] obtain p where "marshal m = Some p" by (auto simp: sendable_def)
  with Cons show ?case by (simp add: wire_Write_buffer)
qed

lemma read_n_frames:
  assumes rt: "\<And>m p. marshal m = Some p \<Longrightarrow> unmarshal p = Some m"
  shows "(\<And>m. m \<in> set ms \<Longrightarrow> sendable marshal m)
    \<Longrightarrow> read_n unmarshal (length ms) (concat (map (frame_bytes \<circ> the \<circ> marshal) ms) @ r)
      = Inr (ms, r)"
proof (induction ms)
  case Nil
  then show ?case by simp
next
  case (Cons m ms)
  from Cons.prems [of m] obtain p where p: "marshal m = Some p" "length p \<le> MaxFrameSize"
    by (auto simp: sendable_def)
  then have "wire_Read unmarshal (frame_bytes p @ q) = Inr (m, q)" for q
    by (simp add: wire_Read_frame rt)
  with Cons p show ?case by simp
qed

text \<open>C7: a sequence of messages written with \<^verbatim>\<open>wire.Write\<close> onto one stream is read back by
  as many calls of \<^verbatim>\<open>wire.Read\<close>, in order and complete, and the reads consume exactly the
  frames: what follows on the stream is untouched. The hypotheses are protobuf's round trip
  and that each payload respects \<^verbatim>\<open>MaxFrameSize\<close>.\<close>

theorem wire_stream_roundtrip:
  assumes "\<And>m p. marshal m = Some p \<Longrightarrow> unmarshal p = Some m"
    and "\<And>m. m \<in> set ms \<Longrightarrow> sendable marshal m"
  shows "\<exists>out. write_all marshal [] ms = (None, out)
    \<and> read_n unmarshal (length ms) (out @ r) = Inr (ms, r)"
  using write_all_sendable [of ms marshal "[]"] read_n_frames [of marshal unmarshal ms r] assms
  by auto

theorem wire_stream_roundtrip_witness:
  "\<exists>out. write_all (\<lambda>m :: bytes. Some m) [] [[1, 2], [3]] = (None, out)
    \<and> read_n (\<lambda>p. Some p) (length [[1, 2], [3 :: byte]]) (out @ [7]) = Inr ([[1, 2], [3]], [7])"
  by (rule wire_stream_roundtrip) (auto simp: sendable_def MaxFrameSize_def)

lemma ReadUvarint_loop_consumes:
  "ReadUvarint_loop i x s r = Inr (v, r') \<Longrightarrow> i \<le> MaxVarintLen64
    \<Longrightarrow> \<exists>h. r = h @ r' \<and> h \<noteq> [] \<and> length h \<le> MaxVarintLen64 - i"
proof (induction i x s r rule: ReadUvarint_loop.induct)
  case (1 i x s r)
  from "1.prems"(1) have i: "i < MaxVarintLen64"
    by (subst (asm) ReadUvarint_loop.simps) (auto split: if_splits)
  from "1.prems"(1) i obtain b q where r: "r = b # q"
    by (subst (asm) ReadUvarint_loop.simps) (auto split: list.splits)
  show ?case
  proof (cases "b < 0x80")
    case True
    then have "q = r'" using "1.prems"(1) i r
      by (subst (asm) ReadUvarint_loop.simps) (auto split: if_splits)
    with i r show ?thesis by (intro exI [of _ "[b]"]) auto
  next
    case False
    then have "ReadUvarint_loop (Suc i) (x OR push_bit s (ucast (b AND 0x7f))) (s + 7) q = Inr (v, r')"
      using "1.prems"(1) i r by (subst (asm) ReadUvarint_loop.simps) simp
    then obtain h where "q = h @ r'" "length h \<le> MaxVarintLen64 - Suc i"
      using "1.IH" [OF i r False] i by auto
    with i r show ?thesis by (intro exI [of _ "b # h"]) auto
  qed
qed

text \<open>whatever bytes a peer sends, a frame that \<^verbatim>\<open>wire.Read\<close> accepts has a payload of at
  most 4 MiB, its header takes between one and ten bytes, and the stream is left exactly
  after the payload: the reader never allocates more than \<^verbatim>\<open>MaxFrameSize\<close> for one message
  and never loses or re-reads a byte.\<close>

theorem wire_Read_bounded:
  assumes "wire_Read unmarshal r = Inr (m, r')"
  shows "\<exists>h payload. r = h @ payload @ r' \<and> 1 \<le> length h \<and> length h \<le> MaxVarintLen64
    \<and> length payload \<le> MaxFrameSize \<and> unmarshal payload = Some m"
proof -
  from assms obtain len r1 payload where
    v: "ReadUvarint r = Inr (len, r1)" and sz: "\<not> len > of_nat MaxFrameSize"
    and f: "ReadFull (unat len) r1 = Inr (payload, r')" and u: "unmarshal payload = Some m"
    by (auto simp: wire_Read_def split: sum.splits prod.splits if_splits option.splits)
  from v obtain h where h: "r = h @ r1" "h \<noteq> []" "length h \<le> MaxVarintLen64"
    using ReadUvarint_loop_consumes [of 0 0 0 r len r1] by (auto simp: ReadUvarint_def)
  have "MaxFrameSize < 2 ^ 64" by (simp add: MaxFrameSize_def)
  with sz have "unat len \<le> MaxFrameSize"
    by (simp add: word_less_nat_alt unat_of_nat_length)
  moreover from f have "r1 = payload @ r'" and "length payload = unat len"
    by (auto simp: ReadFull_def split: if_splits)
  ultimately show ?thesis
    using h u by (intro exI [of _ h] exI [of _ payload]) (auto simp: Suc_le_eq)
qed

theorem wire_Read_bounded_witness:
  "\<exists>h payload. [2, 9, 8, 5 :: byte] = h @ payload @ [5] \<and> 1 \<le> length h
    \<and> length h \<le> MaxVarintLen64 \<and> length payload \<le> MaxFrameSize
    \<and> (\<lambda>p :: bytes. Some p) payload = Some [9, 8]"
proof (rule wire_Read_bounded)
  show "wire_Read (\<lambda>p :: bytes. Some p) [2, 9, 8, 5] = Inr ([9, 8], [5])"
    by (simp add: wire_Read_def ReadUvarint_def ReadUvarint_loop.simps [of 0] MaxVarintLen64_def
        MaxFrameSize_def ReadFull_def)
qed

text \<open>\<^verbatim>\<open>wire.Write\<close> has no size check: a message whose payload exceeds
  \<^verbatim>\<open>MaxFrameSize\<close> is written without an error, and every \<^verbatim>\<open>wire.Read\<close> of the resulting frame
  is \<^verbatim>\<open>ErrFrameTooLarge\<close>, whatever follows.\<close>

theorem wire_oversized_rejected:
  assumes "marshal m = Some p" and "MaxFrameSize < length p" and "length p < 2 ^ 64"
  shows "wire_Write marshal buffer_write [] m = (None, frame_bytes p)
    \<and> wire_Read unmarshal (frame_bytes p @ r) = Inl ErrFrameTooLarge"
  using assms by (simp add: wire_Write_buffer wire_Read_oversized)

theorem wire_oversized_rejected_witness:
  "wire_Write (\<lambda>n :: nat. Some (replicate n 0)) buffer_write [] (MaxFrameSize + 1)
     = (None, frame_bytes (replicate (MaxFrameSize + 1) 0))
   \<and> wire_Read (\<lambda>p. Some (length p)) (frame_bytes (replicate (MaxFrameSize + 1) 0) @ [1])
     = Inl ErrFrameTooLarge"
  by (rule wire_oversized_rejected) (simp_all add: MaxFrameSize_def)

end
