(* ===== verification/Files.thy ===== *)
theory Files
  imports Filepath Pty_Manager Wire
begin

text \<open>
  \<^verbatim>\<open>windows/cmd/peershd/files.go\<close>: the file browser of a terminal session. A request names a
  terminal of the connection and a path relative to its working directory; the answer lists a
  directory or returns a text file, converted to UTF-8. The file system and the working
  directory of the process are arguments; paths follow the Unix rules of \<^verbatim>\<open>path/filepath\<close>.
\<close>

section \<open>The terminals of a connection\<close>

type_synonym ptyRegistry = "(int, nat) gomap"

definition newPTYRegistry :: ptyRegistry where
  "newPTYRegistry = []"

definition reg_Register :: "ptyRegistry \<Rightarrow> int \<Rightarrow> nat \<Rightarrow> ptyRegistry" where
  "reg_Register r i s = (if i = 0 then r else gm_put i s r)"

definition reg_Unregister :: "ptyRegistry \<Rightarrow> int \<Rightarrow> ptyRegistry" where
  "reg_Unregister r i = (if i = 0 then r else gm_del i r)"

definition reg_Get :: "ptyRegistry \<Rightarrow> int \<Rightarrow> nat option" where
  "reg_Get r i = (if i = 0 then None else gm_get r i)"

section \<open>Paths\<close>

datatype path_err = AbsolutePath | ResolveCwd | ResolvePath | EscapesCwd

definition FromSlash :: "string \<Rightarrow> string" where
  "FromSlash p = p"

definition ToSlash :: "string \<Rightarrow> string" where
  "ToSlash p = p"

definition resolveSessionPath :: "string option \<Rightarrow> string \<Rightarrow> string \<Rightarrow> path_err + string" where
  "resolveSessionPath wd cwd0 rel0 =
     (let cw = Clean cwd0;
          rel = TrimSpace (FromSlash rel0)
      in if IsAbs rel then Inl AbsolutePath
         else
           let fullp = Clean (Join2 cw rel)
           in (case Abs wd cw of
                 None \<Rightarrow> Inl ResolveCwd
               | Some cwdAbs \<Rightarrow>
                  (case Abs wd fullp of
                     None \<Rightarrow> Inl ResolvePath
                   | Some fullAbs \<Rightarrow>
                      (case Rel cwdAbs fullAbs of
                         None \<Rightarrow> Inl EscapesCwd
                       | Some rel2 \<Rightarrow>
                           if HasPrefix rel2 ''..'' then Inl EscapesCwd else Inr fullAbs))))"

definition relativeToCWD :: "string \<Rightarrow> string \<Rightarrow> string" where
  "relativeToCWD cw fullp =
     (case Rel cw fullp of
        None \<Rightarrow> []
      | Some rel \<Rightarrow> if rel = ''.'' then [] else ToSlash rel)"

section \<open>Text\<close>

text \<open>\<^verbatim>\<open>utf16.Decode\<close>: a high surrogate followed by a low one is one code point, any other
  surrogate is the replacement character.\<close>

fun utf16_Decode :: "u16 list \<Rightarrow> nat list" where
  "utf16_Decode [] = []"
| "utf16_Decode [u] =
     (let r = unat u in if r < 0xd800 \<or> 0xe000 \<le> r then [r] else [0xfffd])"
| "utf16_Decode (u # v # us) =
     (let r = unat u; q = unat v
      in if r < 0xd800 \<or> 0xe000 \<le> r then r # utf16_Decode (v # us)
         else if r < 0xdc00 \<and> 0xdc00 \<le> q \<and> q < 0xe000
         then ((r - 0xd800) * 0x400 + (q - 0xdc00) + 0x10000) # utf16_Decode us
         else 0xfffd # utf16_Decode (v # us))"

text \<open>The UTF-8 encoding of a code point, as a conversion of runes to a string makes it.\<close>

definition utf8_rune :: "nat \<Rightarrow> bytes" where
  "utf8_rune r =
     (if r < 0x80 then [of_nat r]
      else if r < 0x800 then [of_nat (0xC0 + r div 0x40), of_nat (0x80 + r mod 0x40)]
      else if r < 0x10000
      then [of_nat (0xE0 + r div 0x1000), of_nat (0x80 + r div 0x40 mod 0x40), of_nat (0x80 + r mod 0x40)]
      else [of_nat (0xF0 + r div 0x40000), of_nat (0x80 + r div 0x1000 mod 0x40),
            of_nat (0x80 + r div 0x40 mod 0x40), of_nat (0x80 + r mod 0x40)])"

text \<open>The loop over pairs of bytes; an odd byte at the end is cut off first.\<close>

fun units_of :: "bool \<Rightarrow> bytes \<Rightarrow> u16 list" where
  "units_of big (hi # lo # bs) =
     (if big then (push_bit 8 (ucast hi)) OR (ucast lo) else (push_bit 8 (ucast lo)) OR (ucast hi)) # units_of big bs"
| "units_of big _ = []"

definition utf16ToUTF8 :: "bytes \<Rightarrow> bool \<Rightarrow> bytes" where
  "utf16ToUTF8 raw big =
     (let raw' = (if length raw mod 2 \<noteq> 0 then take (length raw - 1) raw else raw)
      in concat (map utf8_rune (utf16_Decode (units_of big raw'))))"

definition normaliseTextEncoding :: "bytes \<Rightarrow> string \<times> bytes" where
  "normaliseTextEncoding raw =
     (if length raw \<ge> 3 \<and> raw ! 0 = 0xEF \<and> raw ! 1 = 0xBB \<and> raw ! 2 = 0xBF
      then (''utf-8-bom'', drop 3 raw)
      else if length raw \<ge> 2 \<and> raw ! 0 = 0xFF \<and> raw ! 1 = 0xFE
      then (''utf-16-le'', utf16ToUTF8 (drop 2 raw) False)
      else if length raw \<ge> 2 \<and> raw ! 0 = 0xFE \<and> raw ! 1 = 0xFF
      then (''utf-16-be'', utf16ToUTF8 (drop 2 raw) True)
      else (''utf-8'', raw))"

section \<open>Requests\<close>

definition MaxFileReadBytes :: int where
  "MaxFileReadBytes = 4 * 2 ^ 20"

record FileInfo =
  fi_Name :: string
  fi_IsDir :: bool
  fi_Info :: "(int \<times> int) option"

record FileEntry =
  fe_Name :: string
  fe_Path :: string
  fe_IsDir :: bool
  fe_Size :: int
  fe_ModifiedUnixMs :: int

record PTYHandle =
  ph_Handle :: string
  ph_Command :: string
  ph_Attached :: bool
  ph_AttachedCount :: u32
  ph_Cwd :: string
  ph_LastSeenUnixMs :: int

datatype files_err = PtyNotFound | NoCwd | PathError path_err | OsError string | IsDirectory | UnknownKind

datatype FilesRequest =
    GetSessionReq int
  | ListFilesReq int string
  | ReadFileReq int string int
  | ListPTYsReq
  | KillPTYReq string
  | NoKind

datatype FilesResponse =
    FilesError files_err
  | GetSessionResp string
  | ListFilesResp string "FileEntry list"
  | ReadFileResp bytes string int bool
  | ListPTYsResp "PTYHandle list"
  | KillPTYResp bool

text \<open>The operating system: what \<^verbatim>\<open>ReadDir\<close>, \<^verbatim>\<open>Stat\<close> (is it a directory, how large) and
  \<^verbatim>\<open>ReadFile\<close> return, and the working directory. The information on a directory entry is its
  size and its modification time in milliseconds.\<close>

record fs =
  getwd :: "string option"
  ReadDir :: "string \<Rightarrow> string + FileInfo list"
  Stat :: "string \<Rightarrow> string + (bool \<times> int)"
  ReadFile :: "string \<Rightarrow> string + bytes"

definition handleListPTYs :: "'k Manager \<Rightarrow> string \<Rightarrow> FilesResponse" where
  "handleListPTYs mgr own =
     ListPTYsResp (map (\<lambda>l. \<lparr>ph_Handle = lHandle l, ph_Command = lCommand l, ph_Attached = lAttachedCount l > 0,
        ph_AttachedCount = lAttachedCount l, ph_Cwd = lCWD l, ph_LastSeenUnixMs = lLastSeenMs l\<rparr>) (Manager_List mgr own))"

definition handleKillPTY :: "'k Manager \<Rightarrow> string \<Rightarrow> string \<Rightarrow> 'k Manager \<times> FilesResponse" where
  "handleKillPTY mgr own h = (Drop mgr own h, KillPTYResp True)"

definition handleGetSession :: "'k Manager \<Rightarrow> ptyRegistry \<Rightarrow> int \<Rightarrow> FilesResponse" where
  "handleGetSession mgr reg i =
     (case reg_Get reg i of
        None \<Rightarrow> FilesError PtyNotFound
      | Some s \<Rightarrow> GetSessionResp (cwd (heap mgr s)))"

definition entry_of :: "string \<Rightarrow> FileInfo \<Rightarrow> FileEntry" where
  "entry_of path e =
     \<lparr>fe_Name = fi_Name e, fe_Path = ToSlash (Join2 path (fi_Name e)), fe_IsDir = fi_IsDir e,
      fe_Size = (case fi_Info e of None \<Rightarrow> 0 | Some (sz, _) \<Rightarrow> sz),
      fe_ModifiedUnixMs = (case fi_Info e of None \<Rightarrow> 0 | Some (_, ms) \<Rightarrow> ms)\<rparr>"

definition handleListFiles :: "fs \<Rightarrow> 'k Manager \<Rightarrow> ptyRegistry \<Rightarrow> int \<Rightarrow> string \<Rightarrow> FilesResponse" where
  "handleListFiles os mgr reg i path =
     (case reg_Get reg i of
        None \<Rightarrow> FilesError PtyNotFound
      | Some s \<Rightarrow>
          let cw = cwd (heap mgr s)
          in if cw = [] then FilesError NoCwd
             else
              (case resolveSessionPath (getwd os) cw path of
                 Inl e \<Rightarrow> FilesError (PathError e)
               | Inr resolved \<Rightarrow>
                  (case ReadDir os resolved of
                     Inl e \<Rightarrow> FilesError (OsError e)
                   | Inr es \<Rightarrow> ListFilesResp (relativeToCWD cw resolved) (map (entry_of path) es))))"

definition handleReadFile :: "fs \<Rightarrow> 'k Manager \<Rightarrow> ptyRegistry \<Rightarrow> int \<Rightarrow> string \<Rightarrow> int \<Rightarrow> FilesResponse" where
  "handleReadFile os mgr reg i path maxBytes =
     (case reg_Get reg i of
        None \<Rightarrow> FilesError PtyNotFound
      | Some s \<Rightarrow>
          let cw = cwd (heap mgr s)
          in if cw = [] then FilesError NoCwd
             else
              (case resolveSessionPath (getwd os) cw path of
                 Inl e \<Rightarrow> FilesError (PathError e)
               | Inr resolved \<Rightarrow>
                  (case Stat os resolved of
                     Inl e \<Rightarrow> FilesError (OsError e)
                   | Inr (isDir, sz) \<Rightarrow>
                       if isDir then FilesError IsDirectory
                       else
                         let mx = (if maxBytes \<le> 0 \<or> maxBytes > MaxFileReadBytes then MaxFileReadBytes else maxBytes)
                         in (case ReadFile os resolved of
                               Inl e \<Rightarrow> FilesError (OsError e)
                             | Inr raw \<Rightarrow>
                                (case normaliseTextEncoding raw of
                                   (enc, text) \<Rightarrow>
                                     if int (length text) > mx
                                     then ReadFileResp (take (nat mx) text) enc sz True
                                     else ReadFileResp text enc sz False)))))"

definition serveFilesStream ::
  "fs \<Rightarrow> 'k Manager \<Rightarrow> ptyRegistry \<Rightarrow> string \<Rightarrow> FilesRequest \<Rightarrow> 'k Manager \<times> FilesResponse" where
  "serveFilesStream os mgr reg own req =
     (case req of
        GetSessionReq i \<Rightarrow> (mgr, handleGetSession mgr reg i)
      | ListFilesReq i path \<Rightarrow> (mgr, handleListFiles os mgr reg i path)
      | ReadFileReq i path mx \<Rightarrow> (mgr, handleReadFile os mgr reg i path mx)
      | ListPTYsReq \<Rightarrow> (mgr, handleListPTYs mgr own)
      | KillPTYReq h \<Rightarrow> handleKillPTY mgr own h
      | NoKind \<Rightarrow> (mgr, FilesError UnknownKind))"

section \<open>Confinement\<close>

lemma Abs_abs: "IsAbs p \<Longrightarrow> Abs wd p = Some (Clean p)"
  by (simp add: Abs_def)

lemma IsAbs_append: "IsAbs a \<Longrightarrow> IsAbs (a @ b)"
  by (auto simp: IsAbs_def HasPrefix_iff)

lemma Join2_abs:
  assumes "IsAbs a"
  shows "Join2 a b = Clean (a @ CHR ''/'' # b)" "IsAbs (Join2 a b)"
  using assms IsAbs_Clean [OF IsAbs_append [OF assms]] by (auto simp: Join2_def IsAbs_def HasPrefix_def)

text \<open>For an absolute working directory the result, if any, is a clean path below it.\<close>

lemma resolve_inside:
  assumes "IsAbs c" and "resolveSessionPath wd c rel = Inr p"
  shows "IsAbs p" "Clean p = p" "\<exists>rest. comps p = abs_comps c @ rest" "\<forall>d \<in> set (comps p). plain d"
proof -
  let ?rel = "TrimSpace (FromSlash rel)"
  let ?full = "Clean (Join2 (Clean c) ?rel)"
  have c: "IsAbs (Clean c)" by (rule IsAbs_Clean [OF assms(1)])
  have fp: "IsAbs ?full" by (rule IsAbs_Clean [OF Join2_abs(2) [OF c]])
  have p: "p = Clean ?full" and "\<exists>r. Rel (Clean (Clean c)) (Clean ?full) = Some r \<and> \<not> HasPrefix r ''..''"
    using assms(2) unfolding resolveSessionPath_def Let_def Abs_abs [OF c] Abs_abs [OF fp]
    by (auto split: if_splits option.splits)
  then obtain rest where "abs_comps (Clean ?full) = abs_comps (Clean (Clean c)) @ rest"
    using Rel_inside [OF IsAbs_Clean [OF c] IsAbs_Clean [OF fp]] by blast
  then have "comps p = abs_comps c @ rest"
    by (simp add: p comps_Clean_abs [OF fp] abs_comps_Clean [OF fp] abs_comps_Clean [OF c] abs_comps_Clean [OF assms(1)])
  then show "\<exists>rest. comps p = abs_comps c @ rest" by blast
  show "IsAbs p" by (simp add: p IsAbs_Clean [OF fp])
  show "Clean p = p" by (simp add: p Clean_idem_abs [OF fp])
  show "\<forall>d \<in> set (comps p). plain d" using abs_comps_plain by (simp add: p comps_Clean_abs [OF fp])
qed


definition below :: "string \<Rightarrow> string \<Rightarrow> bool" where
  "below c p \<longleftrightarrow> IsAbs p \<and> Clean p = p \<and> take (length (abs_comps c)) (comps p) = abs_comps c \<and> list_all plain (comps p)"

lemma resolve_below: "IsAbs c \<Longrightarrow> resolveSessionPath wd c rel = Inr p \<Longrightarrow> below c p"
  using resolve_inside [of c wd rel p] by (auto simp: below_def list_all_iff)

text \<open>Two file systems that agree on everything below a directory, and the directories the
  terminals of a registry report.\<close>

definition agree_below :: "fs \<Rightarrow> fs \<Rightarrow> string \<Rightarrow> bool" where
  "agree_below os os' c \<longleftrightarrow> getwd os = getwd os' \<and>
     (\<forall>p. below c p \<longrightarrow> ReadDir os p = ReadDir os' p \<and> Stat os p = Stat os' p \<and> ReadFile os p = ReadFile os' p)"

lemma agree_belowD:
  assumes "agree_below os os' c" "IsAbs c" "resolveSessionPath wd c rel = Inr p"
  shows "ReadDir os p = ReadDir os' p" "Stat os p = Stat os' p" "ReadFile os p = ReadFile os' p"
  using assms resolve_below by (auto simp: agree_below_def)


section \<open>What is accepted\<close>

text \<open>A plain name that has no white space around it is resolved to the entry of that name in
  the working directory, unless it starts with two dots: a file called \<^verbatim>\<open>..cache\<close> does not leave
  the directory and is rejected like one that does.\<close>

theorem plain_name_resolution:
  assumes "plain n" and "TrimSpace n = n" and "IsAbs c"
  shows "resolveSessionPath wd c n =
           (if HasPrefix n ''..'' then Inl EscapesCwd else Inr (CHR ''/'' # join_slash (abs_comps c @ [n])))"
proof -
  let ?full = "Clean (Join2 (Clean c) n)"
  have c: "IsAbs (Clean c)" by (rule IsAbs_Clean [OF assms(3)])
  have fp: "IsAbs ?full" by (rule IsAbs_Clean [OF Join2_abs(2) [OF c]])
  have n: "\<not> IsAbs n" using assms(1) by (cases n) (auto simp: plain_def name_ok_def IsAbs_def HasPrefix_def)
  have app: "IsAbs (Clean c @ CHR ''/'' # n)" by (rule IsAbs_append [OF c])
  have "comps n = [n]" using assms(1) comps_join [of "[n]"] plain_name_ok by fastforce
  then have ac: "abs_comps (Clean c @ CHR ''/'' # n) = abs_comps c @ [n]"
    using assms(1) abs_comps_plain [of c]
    by (simp add: abs_comps_def [of "Clean c @ CHR ''/'' # n"] comps_append comps_Clean_abs [OF assms(3)] clean_comps_plain)
  have full_ac: "abs_comps ?full = abs_comps c @ [n]"
    by (simp add: Join2_abs(1) [OF c] abs_comps_Clean [OF app] abs_comps_Clean [OF IsAbs_Clean [OF app]] ac)
  then have "Rel (Clean (Clean c)) (Clean ?full) = Some (join_slash [n])"
    by (intro Rel_below IsAbs_Clean c fp)
       (simp_all add: abs_comps_Clean [OF fp] abs_comps_Clean [OF c] abs_comps_Clean [OF assms(3)])
  moreover have "Clean ?full = CHR ''/'' # join_slash (abs_comps c @ [n])"
    by (simp add: Clean_abs [OF fp] full_ac)
  ultimately show ?thesis
    using n assms(2) unfolding resolveSessionPath_def Let_def FromSlash_def
    by (simp add: Abs_abs [OF c] Abs_abs [OF fp])
qed

section \<open>Text files\<close>

text \<open>UTF-16 as the standard defines it: the code units of a scalar value and their bytes.\<close>

definition scalar :: "nat \<Rightarrow> bool" where
  "scalar r \<longleftrightarrow> r < 0xd800 \<or> 0xe000 \<le> r \<and> r < 0x110000"

definition utf16_units :: "nat \<Rightarrow> u16 list" where
  "utf16_units r =
     (if r < 0x10000 then [of_nat r]
      else [of_nat (0xd800 + (r - 0x10000) div 0x400), of_nat (0xdc00 + (r - 0x10000) mod 0x400)])"

definition unit_bytes :: "bool \<Rightarrow> u16 \<Rightarrow> bytes" where
  "unit_bytes big u =
     (if big then [ucast (drop_bit 8 u), ucast u] else [ucast u, ucast (drop_bit 8 u)])"

lemma unit_join: "push_bit 8 (ucast (ucast (drop_bit 8 u) :: byte)) OR ucast (ucast u :: byte) = (u :: u16)"
  by (rule bit_word_eqI) (auto simp: bit_simps)

lemma units_of_bytes: "units_of big (concat (map (unit_bytes big) us)) = us"
  by (induction us) (auto simp: unit_bytes_def unit_join)

lemma even_unit_bytes: "even (length (concat (map (unit_bytes big) us)))"
  by (induction us) (auto simp: unit_bytes_def)

lemma unat_u16: "n < 0x10000 \<Longrightarrow> unat (of_nat n :: u16) = n"
  by (simp add: unat_of_nat take_bit_nat_def)

lemma utf16_Decode_unit:
  "r < 0xd800 \<or> 0xe000 \<le> r \<and> r < 0x10000 \<Longrightarrow> utf16_Decode ((of_nat r :: u16) # us) = r # utf16_Decode us"
  by (cases us) (auto simp: unat_u16)

lemma utf16_Decode_pair:
  assumes "0x10000 \<le> r" and "r < 0x110000"
  shows "utf16_Decode (utf16_units r @ us) = r # utf16_Decode us"
proof -
  let ?h = "0xd800 + (r - 0x10000) div 0x400" and ?l = "0xdc00 + (r - 0x10000) mod 0x400"
  have h: "unat (of_nat ?h :: u16) = ?h" and l: "unat (of_nat ?l :: u16) = ?l"
    by (rule unat_u16, use assms in linarith)+
  have "?h < 0xdc00" "0xd800 \<le> ?h" "0xdc00 \<le> ?l" "?l < 0xe000" using assms by auto
  moreover have "(?h - 0xd800) * 0x400 + (?l - 0xdc00) + 0x10000 = r" using assms by simp
  moreover have "utf16_units r = [of_nat ?h, of_nat ?l]" using assms by (simp only: utf16_units_def) simp
  ultimately show ?thesis by (simp only: append.simps utf16_Decode.simps Let_def h l) simp
qed

lemma utf16_Decode_units: "list_all scalar rs \<Longrightarrow> utf16_Decode (concat (map utf16_units rs)) = rs"
proof (induction rs)
  case (Cons r rs)
  then have "scalar r" by simp
  then have "utf16_Decode (utf16_units r @ us) = r # utf16_Decode us" for us
    using utf16_Decode_pair [of r us] utf16_Decode_unit [of r us]
    by (cases "r < 0x10000") (auto simp: scalar_def utf16_units_def)
  with Cons show ?case by simp
qed simp

definition utf16_file :: "bool \<Rightarrow> nat list \<Rightarrow> bytes" where
  "utf16_file big rs = concat (map (unit_bytes big) (0xFEFF # concat (map utf16_units rs)))"

text \<open>A UTF-16 file with a byte order mark, of either byte order, is returned as the UTF-8
  encoding of the characters it stands for.\<close>

theorem utf16_text_normalised:
  assumes "list_all scalar rs"
  shows "normaliseTextEncoding (utf16_file big rs) =
           (if big then ''utf-16-be'' else ''utf-16-le'', concat (map utf8_rune rs))"
proof -
  let ?body = "concat (map (unit_bytes big) (concat (map utf16_units rs)))"
  have "utf16_file big rs = (if big then [0xFE, 0xFF] else [0xFF, 0xFE]) @ ?body"
    by (simp add: utf16_file_def unit_bytes_def)
  moreover have "utf16ToUTF8 ?body big = concat (map utf8_rune rs)"
    using even_unit_bytes [of big "concat (map utf16_units rs)"]
    by (simp add: utf16ToUTF8_def Let_def units_of_bytes utf16_Decode_units [OF assms] even_iff_mod_2_eq_zero)
  ultimately show ?thesis by (cases big) (auto simp: normaliseTextEncoding_def)
qed

lemma byte_reduce: "(0xFEFF :: byte) = 0xFF" "(0xD83D :: byte) = 0x3D" "(0xDE00 :: byte) = 0"
  by (simp_all add: word_eq_iff_unsigned)

theorem utf16_text_normalised_witness:
  "normaliseTextEncoding [0xFF, 0xFE, 0x41, 0x00, 0x3D, 0xD8, 0x00, 0xDE]
     = (''utf-16-le'', [0x41, 0xF0, 0x9F, 0x98, 0x80])"
proof -
  have "utf16_file False [0x41, 0x1F600] = [0xFF, 0xFE, 0x41, 0x00, 0x3D, 0xD8, 0x00, 0xDE]"
    and "concat (map utf8_rune [0x41, 0x1F600]) = [0x41, 0xF0, 0x9F, 0x98, 0x80]"
    by (simp_all add: utf16_file_def unit_bytes_def utf16_units_def utf8_rune_def drop_bit_eq_div byte_reduce)
  then show ?thesis using utf16_text_normalised [of "[0x41, 0x1F600]" False] by (simp add: scalar_def)
qed


section \<open>An example\<close>

definition demo_fs :: "byte \<Rightarrow> fs" where
  "demo_fs secret =
     \<lparr>getwd = None, ReadDir = (\<lambda>p. Inl ''not a directory''), Stat = (\<lambda>p. Inr (False, 2)),
      ReadFile = (\<lambda>p. if HasPrefix p ''/w'' then Inr [0x68, 0x69] else Inr [secret])\<rparr>"

definition demo_shell :: "unit Manager" where
  "demo_shell = NewManager (\<lambda>i. (Open 80 24)\<lparr>cwd := ''/w''\<rparr>)"

lemma demo_resolve: "resolveSessionPath None ''/w'' '' ./a '' = Inr ''/w/a''"
  by code_simp

lemma demo_read:
  "handleReadFile (demo_fs b) demo_shell [(1, 0)] 1 '' ./a '' 1 = ReadFileResp [0x68] ''utf-8'' 2 True"
  using demo_resolve by (simp add: demo_fs_def demo_shell_def NewManager_def handleReadFile_def reg_Get_def
      normaliseTextEncoding_def Let_def MaxFileReadBytes_def HasPrefix_def)

lemma demo_agree: "agree_below (demo_fs b) (demo_fs b') ''/w''"
proof -
  have "HasPrefix p ''/w''" if "below ''/w'' p" for p
  proof -
    have "abs_comps ''/w'' = [''w'']" by code_simp
    with that have "comps p = ''w'' # tl (comps p)" and p: "IsAbs p" "Clean p = p"
      by (auto simp: below_def) (metis list.collapse list.sel(1) take_Suc list.inject take_eq_Nil2 list.distinct(1))
    then obtain rest where "abs_comps p = ''w'' # rest" using comps_Clean_abs [OF p(1)] by metis
    then have "p = CHR ''/'' # join_slash (''w'' # rest)" using Clean_abs [OF p(1)] p(2) by simp
    then show ?thesis by (cases rest) (simp_all add: HasPrefix_def)
  qed
  then show ?thesis by (simp add: agree_below_def demo_fs_def)
qed


theorem plain_name_resolution_witness:
  "resolveSessionPath None ''/w'' ''..cache'' = Inl EscapesCwd
   \<and> resolveSessionPath None ''/w'' ''a.txt'' = Inr ''/w/a.txt''"
proof -
  have "abs_comps ''/w'' = [''w'']" by code_simp
  moreover have "TrimSpace ''..cache'' = ''..cache''" "TrimSpace ''a.txt'' = ''a.txt''"
    by (rule TrimSpace_visible; simp add: visible_def)+
  ultimately show ?thesis
    using plain_name_resolution [of "''..cache''" "''/w''" None] plain_name_resolution [of "''a.txt''" "''/w''" None]
    by (simp add: plain_def name_ok_def IsAbs_def HasPrefix_def)
qed


end
