(* ===== verification/Notify.thy ===== *)
theory Notify
  imports Cwd_Tracker
begin

text \<open>
  \<^verbatim>\<open>windows/cmd/peershd/notify.go\<close>: when a terminal tells the phone that a command has finished.
  A state machine per terminal stream, fed with the input, the output and a ticker; the clock
  is an argument and a notification is a value. Seconds come as 32-bit numbers from the phone,
  so no duration overflows.
\<close>

definition notifyCooldown :: duration where
  "notifyCooldown = 5 * second"

definition notifyDefaultThreshold :: duration where
  "notifyDefaultThreshold = 10 * second"

record PTYNotificationConfig =
  Enabled :: bool
  ThresholdSeconds :: u32
  IdleSeconds :: u32
  MobileDeviceId :: string
  TabLabel :: string

record ptyNotifyState =
  ptyID :: int
  cwdt :: CWDTracker
  n_cfg :: "PTYNotificationConfig option"
  lastInputAt :: time
  lastOutputAt :: time
  commandRunning :: bool
  lastFiredAt :: time

datatype reason = Prompt | Idle

text \<open>What \<^verbatim>\<open>maybeFire\<close> hands to the dispatching goroutine.\<close>

record fire =
  f_mobile :: string
  f_label :: string
  f_reason :: reason
  f_duration :: duration

definition newPTYNotifyState :: "int \<Rightarrow> ptyNotifyState" where
  "newPTYNotifyState i =
     \<lparr>ptyID = i, cwdt = NewCWDTracker, n_cfg = None, lastInputAt = 0, lastOutputAt = 0, commandRunning = False,
      lastFiredAt = 0\<rparr>"

definition setConfig :: "ptyNotifyState \<Rightarrow> PTYNotificationConfig option \<Rightarrow> ptyNotifyState" where
  "setConfig s cfg = s\<lparr>n_cfg := cfg\<rparr>"

definition onInput :: "ptyNotifyState \<Rightarrow> time \<Rightarrow> ptyNotifyState" where
  "onInput s now = s\<lparr>lastInputAt := now, commandRunning := True\<rparr>"

definition maybeFire :: "ptyNotifyState \<Rightarrow> reason \<Rightarrow> time \<Rightarrow> ptyNotifyState \<times> fire option" where
  "maybeFire s why now =
     (case n_cfg s of
        None \<Rightarrow> (s, None)
      | Some cfg \<Rightarrow>
          if \<not> Enabled cfg then (s, None)
          else if MobileDeviceId cfg = [] then (s, None)
          else if \<not> commandRunning s then (s, None)
          else if lastFiredAt s \<noteq> 0 \<and> time_sub now (lastFiredAt s) < notifyCooldown then (s, None)
          else
            let threshold0 = int (unat (ThresholdSeconds cfg)) * second;
                threshold = (if threshold0 = 0 then notifyDefaultThreshold else threshold0);
                idleWindow = int (unat (IdleSeconds cfg)) * second;
                skip = (case why of
                          Prompt \<Rightarrow> time_sub now (lastInputAt s) < threshold
                        | Idle \<Rightarrow> idleWindow = 0 \<or> time_sub now (lastOutputAt s) < idleWindow)
            in if skip then (s, None)
               else (s\<lparr>lastFiredAt := now, commandRunning := False\<rparr>,
                     Some \<lparr>f_mobile = MobileDeviceId cfg, f_label = TabLabel cfg, f_reason = why,
                           f_duration = time_sub now (lastInputAt s)\<rparr>))"

text \<open>\<^verbatim>\<open>onOutput\<close>: the two halves read the clock separately.\<close>

definition onOutput :: "ptyNotifyState \<Rightarrow> bytes \<Rightarrow> time \<Rightarrow> time \<Rightarrow> ptyNotifyState \<times> fire option" where
  "onOutput s data now now' =
     (if length data = 0 then (s, None)
      else
        let (t, paths) = Feed (cwdt s) data;
            s1 = s\<lparr>lastOutputAt := now, cwdt := t\<rparr>
        in if length paths = 0 then (s1, None) else maybeFire s1 Prompt now')"

definition formatBody :: "(int \<Rightarrow> string) \<Rightarrow> (duration \<Rightarrow> string) \<Rightarrow> (duration \<Rightarrow> string) \<Rightarrow> int \<Rightarrow> fire \<Rightarrow> string" where
  "formatBody itoa secs1 secs0 i f =
     (let label = (if f_label f = [] then ''pty '' @ itoa i else f_label f)
      in (case f_reason f of
            Prompt \<Rightarrow> label @ '': command finished ('' @ secs1 (f_duration f) @ ''s)''
          | Idle \<Rightarrow> label @ '': waiting for input ('' @ secs0 (f_duration f) @ ''s idle)''))"

record NotificationPayload =
  np_MobileDeviceID :: string
  np_HostDeviceID :: string
  np_Title :: string
  np_Body :: string
  np_DeepLink :: "(string \<times> string) list"

definition reason_text :: "reason \<Rightarrow> string" where
  "reason_text r = (case r of Prompt \<Rightarrow> ''prompt'' | Idle \<Rightarrow> ''idle'')"

definition dispatch_payload ::
  "(int \<Rightarrow> string) \<Rightarrow> (duration \<Rightarrow> string) \<Rightarrow> (duration \<Rightarrow> string) \<Rightarrow> string \<Rightarrow> string \<Rightarrow> int \<Rightarrow> fire \<Rightarrow> NotificationPayload" where
  "dispatch_payload itoa secs1 secs0 hostDeviceID hostName i f =
     \<lparr>np_MobileDeviceID = f_mobile f, np_HostDeviceID = hostDeviceID, np_Title = ''peersh: '' @ hostName,
      np_Body = formatBody itoa secs1 secs0 i f,
      np_DeepLink = [(''host_device_id'', hostDeviceID), (''pty_id'', itoa i), (''tab_label'', f_label f),
                     (''reason'', reason_text (f_reason f))]\<rparr>"

section \<open>Runs\<close>

datatype notify_ev = EvInput | EvOutput bytes | EvTick | EvConfig "PTYNotificationConfig option"

fun notify_step :: "ptyNotifyState \<Rightarrow> time \<times> notify_ev \<Rightarrow> ptyNotifyState \<times> (time \<times> fire) list" where
  "notify_step s (t, EvInput) = (onInput s t, [])"
| "notify_step s (t, EvConfig c) = (setConfig s c, [])"
| "notify_step s (t, EvTick) = (case maybeFire s Idle t of (s', r) \<Rightarrow> (s', case r of None \<Rightarrow> [] | Some f \<Rightarrow> [(t, f)]))"
| "notify_step s (t, EvOutput d) = (case onOutput s d t t of (s', r) \<Rightarrow> (s', case r of None \<Rightarrow> [] | Some f \<Rightarrow> [(t, f)]))"

fun notify_run :: "ptyNotifyState \<Rightarrow> (time \<times> notify_ev) list \<Rightarrow> (time \<times> fire) list" where
  "notify_run s [] = []"
| "notify_run s (e # es) = (case notify_step s e of (s', fs) \<Rightarrow> fs @ notify_run s' es)"

text \<open>What every notification rests on.\<close>

lemma maybeFire_Some:
  assumes "maybeFire s why now = (s', Some f)"
  shows "commandRunning s \<and> \<not> commandRunning s' \<and> lastFiredAt s' = now
    \<and> (lastFiredAt s \<noteq> 0 \<longrightarrow> time_sub now (lastFiredAt s) \<ge> notifyCooldown)
    \<and> (\<exists>cfg. n_cfg s = Some cfg \<and> Enabled cfg \<and> f_mobile f = MobileDeviceId cfg \<and> MobileDeviceId cfg \<noteq> [])"
  using assms by (auto simp: maybeFire_def Let_def split: option.splits if_splits)

lemma maybeFire_None: "maybeFire s why now = (s', None) \<Longrightarrow> s' = s"
  by (auto simp: maybeFire_def Let_def split: option.splits if_splits)

lemma onOutput_cases:
  assumes "onOutput s d t t = (s', r)"
  shows "\<exists>s1. commandRunning s1 = commandRunning s \<and> lastFiredAt s1 = lastFiredAt s \<and> n_cfg s1 = n_cfg s
     \<and> (r = None \<and> s' = s1 \<or> maybeFire s1 Prompt t = (s', r))"
proof (cases "length d = 0")
  case True
  then show ?thesis using assms by (auto simp: onOutput_def)
next
  case False
  obtain u paths where F: "Feed (cwdt s) d = (u, paths)" by fastforce
  let ?s1 = "s\<lparr>lastOutputAt := t, cwdt := u\<rparr>"
  have "length paths = 0 \<and> r = None \<and> s' = ?s1 \<or> maybeFire ?s1 Prompt t = (s', r)"
    using assms False by (auto simp: onOutput_def F Let_def split: if_splits)
  then show ?thesis by (intro exI [of _ ?s1]) auto
qed

lemma notify_step_fires:
  assumes "notify_step s (t, e) = (s', fs)"
  shows "(\<exists>f. fs = [(t, f)] \<and> commandRunning s \<and> \<not> commandRunning s' \<and> lastFiredAt s' = t
            \<and> (lastFiredAt s \<noteq> 0 \<longrightarrow> time_sub t (lastFiredAt s) \<ge> notifyCooldown))
       \<or> fs = [] \<and> lastFiredAt s' = lastFiredAt s \<and> (commandRunning s' \<longrightarrow> commandRunning s \<or> e = EvInput)"
proof (cases e)
  case EvTick
  then show ?thesis
    using assms maybeFire_Some [of s Idle t] maybeFire_None [of s Idle t]
    by (auto split: prod.splits option.splits)
next
  case (EvOutput d)
  obtain r where r: "onOutput s d t t = (s', r)" "fs = (case r of None \<Rightarrow> [] | Some f \<Rightarrow> [(t, f)])"
    using assms EvOutput by (auto split: prod.splits)
  obtain s1 where s1: "commandRunning s1 = commandRunning s" "lastFiredAt s1 = lastFiredAt s"
    "r = None \<and> s' = s1 \<or> maybeFire s1 Prompt t = (s', r)" using onOutput_cases [OF r(1)] by blast
  show ?thesis
  proof (cases r)
    case None
    then have "s' = s1" using s1(3) maybeFire_None [of s1 Prompt t s'] by auto
    then show ?thesis using None r(2) s1 by simp
  next
    case (Some f)
    then show ?thesis using s1 r(2) maybeFire_Some [of s1 Prompt t s' f] by simp
  qed
qed (use assms in \<open>auto simp: onInput_def setConfig_def\<close>)


lemma time_sub_ge: "time_sub t u \<ge> notifyCooldown \<Longrightarrow> t - u \<ge> notifyCooldown"
  by (auto simp: time_sub_def notifyCooldown_def second_def minDuration_def)

lemma notify_run_spaced:
  assumes "\<forall>e \<in> set es. fst e \<noteq> 0"
  shows "(lastFiredAt s \<noteq> 0 \<longrightarrow> (\<forall>x \<in> set (notify_run s es). fst x - lastFiredAt s \<ge> notifyCooldown))
    \<and> sorted_wrt (\<lambda>x y. fst y - fst x \<ge> notifyCooldown) (notify_run s es)
    \<and> length (notify_run s es) \<le> length (filter (\<lambda>e. snd e = EvInput) es) + (if commandRunning s then 1 else 0)"
  using assms
proof (induction es arbitrary: s)
  case (Cons e es)
  obtain t ev s' fs where e: "e = (t, ev)" and st: "notify_step s (t, ev) = (s', fs)" by fastforce
  have t: "t \<noteq> 0" using Cons.prems e by simp
  note IH = Cons.IH [of s'] and run = st e
  have run: "notify_run s (e # es) = fs @ notify_run s' es" using st e by simp
  from notify_step_fires [OF st] show ?case
  proof
    assume "\<exists>f. fs = [(t, f)] \<and> commandRunning s \<and> \<not> commandRunning s' \<and> lastFiredAt s' = t
            \<and> (lastFiredAt s \<noteq> 0 \<longrightarrow> time_sub t (lastFiredAt s) \<ge> notifyCooldown)"
    then obtain f where f: "fs = [(t, f)]" "commandRunning s" "\<not> commandRunning s'" "lastFiredAt s' = t"
      and gap: "lastFiredAt s \<noteq> 0 \<longrightarrow> t - lastFiredAt s \<ge> notifyCooldown" using time_sub_ge by blast
    have later: "\<forall>x \<in> set (notify_run s' es). fst x - t \<ge> notifyCooldown" using IH Cons.prems f(4) t by simp
    have "notifyCooldown > 0" by (simp add: notifyCooldown_def second_def)
    with later gap have "lastFiredAt s \<noteq> 0 \<longrightarrow> (\<forall>x \<in> set (notify_run s' es). fst x - lastFiredAt s \<ge> notifyCooldown)"
      by force
    then show ?thesis unfolding run using IH Cons.prems f later gap by simp
  next
    assume "fs = [] \<and> lastFiredAt s' = lastFiredAt s \<and> (commandRunning s' \<longrightarrow> commandRunning s \<or> ev = EvInput)"
    then show ?thesis unfolding run using IH Cons.prems e by (auto split: if_splits)
  qed
qed simp

text \<open>Whatever a terminal prints and however often the phone writes, its notifications are at
  least five seconds apart, and there is at most one for each input.\<close>

theorem notifications_rate_limited:
  assumes "\<forall>e \<in> set es. fst e \<noteq> 0"
  shows "sorted_wrt (\<lambda>x y. fst y - fst x \<ge> notifyCooldown) (notify_run (newPTYNotifyState i) es)
    \<and> length (notify_run (newPTYNotifyState i) es) \<le> length (filter (\<lambda>e. snd e = EvInput) es)"
  using notify_run_spaced [OF assms, of "newPTYNotifyState i"] by (simp add: newPTYNotifyState_def)

theorem notifications_rate_limited_witness:
  "length (notify_run (newPTYNotifyState 1) [(1, EvInput), (2, EvTick)]) \<le> 1"
  using notifications_rate_limited [of "[(1, EvInput), (2, EvTick)]" 1] by simp

end
