(* ===== verification/Pwsh_Manager.thy ===== *)
theory Pwsh_Manager
  imports Peersh_Prelude
begin

text \<open>
  \<^verbatim>\<open>windows/pwsh/manager.go\<close>: PowerShell hosts that outlive the connection that started them. A
  host is an operating system process; the model names it by a number and records which ones
  \<^verbatim>\<open>Close\<close> was called on. Starting a host, the random id and the clock are arguments.
\<close>

definition DefaultIdleTimeout :: duration where
  "DefaultIdleTimeout = 24 * hour"

definition MinIdleTimeout :: duration where
  "MinIdleTimeout = 1 * minute"

definition MaxIdleTimeout :: duration where
  "MaxIdleTimeout = 7 * 24 * hour"

definition ClampIdleTimeoutSec :: "u32 \<Rightarrow> duration" where
  "ClampIdleTimeoutSec sec =
     (if sec = 0 then 0
      else let d = int (unat sec) * second
           in if d < MinIdleTimeout then MinIdleTimeout
              else if d > MaxIdleTimeout then MaxIdleTimeout
              else d)"

record managedSession =
  host :: nat
  attached :: bool
  lastActivity :: time
  idleTimeout :: duration

record SessionManager =
  pw_sessions :: "(string, managedSession) gomap"
  pw_timeout :: duration
  pw_closed :: bool
  closed_hosts :: "nat list"

datatype pwsh_err = SessionManagerClosed | StartFailed

definition NewSessionManager :: SessionManager where
  "NewSessionManager = \<lparr>pw_sessions = [], pw_timeout = DefaultIdleTimeout, pw_closed = False, closed_hosts = []\<rparr>"

definition pw_SetIdleTimeout :: "SessionManager \<Rightarrow> duration \<Rightarrow> SessionManager" where
  "pw_SetIdleTimeout m d = m\<lparr>pw_timeout := d\<rparr>"

definition expiredLocked :: "managedSession \<Rightarrow> time \<Rightarrow> duration \<Rightarrow> bool" where
  "expiredLocked s now limit = (if attached s then False else time_sub now (lastActivity s) > limit)"

definition effectiveTimeoutLocked :: "SessionManager \<Rightarrow> managedSession \<Rightarrow> duration" where
  "effectiveTimeoutLocked m s = (if idleTimeout s > 0 then idleTimeout s else pw_timeout m)"

text \<open>\<^verbatim>\<open>newSessionID\<close>: ten random bytes, or the clock in decimal when the random source fails.\<close>

fun decimal :: "nat \<Rightarrow> string" where
  "decimal n = (if n < 10 then [char_of (48 + n)] else decimal (n div 10) @ [char_of (48 + n mod 10)])"

declare decimal.simps [simp del]

definition newSessionID :: "bytes option \<Rightarrow> nat \<Rightarrow> string" where
  "newSessionID rnd unix_nano =
     (case rnd of
        Some b \<Rightarrow> base32_encode b
      | None \<Rightarrow> let ds = decimal unix_nano in ''FALLBACK'' @ replicate (10 - length ds) CHR ''0'' @ ds)"

text \<open>The first half of \<^verbatim>\<open>AttachOrCreate\<close>, under the lock: the session if it is there and has
  not expired.\<close>

definition attach_existing ::
  "SessionManager \<Rightarrow> string \<Rightarrow> duration \<Rightarrow> time \<Rightarrow> (SessionManager \<times> nat) option" where
  "attach_existing m sid override now =
     (if sid = [] then None
      else
       (case gm_get (pw_sessions m) sid of
          None \<Rightarrow> None
        | Some s \<Rightarrow>
            if expiredLocked s now (effectiveTimeoutLocked m s) then None
            else Some (m\<lparr>pw_sessions := gm_put sid (s\<lparr>attached := True, lastActivity := now, idleTimeout := override\<rparr>)
                                        (pw_sessions m)\<rparr>, host s)))"

text \<open>The second half: a fresh host \<open>h\<close> under the id \<open>new\<close>.\<close>

definition create_session ::
  "SessionManager \<Rightarrow> nat option \<Rightarrow> string \<Rightarrow> duration \<Rightarrow> time
     \<Rightarrow> SessionManager \<times> (pwsh_err + (string \<times> nat \<times> bool))" where
  "create_session m started new override now =
     (case started of
        None \<Rightarrow> (m, Inl StartFailed)
      | Some h \<Rightarrow>
          if pw_closed m then (m\<lparr>closed_hosts := h # closed_hosts m\<rparr>, Inl SessionManagerClosed)
          else (m\<lparr>pw_sessions := gm_put new \<lparr>host = h, attached = True, lastActivity = now, idleTimeout = override\<rparr>
                                  (pw_sessions m)\<rparr>, Inr (new, h, False)))"

definition AttachOrCreate ::
  "SessionManager \<Rightarrow> string \<Rightarrow> u32 \<Rightarrow> nat option \<Rightarrow> string \<Rightarrow> time \<Rightarrow> time
     \<Rightarrow> SessionManager \<times> (pwsh_err + (string \<times> nat \<times> bool))" where
  "AttachOrCreate m sid sec started new now now' =
     (let override = ClampIdleTimeoutSec sec
      in if pw_closed m then (m, Inl SessionManagerClosed)
         else
          (case attach_existing m sid override now of
             Some (m', h) \<Rightarrow> (m', Inr (sid, h, True))
           | None \<Rightarrow> create_session m started new override now'))"

definition pw_Detach :: "SessionManager \<Rightarrow> string \<Rightarrow> time \<Rightarrow> SessionManager" where
  "pw_Detach m sid now =
     (case gm_get (pw_sessions m) sid of
        None \<Rightarrow> m
      | Some s \<Rightarrow> m\<lparr>pw_sessions := gm_put sid (s\<lparr>attached := False, lastActivity := now\<rparr>) (pw_sessions m)\<rparr>)"

definition pw_Sweep :: "SessionManager \<Rightarrow> time \<Rightarrow> SessionManager \<times> nat" where
  "pw_Sweep m now =
     (let gone = filter (\<lambda>(i, s). expiredLocked s now (effectiveTimeoutLocked m s)) (pw_sessions m)
      in (m\<lparr>pw_sessions := gm_retain (\<lambda>i s. \<not> expiredLocked s now (effectiveTimeoutLocked m s)) (pw_sessions m),
            closed_hosts := map (host \<circ> snd) gone @ closed_hosts m\<rparr>, length gone))"

definition pw_Close :: "SessionManager \<Rightarrow> SessionManager" where
  "pw_Close m =
     (if pw_closed m then m
      else m\<lparr>pw_closed := True, pw_sessions := [], closed_hosts := map (host \<circ> snd) (pw_sessions m) @ closed_hosts m\<rparr>)"

definition CountSessions :: "SessionManager \<Rightarrow> nat" where
  "CountSessions m = length (pw_sessions m)"

section \<open>Properties\<close>

text \<open>A client's idle preference is always within bounds: zero (the manager's default) or
  between one minute and seven days, and it is the requested value when that is within them; the
  multiplication to nanoseconds cannot overflow.\<close>

theorem clamp_idle_timeout:
  "(sec = 0 \<longrightarrow> ClampIdleTimeoutSec sec = 0)
   \<and> (sec \<noteq> 0 \<longrightarrow> MinIdleTimeout \<le> ClampIdleTimeoutSec sec \<and> ClampIdleTimeoutSec sec \<le> MaxIdleTimeout)
   \<and> (60 \<le> unat sec \<and> unat sec \<le> 7 * 24 * 3600 \<longrightarrow> ClampIdleTimeoutSec sec = int (unat sec) * second)
   \<and> int (unat sec) * second \<le> maxDuration"
proof -
  define n where "n = unat sec"
  have n: "n < 2 ^ 32" using unsigned_less [of sec, where ?'a = nat] by (simp add: n_def)
  have z: "sec = 0 \<longleftrightarrow> n = 0" by (simp add: n_def unat_eq_zero)
  show ?thesis
    unfolding ClampIdleTimeoutSec_def Let_def n_def [symmetric] z using n
    by (auto simp: MinIdleTimeout_def MaxIdleTimeout_def hour_def minute_def second_def maxDuration_def)
qed


lemma clamp_idle_timeout_witness: "ClampIdleTimeoutSec 90 = 90 * second"
  using clamp_idle_timeout [of 90] by simp

text \<open>Coming back. A client that returns with its session id before the idle limit gets the
  very same host, marked attached with its new idle preference; after the limit, or with an
  unknown or empty id, it gets a fresh host under a fresh id, and never somebody else's.\<close>

theorem reattach_same_host:
  assumes "AttachOrCreate m sid sec started new now now' = (m', Inr (sid', h, again))"
  shows "(again \<longrightarrow> sid' = sid \<and> sid \<noteq> [] \<and> (\<exists>s. gm_get (pw_sessions m) sid = Some s \<and> host s = h
            \<and> (attached s \<or> time_sub now (lastActivity s) \<le> effectiveTimeoutLocked m s)))
    \<and> (\<not> again \<longrightarrow> sid' = new \<and> started = Some h)
    \<and> gm_get (pw_sessions m') sid' = Some \<lparr>host = h, attached = True,
         lastActivity = (if again then now else now'), idleTimeout = ClampIdleTimeoutSec sec\<rparr>
    \<and> (k \<noteq> sid' \<longrightarrow> gm_get (pw_sessions m') k = gm_get (pw_sessions m) k)"
proof (cases "attach_existing m sid (ClampIdleTimeoutSec sec) now")
  case None
  with assms show ?thesis
    by (auto simp: AttachOrCreate_def create_session_def Let_def split: if_splits option.splits)
next
  case (Some mh)
  then obtain s where s: "sid \<noteq> []" "gm_get (pw_sessions m) sid = Some s" "\<not> expiredLocked s now (effectiveTimeoutLocked m s)"
      "mh = (m\<lparr>pw_sessions := gm_put sid (s\<lparr>attached := True, lastActivity := now, idleTimeout := ClampIdleTimeoutSec sec\<rparr>)
               (pw_sessions m)\<rparr>, host s)"
    by (auto simp: attach_existing_def split: if_splits option.splits)
  moreover have "attached s \<or> time_sub now (lastActivity s) \<le> effectiveTimeoutLocked m s"
    using s(3) by (auto simp: expiredLocked_def split: if_splits)
  ultimately show ?thesis
    using assms Some by (cases s) (auto simp: AttachOrCreate_def Let_def split: if_splits)
qed

lemma reattach_same_host_witness:
  "\<exists>m' h. AttachOrCreate (NewSessionManager\<lparr>pw_sessions :=
       [(''S'', \<lparr>host = 4, attached = False, lastActivity = 1, idleTimeout = 0\<rparr>)]\<rparr>) ''S'' 0 None ''T'' 5 5
     = (m', Inr (''S'', h, True)) \<and> h = 4"
proof -
  let ?m = "NewSessionManager\<lparr>pw_sessions := [(''S'', \<lparr>host = 4, attached = False, lastActivity = 1, idleTimeout = 0\<rparr>)]\<rparr>"
  obtain m' h where r: "AttachOrCreate ?m ''S'' 0 None ''T'' 5 5 = (m', Inr (''S'', h, True))"
    by (simp add: AttachOrCreate_def attach_existing_def NewSessionManager_def expiredLocked_def time_sub_def
        effectiveTimeoutLocked_def DefaultIdleTimeout_def hour_def minute_def second_def minDuration_def maxDuration_def)
  from reattach_same_host [OF r] r show ?thesis by auto
qed

text \<open>A session that two clients are attached to does not survive the first one leaving:
  \<^verbatim>\<open>attached\<close> is a flag, not a count, so after one \<^verbatim>\<open>Detach\<close> the idle clock runs although the other
  client is still there, and the sweep closes the host it is using.\<close>

theorem second_client_evicted:
  assumes "gm_get (pw_sessions m) sid = Some s" and "gomap_ok (pw_sessions m)"
    and "time_sub t2 t1 > effectiveTimeoutLocked m s"
  shows "gm_get (pw_sessions (fst (pw_Sweep (pw_Detach m sid t1) t2))) sid = None
    \<and> host s \<in> set (closed_hosts (fst (pw_Sweep (pw_Detach m sid t1) t2)))"
proof -
  let ?s = "s\<lparr>attached := False, lastActivity := t1\<rparr>" and ?m = "pw_Detach m sid t1"
  have m: "?m = m\<lparr>pw_sessions := gm_put sid ?s (pw_sessions m)\<rparr>" using assms(1) by (simp add: pw_Detach_def)
  have ok: "gomap_ok (pw_sessions ?m)" using assms(2) by (simp add: m)
  have get: "gm_get (pw_sessions ?m) sid = Some ?s" by (simp add: m)
  then have mem: "(sid, ?s) \<in> set (pw_sessions ?m)" using gm_get_in_set [OF ok] by simp
  have ex: "expiredLocked ?s t2 (effectiveTimeoutLocked ?m ?s)"
    using assms(3) by (auto simp: expiredLocked_def effectiveTimeoutLocked_def m split: if_splits)
  have "gm_get (pw_sessions (fst (pw_Sweep ?m t2))) sid = None"
    using gm_get_retain [OF ok, of "\<lambda>i s. \<not> expiredLocked s t2 (effectiveTimeoutLocked ?m s)" sid] get ex
    by (simp add: pw_Sweep_def Let_def)
  moreover have "host s \<in> set (closed_hosts (fst (pw_Sweep ?m t2)))"
    using mem ex by (force simp: pw_Sweep_def Let_def)
  ultimately show ?thesis ..
qed

lemma second_client_evicted_witness:
  "\<exists>m1 m2. AttachOrCreate NewSessionManager [] 60 (Some 4) ''S'' 1 1 = (m1, Inr (''S'', 4, False))
     \<and> AttachOrCreate m1 ''S'' 60 None ''T'' 2 2 = (m2, Inr (''S'', 4, True))
     \<and> gm_get (pw_sessions (fst (pw_Sweep (pw_Detach m2 ''S'' 3) (4 + 60 * second)))) ''S'' = None"
proof -
  let ?s = "\<lambda>t. \<lparr>host = 4, attached = True, lastActivity = t, idleTimeout = 60 * second\<rparr>"
  let ?m = "\<lambda>t. NewSessionManager\<lparr>pw_sessions := [(''S'', ?s t)]\<rparr>"
  have clamp: "ClampIdleTimeoutSec 60 = 60 * second"
    by (simp add: ClampIdleTimeoutSec_def MinIdleTimeout_def MaxIdleTimeout_def hour_def minute_def second_def)
  have a1: "AttachOrCreate NewSessionManager [] 60 (Some 4) ''S'' 1 1 = (?m 1, Inr (''S'', 4, False))"
    by (simp add: AttachOrCreate_def attach_existing_def create_session_def NewSessionManager_def clamp)
  have a2: "AttachOrCreate (?m 1) ''S'' 60 None ''T'' 2 2 = (?m 2, Inr (''S'', 4, True))"
    by (simp add: AttachOrCreate_def attach_existing_def NewSessionManager_def clamp expiredLocked_def)
  have "gm_get (pw_sessions (fst (pw_Sweep (pw_Detach (?m 2) ''S'' 3) (4 + 60 * second)))) ''S'' = None"
    by (rule conjunct1 [OF second_client_evicted [of "?m 2" "''S''" "?s 2"]])
       (simp_all add: effectiveTimeoutLocked_def second_def time_sub_def minDuration_def maxDuration_def)
  with a1 a2 show ?thesis by blast
qed

end
