(* ===== verification/Pwsh_Host.thy ===== *)
theory Pwsh_Host
  imports Peersh_Prelude
begin

text \<open>
  \<^verbatim>\<open>windows/pwsh/pwsh.go\<close>: one PowerShell process that executes commands one after the other. A
  command is followed by the output of a random sentinel, which ends its result. The two locks
  and the channels the reader goroutines fill are state; the process, the random source and the
  outcome of a write are arguments. A channel is a list: its capacity only delays the reader.
\<close>

datatype Stream = Stdout | Stderr

fun Stream_String :: "Stream \<Rightarrow> string" where
  "Stream_String Stderr = ''stderr''"
| "Stream_String Stdout = ''stdout''"

record Chunk =
  ck_Stream :: Stream
  ck_Data :: bytes

record Host =
  h_path :: string
  execMu :: bool
  active :: bool
  h_closed :: bool
  stdoutCh :: "bytes list"
  stderrCh :: "bytes list"
  stdin_written :: "string list"

record Output =
  o_sentinel :: string
  o_closed :: bool
  o_released :: bool

datatype exec_err = ErrBusy | ErrClosed | TokenError | WriteError

text \<open>\<open>lookPath\<close> says whether an executable is found.\<close>

definition Available :: "(string \<Rightarrow> string option) \<Rightarrow> bool" where
  "Available lookPath \<longleftrightarrow> lookPath ''pwsh.exe'' \<noteq> None \<or> lookPath ''powershell.exe'' \<noteq> None"

datatype start_err = NoPowerShell | PipeError | ProcessError

definition Start :: "(string \<Rightarrow> string option) \<Rightarrow> bool \<Rightarrow> bool \<Rightarrow> start_err + Host" where
  "Start lookPath pipes started =
     (case (case lookPath ''pwsh.exe'' of Some p \<Rightarrow> Some p | None \<Rightarrow> lookPath ''powershell.exe'') of
        None \<Rightarrow> Inl NoPowerShell
      | Some p \<Rightarrow>
          if \<not> pipes then Inl PipeError
          else if \<not> started then Inl ProcessError
          else Inr \<lparr>h_path = p, execMu = False, active = False, h_closed = False, stdoutCh = [], stderrCh = [],
                    stdin_written = []\<rparr>)"

text \<open>\<^verbatim>\<open>pumpLines\<close>: what the reader sends for the bytes of a pipe that ends.\<close>

fun pumpLines :: "bytes \<Rightarrow> bytes \<Rightarrow> bytes list" where
  "pumpLines line [] = (if line = [] then [] else [line])"
| "pumpLines line (b # bs) = (if b = 10 then (line @ [b]) # pumpLines [] bs else pumpLines (line @ [b]) bs)"

datatype exec_res = Blocked | ExecErr exec_err | ExecOk Output

definition markIdle :: "Host \<Rightarrow> Host" where
  "markIdle h = h\<lparr>active := False\<rparr>"

definition sentinel_of :: "bytes \<Rightarrow> string" where
  "sentinel_of b = ''__PEERSH_END_'' @ hex_encode b @ ''__''"

definition crlf :: string where
  "crlf = [CHR 0x0D, CHR 0x0A]"

text \<open>\<^verbatim>\<open>Exec\<close>: the first lock is held until the output is drained, so a second call waits for
  it (\<open>Blocked\<close>).\<close>

definition Exec :: "Host \<Rightarrow> string \<Rightarrow> bytes option \<Rightarrow> bool \<Rightarrow> Host \<times> exec_res" where
  "Exec h cmd rnd written =
     (if execMu h then (h, Blocked)
      else if h_closed h then (h, ExecErr ErrClosed)
      else if active h then (h, ExecErr ErrBusy)
      else
       (case rnd of
          None \<Rightarrow> (markIdle h, ExecErr TokenError)
        | Some b \<Rightarrow>
            if \<not> written then (markIdle h, ExecErr WriteError)
            else (h\<lparr>active := True, execMu := True,
                     stdin_written := stdin_written h
                       @ [cmd @ crlf @ ''Write-Output '' @ [CHR 0x22] @ sentinel_of b @ [CHR 0x22] @ crlf]\<rparr>,
                  ExecOk \<lparr>o_sentinel = sentinel_of b, o_closed = False, o_released = False\<rparr>)))"

definition release :: "Output \<Rightarrow> Host \<Rightarrow> Output \<times> Host" where
  "release q h = (if o_released q then (q, h) else (q\<lparr>o_released := True\<rparr>, markIdle (h\<lparr>execMu := False\<rparr>)))"

definition trim_eol :: "bytes \<Rightarrow> bytes" where
  "trim_eol l = rev (dropWhile (\<lambda>b. b = 13 \<or> b = 10) (rev l))"

definition is_sentinel :: "Output \<Rightarrow> bytes \<Rightarrow> bool" where
  "is_sentinel q line \<longleftrightarrow> trim_eol line = map byte_of_char (o_sentinel q)"

text \<open>\<^verbatim>\<open>Recv\<close>: the case of the \<^verbatim>\<open>select\<close> that is taken is an argument; a case whose channel is
  empty is not ready.\<close>

datatype recv_case = CtxDone | FromStdout | FromStderr

datatype recv_res = RecvEOF | RecvCtxErr | RecvChunk Chunk | NotReady

definition Recv :: "Output \<Rightarrow> Host \<Rightarrow> recv_case \<Rightarrow> Output \<times> Host \<times> recv_res" where
  "Recv q h c =
     (if o_closed q then (case release q h of (q', h') \<Rightarrow> (q', h', RecvEOF))
      else
       (case c of
          CtxDone \<Rightarrow> (q, h, RecvCtxErr)
        | FromStdout \<Rightarrow>
           (case stdoutCh h of
              [] \<Rightarrow> (q, h, NotReady)
            | line # ls \<Rightarrow>
                let h1 = h\<lparr>stdoutCh := ls\<rparr>
                in if is_sentinel q line
                   then (case release (q\<lparr>o_closed := True\<rparr>) h1 of (q', h') \<Rightarrow> (q', h', RecvEOF))
                   else (q, h1, RecvChunk \<lparr>ck_Stream = Stdout, ck_Data = line\<rparr>))
        | FromStderr \<Rightarrow>
           (case stderrCh h of
              [] \<Rightarrow> (q, h, NotReady)
            | line # ls \<Rightarrow> (q, h\<lparr>stderrCh := ls\<rparr>, RecvChunk \<lparr>ck_Stream = Stderr, ck_Data = line\<rparr>))))"

text \<open>\<^verbatim>\<open>Close\<close>: the first call asks the process to exit and waits for it, three seconds at most
  (\<open>in_time\<close>); later calls return the same result.\<close>

definition Host_Close :: "Host \<Rightarrow> string option \<Rightarrow> string option \<Rightarrow> bool \<Rightarrow> Host \<times> string option" where
  "Host_Close h closeErr exit_err in_time =
     (if h_closed h then (h, closeErr)
      else (h\<lparr>h_closed := True, stdin_written := stdin_written h @ [''exit'' @ crlf]\<rparr>,
            if in_time then exit_err else Some ''pwsh: timed out, killed''))"

section \<open>A command's output\<close>

text \<open>Reading an output with a schedule of ready cases until it ends.\<close>

fun drain :: "Output \<Rightarrow> Host \<Rightarrow> recv_case list \<Rightarrow> Output \<times> Host \<times> Chunk list \<times> bool" where
  "drain q h [] = (q, h, [], False)"
| "drain q h (c # cs) =
     (case Recv q h c of
        (q', h', RecvEOF) \<Rightarrow> (q', h', [], True)
      | (q', h', RecvChunk k) \<Rightarrow> (case drain q' h' cs of (q2, h2, ks, e) \<Rightarrow> (q2, h2, k # ks, e))
      | (q', h', _) \<Rightarrow> drain q' h' cs)"

definition from_stream :: "Stream \<Rightarrow> Chunk list \<Rightarrow> bytes list" where
  "from_stream s ks = map ck_Data (filter (\<lambda>k. ck_Stream k = s) ks)"

lemma from_stream_simps [simp]:
  "from_stream s [] = []"
  "from_stream s (k # ks) = (if ck_Stream k = s then ck_Data k # from_stream s ks else from_stream s ks)"
  by (simp_all add: from_stream_def)

lemma drain_stdout:
  assumes "drain q h cs = (q', h', ks, True)" and "\<not> o_closed q" "\<not> o_released q"
    and "stdoutCh h = out @ line # rest" and "list_all (\<lambda>l. \<not> is_sentinel q l) out" and "is_sentinel q line"
  shows "from_stream Stdout ks = out \<and> stdoutCh h' = rest \<and> \<not> execMu h' \<and> \<not> active h'
    \<and> stderrCh h = from_stream Stderr ks @ stderrCh h' \<and> o_released q'"
  using assms
proof (induction cs arbitrary: h out ks)
  case (Cons c cs)
  show ?case
  proof (cases c)
    case CtxDone
    with Cons show ?thesis by (auto simp: Recv_def)
  next
    case FromStderr
    show ?thesis
    proof (cases "stderrCh h")
      case Nil
      then have "drain q h cs = (q', h', ks, True)" using Cons.prems FromStderr by (simp add: Recv_def)
      from Cons.IH [OF this Cons.prems(2-)] show ?thesis .
    next
      case (Cons l ls)
      then obtain ks' where d: "drain q (h\<lparr>stderrCh := ls\<rparr>) cs = (q', h', ks', True)"
        and ks: "ks = \<lparr>ck_Stream = Stderr, ck_Data = l\<rparr> # ks'"
        using Cons.prems FromStderr by (auto simp: Recv_def split: prod.splits)
      from Cons.IH [OF d Cons.prems(2,3)] Cons.prems(4-) Cons ks show ?thesis by simp
    qed
  next
    case FromStdout
    show ?thesis
    proof (cases out)
      case Nil
      then show ?thesis using Cons.prems FromStdout by (auto simp: Recv_def release_def markIdle_def)
    next
      case (Cons l ls)
      then obtain ks' where d: "drain q (h\<lparr>stdoutCh := ls @ line # rest\<rparr>) cs = (q', h', ks', True)"
        and ks: "ks = \<lparr>ck_Stream = Stdout, ck_Data = l\<rparr> # ks'"
        using Cons.prems FromStdout by (auto simp: Recv_def Let_def split: prod.splits)
      from Cons.IH [OF d Cons.prems(2,3)] Cons.prems(5,6) Cons ks show ?thesis by simp
    qed
  qed
qed simp

lemma drain_ends:
  assumes "\<not> o_closed q" "stdoutCh h = out @ line # rest" "list_all (\<lambda>l. \<not> is_sentinel q l) out" "is_sentinel q line"
  shows "\<exists>q' h' ks. drain q h (replicate (Suc (length out)) FromStdout) = (q', h', ks, True)"
  using assms
proof (induction out arbitrary: h)
  case Nil
  then show ?case by (cases "o_released q") (simp_all add: Recv_def release_def Let_def)
next
  case (Cons l out)
  then obtain q' h' ks where "drain q (h\<lparr>stdoutCh := out @ line # rest\<rparr>) (replicate (Suc (length out)) FromStdout) = (q', h', ks, True)"
    by fastforce
  then have "drain q h (FromStdout # replicate (Suc (length out)) FromStdout) = (q', h', \<lparr>ck_Stream = Stdout, ck_Data = l\<rparr> # ks, True)"
    using Cons.prems by (simp add: Recv_def Let_def del: replicate_Suc)
  then show ?case by auto
qed



definition demo_host :: Host where
  "demo_host = \<lparr>h_path = ''pwsh.exe'', execMu = False, active = False, h_closed = False, stdoutCh = [], stderrCh = [], stdin_written = []\<rparr>"

definition demo_line :: bytes where
  "demo_line = map byte_of_char (sentinel_of [1]) @ [13, 10]"

lemma demo_sentinel: "is_sentinel \<lparr>o_sentinel = sentinel_of [1], o_closed = False, o_released = False\<rparr> demo_line"
  by code_simp


section \<open>An abandoned output\<close>

text \<open>What can happen to a host whose current output nobody reads any more.\<close>

datatype host_op = OpExec string "bytes option" bool | OpStdout bytes | OpStderr bytes | OpClose "string option" bool

fun host_step :: "Host \<Rightarrow> host_op \<Rightarrow> Host \<times> exec_res option" where
  "host_step h (OpExec cmd rnd written) = (case Exec h cmd rnd written of (h', r) \<Rightarrow> (h', Some r))"
| "host_step h (OpStdout l) = (h\<lparr>stdoutCh := stdoutCh h @ [l]\<rparr>, None)"
| "host_step h (OpStderr l) = (h\<lparr>stderrCh := stderrCh h @ [l]\<rparr>, None)"
| "host_step h (OpClose e in_time) = (fst (Host_Close h None e in_time), None)"

fun host_run :: "Host \<Rightarrow> host_op list \<Rightarrow> exec_res list" where
  "host_run h [] = []"
| "host_run h (x # xs) = (case host_step h x of (h', r) \<Rightarrow> (case r of None \<Rightarrow> [] | Some a \<Rightarrow> [a]) @ host_run h' xs)"

lemma locked_blocks: "execMu h \<Longrightarrow> set (host_run h ops) \<subseteq> {Blocked}"
proof (induction ops arbitrary: h)
  case (Cons x xs)
  then show ?case by (cases x) (simp_all add: Exec_def Host_Close_def)
qed simp

lemma Exec_locks: "Exec h cmd rnd w = (h1, ExecOk q) \<Longrightarrow> execMu h1"
  by (auto simp: Exec_def split: if_splits option.splits)

text \<open>A command whose output is not read to its end blocks the host for good: every later
  \<^verbatim>\<open>Exec\<close> waits for a lock that is never released, even after \<^verbatim>\<open>Close\<close>, instead of returning the
  documented \<^verbatim>\<open>ErrBusy\<close> or \<^verbatim>\<open>ErrClosed\<close>.\<close>

theorem abandoned_exec_blocks:
  assumes "Exec h cmd (Some b) True = (h1, ExecOk q)"
  shows "set (host_run h1 ops) \<subseteq> {Blocked}"
  by (rule locked_blocks [OF Exec_locks [OF assms]])

theorem abandoned_exec_blocks_witness:
  "set (host_run (fst (Exec demo_host ''ls'' (Some [1]) True)) [OpStdout [65], OpClose None True, OpExec ''dir'' (Some [2]) True]) \<subseteq> {Blocked}"
proof -
  obtain h1 q where e: "Exec demo_host ''ls'' (Some [1]) True = (h1, ExecOk q)" by (simp add: Exec_def demo_host_def)
  from abandoned_exec_blocks [OF e] show ?thesis unfolding e fst_conv .
qed

end
