(* ===== verification/Peer_Auth.thy ===== *)
theory Peer_Auth
  imports Peersh_Prelude
begin

text \<open>
  \<^verbatim>\<open>windows/peerauth\<close>: which devices may open a QUIC connection right now. The signaling side
  grants a device some time; the accept loop spends the grant. Each operation holds the lock;
  the clock reading is an argument.
\<close>

record Authz =
  ttl :: duration
  pending :: "(string, time) gomap"

definition authz_New :: "duration \<Rightarrow> Authz" where
  "authz_New d = \<lparr>ttl = d, pending = []\<rparr>"

definition authz_Allow :: "Authz \<Rightarrow> string \<Rightarrow> time \<Rightarrow> Authz" where
  "authz_Allow a dev now = (if dev = [] then a else a\<lparr>pending := gm_put dev (now + ttl a) (pending a)\<rparr>)"

definition authz_Check :: "Authz \<Rightarrow> string \<Rightarrow> time \<Rightarrow> Authz \<times> bool" where
  "authz_Check a dev now =
     (if dev = [] then (a, False)
      else
       (case gm_get (pending a) dev of
          None \<Rightarrow> (a, False)
        | Some e \<Rightarrow>
            if now > e then (a\<lparr>pending := gm_del dev (pending a)\<rparr>, False)
            else (a\<lparr>pending := gm_del dev (pending a)\<rparr>, True)))"

definition authz_Sweep :: "Authz \<Rightarrow> time \<Rightarrow> Authz" where
  "authz_Sweep a now = a\<lparr>pending := gm_retain (\<lambda>d e. \<not> now > e) (pending a)\<rparr>"

section \<open>Refinement of one-shot grants\<close>

text \<open>The contract: a grant is an expiry; checking it spends it; nothing else removes it. The
  periodic sweep is not part of the contract.\<close>

datatype authz_op = Allow string | Check string | SweepOp

fun authz_exec :: "Authz \<Rightarrow> authz_op \<times> time \<Rightarrow> Authz \<times> bool option" where
  "authz_exec a (Allow d, t) = (authz_Allow a d t, None)"
| "authz_exec a (Check d, t) = (case authz_Check a d t of (a', r) \<Rightarrow> (a', Some r))"
| "authz_exec a (SweepOp, t) = (authz_Sweep a t, None)"

fun grant_exec :: "duration \<Rightarrow> (string \<rightharpoonup> time) \<Rightarrow> authz_op \<times> time \<Rightarrow> (string \<rightharpoonup> time) \<times> bool option" where
  "grant_exec d g (Allow i, t) = (if i = [] then g else g(i \<mapsto> t + d), None)"
| "grant_exec d g (Check i, t) = (g(i := None), Some (\<exists>e. g i = Some e \<and> t \<le> e))"
| "grant_exec d g (SweepOp, t) = (g, None)"

fun answers :: "('s \<Rightarrow> 'o \<Rightarrow> 's \<times> 'r) \<Rightarrow> 's \<Rightarrow> 'o list \<Rightarrow> 'r list" where
  "answers exec s [] = []"
| "answers exec s (q # qs) = (case exec s q of (s', r) \<Rightarrow> r # answers exec s' qs)"

text \<open>The simulation: the table lacks at most grants that have expired.\<close>

definition grants_of :: "time \<Rightarrow> Authz \<Rightarrow> (string \<rightharpoonup> time) \<Rightarrow> bool" where
  "grants_of now a g \<longleftrightarrow> gomap_ok (pending a) \<and> g [] = None \<and> gm_get (pending a) [] = None
     \<and> (\<forall>d. gm_get (pending a) d = g d \<or> (gm_get (pending a) d = None \<and> (\<exists>e. g d = Some e \<and> e < now)))"

lemma grants_of_mono: "grants_of t a g \<Longrightarrow> t \<le> t' \<Longrightarrow> grants_of t' a g"
  unfolding grants_of_def by (meson order_less_le_trans)

lemma authz_step:
  assumes "grants_of t a g" and "authz_exec a (q, t) = (a', r)"
  shows "\<exists>g'. grant_exec (ttl a) g (q, t) = (g', r) \<and> grants_of t a' g' \<and> ttl a' = ttl a"
proof (cases q)
  case (Allow d)
  with assms show ?thesis by (auto simp: authz_Allow_def grants_of_def)
next
  case (Check d)
  have sim: "gm_get (pending a) i = g i \<or> (gm_get (pending a) i = None \<and> (\<exists>e. g i = Some e \<and> e < t))" for i
    using assms(1) by (simp add: grants_of_def)
  have nil: "g [] = None" "gm_get (pending a) [] = None" "gomap_ok (pending a)"
    using assms(1) by (simp_all add: grants_of_def)
  show ?thesis
  proof (cases "gm_get (pending a) d")
    case None
    then have "a' = a" "r = Some False" using assms(2) Check
      by (cases "d = []"; simp add: authz_Check_def)+
    moreover have "\<not> (\<exists>e. g d = Some e \<and> t \<le> e)" using sim [of d] None by auto
    moreover have "grants_of t a (g(d := None))" using sim nil None by (auto simp: grants_of_def)
    ultimately show ?thesis using Check by simp
  next
    case (Some e)
    then have d: "d \<noteq> []" "g d = Some e" using nil sim [of d] by auto
    then have "a' = a\<lparr>pending := gm_del d (pending a)\<rparr>" "r = Some (t \<le> e)"
      using assms(2) Check Some by (auto simp: authz_Check_def split: if_splits)
    moreover have "grants_of t (a\<lparr>pending := gm_del d (pending a)\<rparr>) (g(d := None))"
      using sim nil d by (simp add: grants_of_def)
    ultimately show ?thesis using Check d by simp
  qed
next
  case SweepOp
  have "gomap_ok (pending a)" using assms(1) by (simp add: grants_of_def)
  then have ret: "gm_get (gm_retain (\<lambda>d e. \<not> t > e) (pending a)) d
      = (case gm_get (pending a) d of None \<Rightarrow> None | Some e \<Rightarrow> if \<not> t > e then Some e else None)" for d
    by (simp add: gm_get_retain)
  have sim: "gm_get (pending a) i = g i \<or> (gm_get (pending a) i = None \<and> (\<exists>e. g i = Some e \<and> e < t))" for i
    using assms(1) by (simp add: grants_of_def)
  have "gm_get (pending (authz_Sweep a t)) i = g i
      \<or> (gm_get (pending (authz_Sweep a t)) i = None \<and> (\<exists>e. g i = Some e \<and> e < t))" for i
    using ret [of i] sim [of i] by (cases "gm_get (pending a) i"; cases "g i") (auto simp: authz_Sweep_def)
  then have "grants_of t (authz_Sweep a t) g"
    using assms(1) ret by (simp add: grants_of_def authz_Sweep_def)
  with SweepOp assms(2) show ?thesis by (auto simp: authz_Sweep_def)
qed

text \<open>A device may connect exactly when it holds an unexpired grant that has not been spent:
  on every sequence of calls with a clock that does not go back, \<^verbatim>\<open>Check\<close> answers like the contract
  of one-shot grants with a time to live, and the sweeper, whenever it runs, changes no answer.\<close>

theorem authz_one_shot_grants:
  assumes "sorted (map snd qs)"
  shows "answers authz_exec (authz_New d) qs = answers (grant_exec d) Map.empty qs"
proof -
  have sim: "answers authz_exec a qs = answers (grant_exec (ttl a)) g qs"
    if "grants_of t a g" "\<forall>q \<in> set qs. t \<le> snd q" "sorted (map snd qs)" for a g t
    using that
  proof (induction qs arbitrary: a g t)
    case (Cons q qs)
    obtain p now where q: "q = (p, now)" by (cases q)
    have "t \<le> now" using Cons.prems(2) q by simp
    then have "grants_of now a g" by (rule grants_of_mono [OF Cons.prems(1)])
    moreover obtain a' r where e: "authz_exec a (p, now) = (a', r)" by fastforce
    ultimately obtain g' where g': "grant_exec (ttl a) g (p, now) = (g', r)" "grants_of now a' g'" "ttl a' = ttl a"
      using authz_step by blast
    have "answers authz_exec a' qs = answers (grant_exec (ttl a')) g' qs"
      using Cons.IH [OF g'(2)] Cons.prems(3) by (simp add: q)
    with g' e show ?case by (simp add: q)
  qed simp
  have "grants_of (snd (hd qs)) (authz_New d) Map.empty"
    by (simp add: grants_of_def authz_New_def)
  moreover have "\<forall>q \<in> set qs. snd (hd qs) \<le> snd q" using assms by (cases qs) auto
  ultimately have "answers authz_exec (authz_New d) qs = answers (grant_exec (ttl (authz_New d))) Map.empty qs"
    using assms by (rule sim)
  then show ?thesis by (simp add: authz_New_def)
qed

lemma authz_one_shot_grants_witness:
  "answers authz_exec (authz_New (60 * second)) [(Allow ''D'', 1), (SweepOp, 2), (Check ''D'', 3), (Check ''D'', 4)]
     = [None, None, Some True, Some False]"
  using authz_one_shot_grants [of "[(Allow ''D'', 1), (SweepOp, 2), (Check ''D'', 3), (Check ''D'', 4)]" "60 * second"]
  by (simp add: second_def)

end
