(* ===== verification/Signal_Proto.thy ===== *)
theory Signal_Proto
  imports Peersh_Prelude
begin

text \<open>
  The messages of the signaling channel, as the generated protobuf types present them to the
  code (\<^verbatim>\<open>proto/peersh/signal/v1\<close>). An unset field reads as its zero value, and the body of a
  frame is one of six messages or absent.
\<close>

datatype ProtoDeviceKind = DEVICE_KIND_UNSPECIFIED | DEVICE_KIND_WINDOWS_HOST
  | DEVICE_KIND_MOBILE_CLIENT | DEVICE_KIND_CLI

record ClientHello =
  ch_ProtocolVersion :: u32
  ch_ClientId :: string

record ServerHello =
  sh_ProtocolVersion :: u32
  sh_ServerId :: string

record RegisterMsg =
  UserId :: string
  DeviceId :: string
  PublicKey :: bytes
  Kind :: ProtoDeviceKind
  DisplayName :: string
  SignedAtUnix :: int
  Nonce :: bytes
  HmacSignature :: bytes
  FirebaseIdToken :: string
  FirebaseAppCheckToken :: string

record RegisterAck =
  Accepted :: bool
  Reason :: string
  ack_ServerId :: string

datatype CandidateType = CANDIDATE_TYPE_UNSPECIFIED | CANDIDATE_TYPE_HOST
  | CANDIDATE_TYPE_SERVER_REFLEXIVE | CANDIDATE_TYPE_PEER_REFLEXIVE

record EndpointCandidate =
  Address :: string
  Port :: u32
  Type :: CandidateType

record ConnectMsg =
  TargetDeviceId :: string
  FromDeviceId :: string
  Candidates :: "EndpointCandidate list"

record ServerError =
  Code :: string
  Message :: string

datatype Frame =
    Frame_ClientHello ClientHello
  | Frame_ServerHello ServerHello
  | Frame_Register RegisterMsg
  | Frame_RegisterAck RegisterAck
  | Frame_Connect ConnectMsg
  | Frame_ServerError ServerError
  | Frame_None

end
