(* ===== verification/Punching.thy ===== *)
theory Punching
  imports Signal_Proto "HOL-Library.Multiset"
begin

text \<open>
  \<^verbatim>\<open>core/punching\<close>: discovery of the public address by STUN, the order in which candidate
  addresses are dialled, and the burst of sentinel packets that opens the local router. The
  socket, \<^verbatim>\<open>net.ParseIP\<close>, the random source and the STUN codec (a third-party package) are
  arguments: an address is what \<open>parseIP\<close> returns for its text, and the codec gives the
  transaction of a message and the address it carries.
\<close>

definition PunchMagic :: bytes where
  "PunchMagic = [0x70, 0x65, 0x73, 0x68]"

definition PunchPacketSize :: nat where
  "PunchPacketSize = 16"

definition DefaultSTUNServer :: string where
  "DefaultSTUNServer = ''stun.l.google.com:19302''"

record Options =
  STUNServer :: string
  STUNTimeout :: duration
  PunchPackets :: int
  PunchInterval :: duration

definition withDefaults :: "Options \<Rightarrow> Options" where
  "withDefaults op =
     op\<lparr>STUNServer := (if STUNServer op = [] then DefaultSTUNServer else STUNServer op),
       STUNTimeout := (if STUNTimeout op = 0 then 3 * second else STUNTimeout op),
       PunchPackets := (if PunchPackets op = 0 then 5 else PunchPackets op),
       PunchInterval := (if PunchInterval op = 0 then 200 * 1000000 else PunchInterval op)\<rparr>"

text \<open>An IP address is 4 or 16 bytes; the 16-byte form of an IPv4 address has a fixed prefix.\<close>

definition v4InV6Prefix :: bytes where
  "v4InV6Prefix = replicate 10 0 @ [0xff, 0xff]"

definition To4 :: "bytes \<Rightarrow> bytes option" where
  "To4 ip =
     (if length ip = 4 then Some ip
      else if length ip = 16 \<and> take 12 ip = v4InV6Prefix then Some (drop 12 ip)
      else None)"

definition IP_Equal :: "bytes \<Rightarrow> bytes \<Rightarrow> bool" where
  "IP_Equal a b \<longleftrightarrow>
     (if length a = length b then a = b
      else if length a = 4 \<and> length b = 16 then take 12 b = v4InV6Prefix \<and> a = drop 12 b
      else if length a = 16 \<and> length b = 4 then take 12 a = v4InV6Prefix \<and> drop 12 a = b
      else False)"

type_synonym udp_addr = "bytes \<times> nat"

text \<open>The source of a datagram: a UDP address, or an address of another kind.\<close>

definition equalUDP :: "udp_addr option \<Rightarrow> udp_addr \<Rightarrow> bool" where
  "equalUDP a b = (case a of None \<Rightarrow> False | Some ua \<Rightarrow> snd ua = snd b \<and> IP_Equal (fst ua) (fst b))"

datatype discover_err = ResolveError | BuildError | SetDeadlineError | SendError | ReadError | NoMappedAddress

text \<open>The read loop of \<^verbatim>\<open>Discover\<close> over what \<^verbatim>\<open>ReadFrom\<close> returns, in order; the read deadline ends
  it. \<open>decode\<close> gives the transaction of a well-formed STUN message, \<open>mapped\<close> the address it
  carries.\<close>

fun discover_loop ::
  "(bytes \<Rightarrow> 't option) \<Rightarrow> (bytes \<Rightarrow> udp_addr option) \<Rightarrow> udp_addr \<Rightarrow> 't \<Rightarrow> (bytes \<times> udp_addr option) list
     \<Rightarrow> discover_err + udp_addr" where
  "discover_loop decode mapped server tid [] = Inl ReadError"
| "discover_loop decode mapped server tid ((buf, from) # rs) =
     (if \<not> equalUDP from server then discover_loop decode mapped server tid rs
      else
       (case decode buf of
          None \<Rightarrow> discover_loop decode mapped server tid rs
        | Some t \<Rightarrow>
            if t \<noteq> tid then discover_loop decode mapped server tid rs
            else (case mapped buf of None \<Rightarrow> Inl NoMappedAddress | Some a \<Rightarrow> Inr a)))"

definition Discover ::
  "(bytes \<Rightarrow> 't option) \<Rightarrow> (bytes \<Rightarrow> udp_addr option) \<Rightarrow> (string \<Rightarrow> udp_addr option) \<Rightarrow> 't option \<Rightarrow> bool \<Rightarrow> bool
     \<Rightarrow> Options \<Rightarrow> (bytes \<times> udp_addr option) list \<Rightarrow> discover_err + udp_addr" where
  "Discover decode mapped resolve built deadline_ok write_ok opts rs =
     (case resolve (STUNServer (withDefaults opts)) of
        None \<Rightarrow> Inl ResolveError
      | Some server \<Rightarrow>
         (case built of
            None \<Rightarrow> Inl BuildError
          | Some tid \<Rightarrow>
              if \<not> deadline_ok then Inl SetDeadlineError
              else if \<not> write_ok then Inl SendError
              else discover_loop decode mapped server tid rs))"

definition IsPunchPacket :: "bytes \<Rightarrow> bool" where
  "IsPunchPacket b \<longleftrightarrow> (if length b < length PunchMagic then False else take (length PunchMagic) b = PunchMagic)"

definition newPunchPacket :: "bytes option \<Rightarrow> bytes option" where
  "newPunchPacket rnd = map_option (\<lambda>r. PunchMagic @ r) rnd"

datatype punch_err = NonceFailed | PunchCtxDone

text \<open>One round sends a packet to each peer; a write error is ignored. \<open>rnd i\<close> is what the random
  source gives for the \<open>i\<close>-th packet (twelve bytes or an error), \<open>cancelled n\<close> whether the context
  is done in the pause after round \<open>n\<close>. The result is the packets handed to the socket.\<close>

fun punch_round :: "(nat \<Rightarrow> bytes option) \<Rightarrow> nat \<Rightarrow> 'a list \<Rightarrow> (bytes \<times> 'a) list \<times> punch_err option" where
  "punch_round rnd i [] = ([], None)"
| "punch_round rnd i (p # ps) =
     (case newPunchPacket (rnd i) of
        None \<Rightarrow> ([], Some NonceFailed)
      | Some pkt \<Rightarrow> (case punch_round rnd (Suc i) ps of (out, e) \<Rightarrow> ((pkt, p) # out, e)))"

text \<open>\<open>left\<close> rounds remain; the pause is skipped after the last.\<close>

fun punch_loop ::
  "(nat \<Rightarrow> bytes option) \<Rightarrow> (nat \<Rightarrow> bool) \<Rightarrow> 'a list \<Rightarrow> nat \<Rightarrow> nat \<Rightarrow> (bytes \<times> 'a) list \<times> punch_err option" where
  "punch_loop rnd cancelled peers n 0 = ([], None)"
| "punch_loop rnd cancelled peers n (Suc left) =
     (case punch_round rnd (n * length peers) peers of
        (out, Some e) \<Rightarrow> (out, Some e)
      | (out, None) \<Rightarrow>
          if left = 0 then (out, None)
          else if cancelled n then (out, Some PunchCtxDone)
          else (case punch_loop rnd cancelled peers (Suc n) left of (out', e) \<Rightarrow> (out @ out', e)))"

definition Punch ::
  "(nat \<Rightarrow> bytes option) \<Rightarrow> (nat \<Rightarrow> bool) \<Rightarrow> 'a list \<Rightarrow> Options \<Rightarrow> (bytes \<times> 'a) list \<times> punch_err option" where
  "Punch rnd cancelled peers opts =
     (if length peers = 0 then ([], None)
      else punch_loop rnd cancelled peers 0 (nat (PunchPackets (withDefaults opts))))"

definition isIPv6 :: "(string \<Rightarrow> bytes option) \<Rightarrow> string \<Rightarrow> bool" where
  "isIPv6 parseIP addr = (case parseIP addr of None \<Rightarrow> False | Some ip \<Rightarrow> To4 ip = None)"

definition rank :: "(string \<Rightarrow> bytes option) \<Rightarrow> EndpointCandidate \<Rightarrow> nat" where
  "rank parseIP c =
     (let v6 = isIPv6 parseIP (Address c)
      in (case Type c of
            CANDIDATE_TYPE_SERVER_REFLEXIVE \<Rightarrow> if v6 then 0 else 1
          | CANDIDATE_TYPE_HOST \<Rightarrow> if v6 then 2 else 3
          | _ \<Rightarrow> if v6 then 4 else 5))"

text \<open>\<^verbatim>\<open>sort.SliceStable\<close> over the rank is the library's stable sort.\<close>

definition SortCandidates :: "(string \<Rightarrow> bytes option) \<Rightarrow> EndpointCandidate list \<Rightarrow> EndpointCandidate list" where
  "SortCandidates parseIP cs = sort_key (rank parseIP) cs"

definition CandidatesToUDPAddrs :: "(string \<Rightarrow> bytes option) \<Rightarrow> EndpointCandidate list \<Rightarrow> udp_addr list" where
  "CandidatesToUDPAddrs parseIP cs =
     concat (map (\<lambda>c. case parseIP (Address c) of None \<Rightarrow> [] | Some ip \<Rightarrow> [(ip, unat (Port c))]) cs)"

section \<open>Properties\<close>

lemma discover_loop_sound:
  "discover_loop decode mapped server tid rs = Inr a \<Longrightarrow>
     \<exists>buf from. (buf, Some from) \<in> set rs \<and> equalUDP (Some from) server
       \<and> decode buf = Some tid \<and> mapped buf = Some a"
proof (induction rs)
  case (Cons r rs)
  obtain buf frm where r: "r = (buf, frm)" by (cases r)
  show ?case
  proof (cases "equalUDP frm server \<and> decode buf = Some tid")
    case True
    then obtain f where "frm = Some f" by (cases frm) (simp_all add: equalUDP_def)
    with True Cons.prems r show ?thesis
      by (intro exI [of _ buf] exI [of _ f]) (auto split: option.splits)
  next
    case False
    then have "discover_loop decode mapped server tid rs = Inr a"
      using Cons.prems r by (auto split: option.splits if_splits)
    with Cons.IH show ?thesis by auto
  qed
qed simp

text \<open>The packets the loop skips: from elsewhere, malformed, or of another transaction.\<close>

definition stun_noise :: "(bytes \<Rightarrow> 't option) \<Rightarrow> udp_addr \<Rightarrow> 't \<Rightarrow> bytes \<times> udp_addr option \<Rightarrow> bool" where
  "stun_noise decode server tid r \<longleftrightarrow> \<not> equalUDP (snd r) server \<or> decode (fst r) \<noteq> Some tid"

lemma discover_loop_noise:
  "\<forall>r \<in> set rs. stun_noise decode server tid r \<Longrightarrow>
     discover_loop decode mapped server tid (rs @ rest) = discover_loop decode mapped server tid rest"
proof (induction rs)
  case (Cons r rs)
  then show ?case by (cases r) (auto simp: stun_noise_def split: option.splits)
qed simp

text \<open>The public address \<^verbatim>\<open>Discover\<close> reports is the one in an answer of the queried STUN server
  to this very request; and whatever other traffic arrives on the socket before (punch packets of
  a peer, answers to other requests, forged packets from other addresses), it is skipped and the
  genuine answer is found.\<close>

theorem discover_trusts_only_its_server:
  assumes "resolve (STUNServer (withDefaults opts)) = Some server"
    and "\<forall>r \<in> set noise. stun_noise decode server tid r"
    and "equalUDP (Some from) server" and "decode buf = Some tid" and "mapped buf = Some a"
  shows "Discover decode mapped resolve (Some tid) True True opts (noise @ (buf, Some from) # rest) = Inr a
    \<and> (\<forall>rs a'. Discover decode mapped resolve (Some tid) True True opts rs = Inr a' \<longrightarrow>
         (\<exists>buf' from'. (buf', Some from') \<in> set rs \<and> equalUDP (Some from') server
            \<and> decode buf' = Some tid \<and> mapped buf' = Some a'))"
  using assms discover_loop_noise [OF assms(2), of mapped "(buf, Some from) # rest"]
    discover_loop_sound [of decode mapped server tid]
  by (auto simp: Discover_def)

lemma discover_trusts_only_its_server_witness:
  "Discover (\<lambda>b. if b = [] then None else Some (hd b)) (\<lambda>b. Some ([9, 9, 9, 9], 5)) (\<lambda>s. Some ([1, 2, 3, 4], 7))
     (Some 8) True True \<lparr>STUNServer = [], STUNTimeout = 0, PunchPackets = 0, PunchInterval = 0\<rparr>
     ([([8], Some ([6, 6, 6, 6], 7)), ([3], Some ([1, 2, 3, 4], 7))] @ ([8], Some ([1, 2, 3, 4], 7)) # [])
   = Inr ([9, 9, 9, 9], 5)"
  by (rule conjunct1 [OF discover_trusts_only_its_server [where server = "([1, 2, 3, 4], 7)"]])
     (simp_all add: equalUDP_def IP_Equal_def stun_noise_def)

lemma punch_round_all:
  assumes "\<And>j. \<exists>r. rnd j = Some r \<and> length r = 12"
  shows "snd (punch_round rnd i ps) = None \<and> map snd (fst (punch_round rnd i ps)) = ps
    \<and> (\<forall>(pkt, p) \<in> set (fst (punch_round rnd i ps)). length pkt = PunchPacketSize \<and> IsPunchPacket pkt)"
proof (induction ps arbitrary: i)
  case (Cons p ps)
  obtain r where "rnd i = Some r" "length r = 12" using assms by blast
  with Cons [of "Suc i"] show ?case
    by (auto simp: newPunchPacket_def IsPunchPacket_def PunchMagic_def PunchPacketSize_def split: prod.splits)
qed simp

text \<open>A burst that is not cancelled hands the socket \<^verbatim>\<open>PunchPackets\<close> packets for each peer, in
  turn; each is sixteen bytes, starts with the magic, and has the top bit of its first byte clear,
  so that QUIC cannot take it for one of its long-header packets.\<close>

theorem punch_burst_complete:
  assumes "\<And>j. \<exists>r. rnd j = Some r \<and> length r = 12" and "\<And>n. \<not> cancelled n"
  shows "\<exists>out. Punch rnd cancelled peers opts = (out, None)
    \<and> map snd out = concat (replicate (nat (PunchPackets (withDefaults opts))) peers)
    \<and> (\<forall>(pkt, p) \<in> set out. length pkt = PunchPacketSize \<and> IsPunchPacket pkt \<and> hd pkt AND 0x80 = 0)"
proof -
  have top: "hd pkt AND 0x80 = 0" if "IsPunchPacket pkt" for pkt :: bytes
    using that by (cases pkt) (simp_all add: IsPunchPacket_def PunchMagic_def split: if_splits)
  have loop: "snd (punch_loop rnd cancelled peers n left) = None
      \<and> map snd (fst (punch_loop rnd cancelled peers n left)) = concat (replicate left peers)
      \<and> (\<forall>(pkt, p) \<in> set (fst (punch_loop rnd cancelled peers n left)). length pkt = PunchPacketSize \<and> IsPunchPacket pkt)"
    for n left
  proof (induction left arbitrary: n)
    case (Suc left)
    obtain out e where R: "punch_round rnd (n * length peers) peers = (out, e)" by fastforce
    obtain out' e' where L: "punch_loop rnd cancelled peers (Suc n) left = (out', e')" by fastforce
    have r: "e = None" "map snd out = peers" "\<forall>(pkt, p) \<in> set out. length pkt = PunchPacketSize \<and> IsPunchPacket pkt"
      using punch_round_all [of rnd "n * length peers" peers] assms(1) R by simp_all
    have l: "e' = None" "map snd out' = concat (replicate left peers)"
        "\<forall>(pkt, p) \<in> set out'. length pkt = PunchPacketSize \<and> IsPunchPacket pkt"
      using Suc [of "Suc n"] L by simp_all
    have "punch_loop rnd cancelled peers n (Suc left) = (if left = 0 then (out, None) else (out @ out', None))"
      using R L r(1) l(1) assms(2) by simp
    then show ?case using r l by auto
  qed simp
  show ?thesis
  proof (cases "peers = []")
    case True
    then show ?thesis by (simp add: Punch_def concat_replicate_trivial)
  next
    case False
    then show ?thesis
      using loop [of 0 "nat (PunchPackets (withDefaults opts))"] top
      by (cases "punch_loop rnd cancelled peers 0 (nat (PunchPackets (withDefaults opts)))")
         (auto simp: Punch_def)
  qed
qed

lemma punch_burst_complete_witness:
  "\<exists>out. Punch (\<lambda>i. Some (replicate 12 1)) (\<lambda>n. False) [''a'', ''b'']
      \<lparr>STUNServer = [], STUNTimeout = 0, PunchPackets = 2, PunchInterval = 0\<rparr> = (out, None)
     \<and> map snd out = [''a'', ''b'', ''a'', ''b'']"
  using punch_burst_complete [of "\<lambda>i. Some (replicate 12 1)" "\<lambda>n. False" "[''a'', ''b'']"
      "\<lparr>STUNServer = [], STUNTimeout = 0, PunchPackets = 2, PunchInterval = 0\<rparr>"]
  by (auto simp: withDefaults_def numeral_2_eq_2)

text \<open>\<^verbatim>\<open>SortCandidates\<close> only reorders: public addresses come before host addresses, host before
  the rest, within each class IPv6 before IPv4, and candidates of the same class keep their
  order.\<close>

theorem sort_candidates_order:
  "mset (SortCandidates parseIP cs) = mset cs
   \<and> sorted (map (rank parseIP) (SortCandidates parseIP cs))
   \<and> filter (\<lambda>c. rank parseIP c = r) (SortCandidates parseIP cs) = filter (\<lambda>c. rank parseIP c = r) cs
   \<and> (rank parseIP c < rank parseIP c' \<longleftrightarrow>
        (Type c = CANDIDATE_TYPE_SERVER_REFLEXIVE \<and> Type c' \<noteq> CANDIDATE_TYPE_SERVER_REFLEXIVE)
        \<or> (Type c = CANDIDATE_TYPE_HOST \<and> Type c' \<noteq> CANDIDATE_TYPE_HOST \<and> Type c' \<noteq> CANDIDATE_TYPE_SERVER_REFLEXIVE)
        \<or> (rank parseIP c div 2 = rank parseIP c' div 2
             \<and> isIPv6 parseIP (Address c) \<and> \<not> isIPv6 parseIP (Address c')))"
proof (intro conjI)
  show "rank parseIP c < rank parseIP c' \<longleftrightarrow>
        (Type c = CANDIDATE_TYPE_SERVER_REFLEXIVE \<and> Type c' \<noteq> CANDIDATE_TYPE_SERVER_REFLEXIVE)
        \<or> (Type c = CANDIDATE_TYPE_HOST \<and> Type c' \<noteq> CANDIDATE_TYPE_HOST \<and> Type c' \<noteq> CANDIDATE_TYPE_SERVER_REFLEXIVE)
        \<or> (rank parseIP c div 2 = rank parseIP c' div 2
             \<and> isIPv6 parseIP (Address c) \<and> \<not> isIPv6 parseIP (Address c'))"
    by (cases "Type c"; cases "Type c'") (simp_all add: rank_def Let_def)
qed (simp_all add: SortCandidates_def sort_key_stable)

end
