(* ===== verification/Net.thy ===== *)
theory Net
  imports Peersh_Prelude
begin

text \<open>
  The part of Go's package \<^verbatim>\<open>net\<close> the components use on strings: \<^verbatim>\<open>SplitHostPort\<close> and
  \<^verbatim>\<open>JoinHostPort\<close>, after the standard library's code. No definition here models a line of the
  repository.
\<close>

fun index_of :: "'a \<Rightarrow> 'a list \<Rightarrow> nat option" where
  "index_of c [] = None"
| "index_of c (x # xs) = (if x = c then Some 0 else map_option Suc (index_of c xs))"

definition last_index_of :: "'a \<Rightarrow> 'a list \<Rightarrow> nat option" where
  "last_index_of c xs = map_option (\<lambda>i. length xs - Suc i) (index_of c (rev xs))"

datatype addr_err = MissingPort | TooManyColons | MissingBracket | UnexpectedBracket

definition SplitHostPort :: "string \<Rightarrow> addr_err + (string \<times> string)" where
  "SplitHostPort hp =
     (case last_index_of (CHR '':'') hp of
        None \<Rightarrow> Inl MissingPort
      | Some i \<Rightarrow>
          let port = drop (Suc i) hp;
              finish = (\<lambda>host j k.
                if CHR ''['' \<in> set (drop j hp) then Inl UnexpectedBracket
                else if CHR '']'' \<in> set (drop k hp) then Inl UnexpectedBracket
                else Inr (host, port))
          in if hp ! 0 = CHR ''['' then
               (case index_of (CHR '']'') hp of
                  None \<Rightarrow> Inl MissingBracket
                | Some e \<Rightarrow>
                    if Suc e = length hp then Inl MissingPort
                    else if Suc e = i then finish (take (e - 1) (drop 1 hp)) 1 (Suc e)
                    else if hp ! Suc e = CHR '':'' then Inl TooManyColons
                    else Inl MissingPort)
             else
               let host = take i hp
               in if CHR '':'' \<in> set host then Inl TooManyColons else finish host 0 0)"

definition JoinHostPort :: "string \<Rightarrow> string \<Rightarrow> string" where
  "JoinHostPort host port =
     (if CHR '':'' \<in> set host then ''['' @ host @ '']:'' @ port else host @ '':'' @ port)"

lemma index_of_None: "index_of c xs = None \<longleftrightarrow> c \<notin> set xs"
  by (induction xs) auto

lemma index_of_append: "c \<notin> set xs \<Longrightarrow> index_of c (xs @ c # ys) = Some (length xs)"
  by (induction xs) auto

lemma last_index_of_append: "c \<notin> set ys \<Longrightarrow> last_index_of c (xs @ c # ys) = Some (length xs)"
  by (simp add: last_index_of_def index_of_append)

text \<open>Joining and splitting are inverse on addresses whose parts hold no bracket.\<close>

lemma split_join:
  assumes "CHR '':'' \<notin> set port" and "CHR ''['' \<notin> set host" "CHR '']'' \<notin> set host"
    and "CHR ''['' \<notin> set port" "CHR '']'' \<notin> set port"
  shows "SplitHostPort (JoinHostPort host port) = Inr (host, port)"
proof (cases "CHR '':'' \<in> set host")
  case True
  let ?s = "CHR ''['' # host @ CHR '']'' # CHR '':'' # port"
  have "last_index_of (CHR '':'') ?s = Some (length host + 2)"
    using last_index_of_append [OF assms(1), of "CHR ''['' # host @ '']''"] by simp
  moreover have "index_of (CHR '']'') ?s = Some (Suc (length host))"
    using index_of_append [of "CHR '']''" "CHR ''['' # host"] assms(3) by simp
  ultimately show ?thesis using True assms by (simp add: SplitHostPort_def JoinHostPort_def)
next
  case False
  have "last_index_of (CHR '':'') (host @ CHR '':'' # port) = Some (length host)"
    by (rule last_index_of_append [OF assms(1)])
  moreover have "(host @ CHR '':'' # port) ! 0 \<noteq> CHR ''[''"
    using assms(2) by (cases host) auto
  ultimately show ?thesis using False assms by (simp add: SplitHostPort_def JoinHostPort_def)
qed

end
