(* ===== verification/Devid.thy ===== *)
theory Devid
  imports Peersh_Prelude
begin

text \<open>
  \<^verbatim>\<open>core/devid\<close>: a device is named by its public key. SHA-256 is a parameter; what the code
  relies on is that a digest has 32 bytes.
\<close>

definition devid_Length :: nat where
  "devid_Length = 16"

definition rawBytes :: nat where
  "rawBytes = 10"

definition Derive :: "(bytes \<Rightarrow> bytes) \<Rightarrow> bytes \<Rightarrow> string" where
  "Derive sha256 publicKey =
     (if length publicKey = 0 then []
      else base32_encode (take rawBytes (sha256 publicKey)))"

datatype devid_err = WrongLength nat nat | ErrMismatch

definition Verify :: "(bytes \<Rightarrow> bytes) \<Rightarrow> string \<Rightarrow> bytes \<Rightarrow> devid_err option" where
  "Verify sha256 did publicKey =
     (if length did \<noteq> devid_Length then Some (WrongLength (length did) devid_Length)
      else if Derive sha256 publicKey \<noteq> did then Some ErrMismatch
      else None)"

lemma length_Derive:
  assumes "\<And>k. length (sha256 k) = 32"
  shows "length (Derive sha256 k) = (if k = [] then 0 else devid_Length)"
  by (simp add: Derive_def length_base32_encode assms rawBytes_def devid_Length_def)

lemma Verify_ok_iff: "Verify sha256 did k = None \<longleftrightarrow> length did = 16 \<and> Derive sha256 k = did"
  by (simp add: Verify_def devid_Length_def)

text \<open>The device ID of every key is sixteen characters of the base32 alphabet (the empty
  key has none), and \<^verbatim>\<open>Verify\<close> accepts a key for exactly the ID derived from it, and no key for
  an ID of another length.\<close>

theorem devid_verify_exact:
  assumes "\<And>k. length (sha256 k) = 32"
  shows "(k \<noteq> [] \<longrightarrow> length (Derive sha256 k) = devid_Length \<and> set (Derive sha256 k) \<subseteq> set base32_alphabet)
    \<and> (Verify sha256 did k = None \<longleftrightarrow> k \<noteq> [] \<and> did = Derive sha256 k)
    \<and> (Verify sha256 did [] \<noteq> None)"
  by (auto simp: Verify_ok_iff devid_Length_def Derive_def rawBytes_def length_base32_encode assms
      dest!: set_base32_encode [THEN subsetD])

lemma devid_verify_exact_witness:
  "Verify (\<lambda>k. replicate 32 0) (Derive (\<lambda>k. replicate 32 0) [1]) [1] = None"
  using devid_verify_exact [of "\<lambda>k. replicate 32 0" "[1]" "Derive (\<lambda>k. replicate 32 0) [1]"] by simp

end
