(* ===== verification/Peer_Tls.thy ===== *)
theory Peer_Tls
  imports Devid Filepath
begin

text \<open>
  \<^verbatim>\<open>core/transport/peertls\<close>: the device key on disk and the checks of a peer's certificate. The
  X.509, PEM and PKCS #8 codecs, key generation and SHA-256 are arguments; the TLS library calls
  the check with the certificates the peer presented and holds the private key it proved.
\<close>

definition alpn :: string where
  "alpn = ''peersh/1''"

definition KeyFile_name :: string where
  "KeyFile_name = ''key.pem''"

datatype public_key = Ed25519 bytes | OtherKey

datatype tls_err = NoCertificate | ParseLeaf | NotEd25519 | DeviceMismatch string string

text \<open>\<open>parse\<close> is \<^verbatim>\<open>x509.ParseCertificate\<close>, reduced to the public key of the certificate.\<close>

definition verifyEd25519Leaf ::
  "(bytes \<Rightarrow> bytes) \<Rightarrow> (bytes \<Rightarrow> public_key option) \<Rightarrow> string \<Rightarrow> bytes list \<Rightarrow> tls_err option" where
  "verifyEd25519Leaf sha256 parse expected rawCerts =
     (case rawCerts of
        [] \<Rightarrow> Some NoCertificate
      | c # _ \<Rightarrow>
         (case parse c of
            None \<Rightarrow> Some ParseLeaf
          | Some OtherKey \<Rightarrow> Some NotEd25519
          | Some (Ed25519 pub) \<Rightarrow>
              if expected = [] then None
              else let got = Derive sha256 pub in if got \<noteq> expected then Some (DeviceMismatch got expected) else None))"

definition PeerDeviceID :: "(bytes \<Rightarrow> bytes) \<Rightarrow> public_key list \<Rightarrow> string" where
  "PeerDeviceID sha256 peerCertificates =
     (case peerCertificates of
        [] \<Rightarrow> []
      | Ed25519 pub # _ \<Rightarrow> Derive sha256 pub
      | OtherKey # _ \<Rightarrow> [])"

record tls_config =
  tc_RequireClientCert :: bool
  tc_InsecureSkipVerify :: bool
  tc_NextProtos :: "string list"
  tc_Verify :: "bytes list \<Rightarrow> tls_err option"

definition ServerTLSConfig :: "(bytes \<Rightarrow> bytes) \<Rightarrow> (bytes \<Rightarrow> public_key option) \<Rightarrow> tls_config" where
  "ServerTLSConfig sha256 parse =
     \<lparr>tc_RequireClientCert = True, tc_InsecureSkipVerify = False, tc_NextProtos = [alpn],
      tc_Verify = verifyEd25519Leaf sha256 parse []\<rparr>"

definition ClientTLSConfig :: "(bytes \<Rightarrow> bytes) \<Rightarrow> (bytes \<Rightarrow> public_key option) \<Rightarrow> string \<Rightarrow> tls_config" where
  "ClientTLSConfig sha256 parse expectedServerDeviceID =
     \<lparr>tc_RequireClientCert = False, tc_InsecureSkipVerify = True, tc_NextProtos = [alpn],
      tc_Verify = verifyEd25519Leaf sha256 parse expectedServerDeviceID\<rparr>"

section \<open>The key on disk\<close>

datatype key_err = DirEmpty | MkdirError | NotPEM | ParsePKCS8 | NotEd25519Key | GenerateError | MarshalError | WriteKeyError

record key_codec =
  pem_Decode :: "bytes \<Rightarrow> bytes option"
  pem_Encode :: "bytes \<Rightarrow> bytes"
  ParsePKCS8 :: "bytes \<Rightarrow> (bytes option) option"
  MarshalPKCS8 :: "bytes \<Rightarrow> bytes option"

definition parsePrivateKey :: "key_codec \<Rightarrow> bytes \<Rightarrow> key_err + bytes" where
  "parsePrivateKey kc raw =
     (case pem_Decode kc raw of
        None \<Rightarrow> Inl NotPEM
      | Some blk \<Rightarrow>
         (case key_codec.ParsePKCS8 kc blk of
            None \<Rightarrow> Inl key_err.ParsePKCS8
          | Some None \<Rightarrow> Inl NotEd25519Key
          | Some (Some priv) \<Rightarrow> Inr priv))"

definition writeKey :: "key_codec \<Rightarrow> bool \<Rightarrow> (string, bytes) gomap \<Rightarrow> string \<Rightarrow> bytes \<Rightarrow> key_err + (string, bytes) gomap" where
  "writeKey kc open_ok files path priv =
     (case MarshalPKCS8 kc priv of
        None \<Rightarrow> Inl MarshalError
      | Some der \<Rightarrow> if open_ok then Inr (gm_put path (pem_Encode kc der) files) else Inl WriteKeyError)"

text \<open>\<open>mkdir_ok\<close> and \<open>open_ok\<close> are what the operating system answers, \<open>generated\<close> what the key
  generator returns.\<close>

definition LoadOrGenerateKey ::
  "key_codec \<Rightarrow> bool \<Rightarrow> bool \<Rightarrow> bytes option \<Rightarrow> (string, bytes) gomap \<Rightarrow> string
     \<Rightarrow> (string, bytes) gomap \<times> (key_err + bytes)" where
  "LoadOrGenerateKey kc mkdir_ok open_ok generated files dir =
     (if dir = [] then (files, Inl DirEmpty)
      else if \<not> mkdir_ok then (files, Inl MkdirError)
      else
        let keyPath = Join2 dir KeyFile_name
        in (case gm_get files keyPath of
              Some raw \<Rightarrow> (files, parsePrivateKey kc raw)
            | None \<Rightarrow>
               (case generated of
                  None \<Rightarrow> (files, Inl GenerateError)
                | Some priv \<Rightarrow>
                   (case writeKey kc open_ok files keyPath priv of
                      Inl e \<Rightarrow> (files, Inl e)
                    | Inr files' \<Rightarrow> (files', Inr priv)))))"

section \<open>Properties\<close>

text \<open>The codecs read back what they wrote.\<close>

definition codec_ok :: "key_codec \<Rightarrow> bool" where
  "codec_ok kc \<longleftrightarrow> (\<forall>der. pem_Decode kc (pem_Encode kc der) = Some der)
     \<and> (\<forall>priv der. MarshalPKCS8 kc priv = Some der \<longrightarrow> key_codec.ParsePKCS8 kc der = Some (Some priv))"

text \<open>A device keeps its identity: once a key has been loaded or generated, every later start
  with the same directory returns the same key, whatever the generator would give, and writes
  nothing.\<close>

theorem device_key_stable:
  assumes "codec_ok kc" and "LoadOrGenerateKey kc mk op gen files dir = (files', Inr priv)"
  shows "LoadOrGenerateKey kc True op' gen' files' dir = (files', Inr priv)"
  using assms
  by (auto simp: LoadOrGenerateKey_def Let_def writeKey_def parsePrivateKey_def codec_ok_def
      split: if_splits option.splits sum.splits)

definition demo_codec :: key_codec where
  "demo_codec = \<lparr>pem_Decode = Some, pem_Encode = id, ParsePKCS8 = (\<lambda>d. Some (Some d)), MarshalPKCS8 = Some\<rparr>"

theorem device_key_stable_witness:
  "LoadOrGenerateKey demo_codec True True (Some [2]) [(''d/key.pem'', [1])] ''d'' = ([(''d/key.pem'', [1])], Inr [1])"
proof (rule device_key_stable)
  show "codec_ok demo_codec" by (simp add: codec_ok_def demo_codec_def)
  show "LoadOrGenerateKey demo_codec True True (Some [1]) [] ''d'' = ([(''d/key.pem'', [1])], Inr [1])" by code_simp
qed

text \<open>A client that pins a device accepts exactly the certificates whose key that device's name is
  derived from; a host accepts every ed25519 certificate and knows the peer by the same derivation,
  so the name it authorises is the one the client's own key determines.\<close>

theorem pinned_identity:
  assumes "expected \<noteq> []"
  shows "(tc_Verify (ClientTLSConfig sha256 parse expected) certs = None
      \<longleftrightarrow> (\<exists>c cs pub. certs = c # cs \<and> parse c = Some (Ed25519 pub) \<and> Derive sha256 pub = expected))
    \<and> (tc_Verify (ServerTLSConfig sha256 parse) certs = None
      \<longleftrightarrow> (\<exists>c cs pub. certs = c # cs \<and> parse c = Some (Ed25519 pub)
            \<and> PeerDeviceID sha256 (map (the \<circ> parse) certs) = Derive sha256 pub))"
  using assms
  by (auto simp: ClientTLSConfig_def ServerTLSConfig_def verifyEd25519Leaf_def PeerDeviceID_def Let_def
      split: list.splits option.splits public_key.splits if_splits)

theorem pinned_identity_witness:
  "tc_Verify (ClientTLSConfig (\<lambda>k. replicate 32 0) (\<lambda>c. Some (Ed25519 c)) (Derive (\<lambda>k. replicate 32 0) [1])) [[1]] = None"
proof -
  have "Derive (\<lambda>k. replicate 32 0) [1] \<noteq> []" by code_simp
  from pinned_identity [OF this, of "\<lambda>k. replicate 32 0" "\<lambda>c. Some (Ed25519 c)" "[[1]]"] show ?thesis by simp
qed

end
