(* ===== verification/Host_Main.thy ===== *)
theory Host_Main
  imports Files Notify Pwsh_Manager Pwsh_Host Peer_Auth Punching Net Peer_Tls
begin

text \<open>
  \<^verbatim>\<open>windows/cmd/peershd\<close>: the host program. It decides how to listen and how to authenticate to
  the signaling server, answers the Connect messages that arrive there, admits QUIC connections,
  and serves the streams of each of them. The network, the clock and the processes are arguments;
  what the program writes to a stream is a value.
\<close>

section \<open>Listening\<close>

definition protocolVersion :: u32 where
  "protocolVersion = 2"

definition defaultDirectListen :: string where
  "defaultDirectListen = ''127.0.0.1:7777''"

definition defaultSignalingListen :: string where
  "defaultSignalingListen = '':7777''"

definition supportedCapabilities :: "string list" where
  "supportedCapabilities = [''pty.v1'', ''files.v1'']"

definition effectiveListen :: "string \<Rightarrow> string \<Rightarrow> bool \<Rightarrow> string" where
  "effectiveListen listen signalingURL listenExplicit =
     (if signalingURL \<noteq> [] \<and> \<not> listenExplicit \<and> listen = defaultDirectListen then defaultSignalingListen else listen)"

definition envOr :: "(string \<Rightarrow> string) \<Rightarrow> string \<Rightarrow> string \<Rightarrow> string" where
  "envOr env key fallback = (if env key \<noteq> [] then env key else fallback)"

text \<open>Methods of \<^verbatim>\<open>net.IP\<close>.\<close>

definition IPv4zero :: bytes where
  "IPv4zero = v4InV6Prefix @ [0, 0, 0, 0]"

definition IsUnspecified :: "bytes \<Rightarrow> bool" where
  "IsUnspecified ip \<longleftrightarrow> IP_Equal ip IPv4zero \<or> IP_Equal ip (replicate 16 0)"

definition IsLoopback :: "bytes \<Rightarrow> bool" where
  "IsLoopback ip = (case To4 ip of Some ip4 \<Rightarrow> ip4 ! 0 = 127 | None \<Rightarrow> IP_Equal ip (replicate 15 0 @ [1]))"

definition IsLinkLocalUnicast :: "bytes \<Rightarrow> bool" where
  "IsLinkLocalUnicast ip =
     (case To4 ip of
        Some ip4 \<Rightarrow> ip4 ! 0 = 169 \<and> ip4 ! 1 = 254
      | None \<Rightarrow> length ip = 16 \<and> ip ! 0 = 0xfe \<and> ip ! 1 AND 0xc0 = 0x80)"

definition IsLinkLocalMulticast :: "bytes \<Rightarrow> bool" where
  "IsLinkLocalMulticast ip =
     (case To4 ip of
        Some ip4 \<Rightarrow> ip4 ! 0 = 224 \<and> ip4 ! 1 = 0 \<and> ip4 ! 2 = 0
      | None \<Rightarrow> length ip = 16 \<and> ip ! 0 = 0xff \<and> ip ! 1 AND 0x0f = 0x02)"

text \<open>An address resolved without a host has no IP, which is the empty list.\<close>

definition isLoopbackBind :: "udp_addr option \<Rightarrow> bool" where
  "isLoopbackBind a =
     (case a of
        None \<Rightarrow> False
      | Some (ip, port) \<Rightarrow> if ip = [] then False else if IsUnspecified ip then False else IsLoopback ip)"

text \<open>The guard of \<^verbatim>\<open>run\<close> in direct mode.\<close>

definition bind_refused :: "string \<Rightarrow> udp_addr \<Rightarrow> bool \<Rightarrow> bool" where
  "bind_refused signalingURL a insecureDirect \<longleftrightarrow> signalingURL = [] \<and> \<not> isLoopbackBind (Some a) \<and> \<not> insecureDirect"

definition defaultCertDir :: "bool \<Rightarrow> (string \<Rightarrow> string) \<Rightarrow> string option \<Rightarrow> string" where
  "defaultCertDir windows env home =
     (if windows \<and> env ''LOCALAPPDATA'' \<noteq> [] then Join2 (Join2 (env ''LOCALAPPDATA'') ''peersh'') ''dev''
      else if env ''XDG_DATA_HOME'' \<noteq> [] then Join2 (Join2 (env ''XDG_DATA_HOME'') ''peersh'') ''dev''
      else (case home of
              Some h \<Rightarrow> Join2 (Join2 (Join2 (Join2 h ''.local'') ''share'') ''peersh'') ''dev''
            | None \<Rightarrow> Join2 ''.'' ''peersh-dev''))"

definition hostPlatform :: "string \<Rightarrow> string" where
  "hostPlatform goos = (if goos = ''darwin'' then ''mac'' else if goos = ''windows'' then ''windows'' else goos)"

definition readPSKFile :: "(string \<Rightarrow> string + string) \<Rightarrow> string \<Rightarrow> string + bytes" where
  "readPSKFile readFile path =
     (case readFile path of
        Inl e \<Rightarrow> Inl e
      | Inr raw \<Rightarrow> (case hex_decode (TrimSpace raw) of None \<Rightarrow> Inl ''psk file: bad hex'' | Some b \<Rightarrow> Inr b))"

section \<open>The telemetry endpoint\<close>

datatype metrics_err = EmptyAddress | ParseAddress addr_err | AllInterfaces | NonLoopback

definition validateMetricsBind :: "(string \<Rightarrow> bytes option) \<Rightarrow> string \<Rightarrow> string \<Rightarrow> metrics_err option" where
  "validateMetricsBind parseIP addr token =
     (if addr = [] then Some EmptyAddress
      else
       (case SplitHostPort addr of
          Inl e \<Rightarrow> Some (ParseAddress e)
        | Inr (h, _) \<Rightarrow>
            if token \<noteq> [] then None
            else if h = [] then Some AllInterfaces
            else if (case parseIP h of None \<Rightarrow> False | Some ip \<Rightarrow> IsLoopback ip) then None
            else if h = ''localhost'' then None
            else Some NonLoopback))"

datatype metrics_answer = MetricsUnauthorized | MetricsServed

definition metricsTokenHandler :: "string \<Rightarrow> string \<Rightarrow> metrics_answer" where
  "metricsTokenHandler token got =
     (if token = [] then MetricsServed
      else if \<not> HasPrefix got ''Bearer '' then MetricsUnauthorized
      else if drop 7 got \<noteq> token then MetricsUnauthorized
      else MetricsServed)"

definition startMetricsServer ::
  "(string \<Rightarrow> bytes option) \<Rightarrow> string \<Rightarrow> string \<Rightarrow> metrics_err + (string \<times> (string \<Rightarrow> metrics_answer))" where
  "startMetricsServer parseIP addr token =
     (case validateMetricsBind parseIP addr token of Some e \<Rightarrow> Inl e | None \<Rightarrow> Inr (addr, metricsTokenHandler token))"

section \<open>Flags\<close>

record runOpts =
  ro_listen :: string
  ro_certDir :: string
  ro_signalingURL :: string
  ro_listenExplicit :: bool
  ro_insecureDirect :: bool
  ro_userID :: string
  ro_pskFile :: string
  ro_displayName :: string
  ro_stunServer :: string
  ro_firebaseProjectID :: string
  ro_firebaseCredentials :: string
  ro_firebaseEmail :: string
  ro_firebaseUID :: string
  ro_firebaseAPIKey :: string
  ro_firebaseRegion :: string
  ro_firebaseRtdbRegion :: string
  ro_firebasePairCode :: string
  ro_firebaseTokenFile :: string
  ro_firebaseLogin :: bool
  ro_firebaseLoginOnly :: bool
  ro_googleClientID :: string
  ro_googleClientSecret :: string
  ro_metricsAddr :: string
  ro_metricsToken :: string

text \<open>The flag defaults, with the values \<^verbatim>\<open>buildconfig.go\<close> may embed at link time.\<close>

record embedded =
  em_SignalingURL :: string
  em_FirebaseProjectID :: string
  em_FirebaseAPIKey :: string
  em_FirebaseRegion :: string
  em_FirebaseRtdbRegion :: string
  em_GoogleClientID :: string
  em_GoogleClientSecret :: string

definition flag_defaults :: "embedded \<Rightarrow> runOpts" where
  "flag_defaults b =
     \<lparr>ro_listen = defaultDirectListen, ro_certDir = [], ro_signalingURL = em_SignalingURL b, ro_listenExplicit = False,
      ro_insecureDirect = False, ro_userID = [], ro_pskFile = [], ro_displayName = [], ro_stunServer = DefaultSTUNServer,
      ro_firebaseProjectID = em_FirebaseProjectID b, ro_firebaseCredentials = [], ro_firebaseEmail = [], ro_firebaseUID = [],
      ro_firebaseAPIKey = em_FirebaseAPIKey b,
      ro_firebaseRegion = (if em_FirebaseRegion b = [] then ''asia-northeast1'' else em_FirebaseRegion b),
      ro_firebaseRtdbRegion = (if em_FirebaseRtdbRegion b = [] then ''asia-southeast1'' else em_FirebaseRtdbRegion b),
      ro_firebasePairCode = [], ro_firebaseTokenFile = [], ro_firebaseLogin = False, ro_firebaseLoginOnly = False,
      ro_googleClientID = em_GoogleClientID b, ro_googleClientSecret = em_GoogleClientSecret b,
      ro_metricsAddr = ''127.0.0.1:9101'', ro_metricsToken = []\<rparr>"

text \<open>After the flags are parsed (\<open>parse\<close> is the flag package; it also reports whether \<^verbatim>\<open>-listen\<close> was
  given), the directory defaults to the platform's and two settings follow the environment.\<close>

definition runWithCtx ::
  "embedded \<Rightarrow> (runOpts \<Rightarrow> string list \<Rightarrow> string + (runOpts \<times> bool)) \<Rightarrow> bool \<Rightarrow> (string \<Rightarrow> string) \<Rightarrow> string option
     \<Rightarrow> string list \<Rightarrow> string + runOpts" where
  "runWithCtx b parse windows env home args =
     (case parse (flag_defaults b) args of
        Inl e \<Rightarrow> Inl e
      | Inr (r, listenExplicit) \<Rightarrow>
          Inr (r\<lparr>ro_certDir := (if ro_certDir r = [] then defaultCertDir windows env home else ro_certDir r),
                 ro_listenExplicit := listenExplicit,
                 ro_metricsAddr := envOr env ''PEERSH_METRICS_ADDR'' (ro_metricsAddr r),
                 ro_metricsToken := envOr env ''PEERSH_METRICS_TOKEN'' (ro_metricsToken r)\<rparr>))"

section \<open>Which credentials\<close>

definition useFirebase :: "runOpts \<Rightarrow> bool" where
  "useFirebase r \<longleftrightarrow> ro_firebaseCredentials r \<noteq> [] \<or> ro_firebaseProjectID r \<noteq> [] \<or> ro_firebaseEmail r \<noteq> []
     \<or> ro_firebaseUID r \<noteq> [] \<or> ro_firebasePairCode r \<noteq> [] \<or> ro_firebaseTokenFile r \<noteq> [] \<or> ro_firebaseLogin r"

text \<open>The constructors of a token source the function chooses among, with their arguments.\<close>

datatype token_choice =
    GoogleSignIn_call string string string string
  | Pair_call string string string string string
  | New_call string string string string string
  | NewRefreshSource_call string string

datatype source_err = MissingProjectOrKey | MissingEmailOrUID | SourceFailed

definition buildFirebaseTokenSource :: "string \<Rightarrow> (token_choice \<Rightarrow> 'src option) \<Rightarrow> runOpts \<Rightarrow> source_err + 'src" where
  "buildFirebaseTokenSource defaultPath source r =
     (let attempt = (\<lambda>c. case source c of None \<Rightarrow> Inl SourceFailed | Some s \<Rightarrow> Inr s)
      in if ro_firebaseAPIKey r = [] \<or> ro_firebaseProjectID r = [] then Inl MissingProjectOrKey
      else
        let tokenPath = (if ro_firebaseTokenFile r = [] then defaultPath else ro_firebaseTokenFile r)
        in if ro_firebaseLogin r
           then attempt (GoogleSignIn_call (ro_googleClientID r) (ro_googleClientSecret r) (ro_firebaseAPIKey r) tokenPath)
           else if ro_firebasePairCode r \<noteq> []
           then attempt (Pair_call (ro_firebaseProjectID r) (ro_firebaseRegion r) (ro_firebaseAPIKey r) (ro_firebasePairCode r) tokenPath)
           else if ro_firebaseCredentials r \<noteq> []
           then if ro_firebaseEmail r = [] \<and> ro_firebaseUID r = [] then Inl MissingEmailOrUID
                else attempt (New_call (ro_firebaseProjectID r) (ro_firebaseCredentials r) (ro_firebaseEmail r) (ro_firebaseUID r) (ro_firebaseAPIKey r))
           else attempt (NewRefreshSource_call tokenPath (ro_firebaseAPIKey r)))"

section \<open>Start-up\<close>

text \<open>What the start-up obtains from the operating system, the network and the Firebase services.\<close>

record 'src run_env =
  e_loadKey :: "string \<Rightarrow> bytes option"
  e_cert :: "bytes \<Rightarrow> bool"
  e_resolve :: "string \<Rightarrow> udp_addr option"
  e_listenUDP :: "udp_addr \<Rightarrow> udp_addr option"
  e_discover :: "string \<Rightarrow> udp_addr option"
  e_transport :: bool
  e_parseIP :: "string \<Rightarrow> bytes option"
  e_defaultPath :: string
  e_source :: "token_choice \<Rightarrow> 'src option"
  e_uid :: "'src \<Rightarrow> string"
  e_wake :: "'src \<Rightarrow> bool"
  e_hostname :: string
  e_readFile :: "string \<Rightarrow> string + string"

datatype run_err = LoadKey | BuildCert | ResolveListen | BindRefused | ListenUDP | TransportListen
  | MetricsFailed metrics_err | SourceErr source_err | WakeRuntime | NeedUserAndPSK | ReadPSK string

text \<open>What the accept loop runs with: \<open>srv_metrics\<close> is the telemetry endpoint, \<open>srv_notify\<close> whether
  notifications can be sent.\<close>

record serving =
  srv_listenAddr :: udp_addr
  srv_authz :: "Authz option"
  srv_selfUserID :: string
  srv_displayName :: string
  srv_srflx :: "udp_addr option"
  srv_metrics :: "(string \<times> (string \<Rightarrow> metrics_answer)) option"
  srv_notify :: bool

datatype run_out = LoggedIn string | Serving serving

definition run_auth ::
  "'src run_env \<Rightarrow> runOpts \<Rightarrow> udp_addr \<Rightarrow> udp_addr option \<Rightarrow> (string \<times> (string \<Rightarrow> metrics_answer)) option \<Rightarrow> run_err + run_out" where
  "run_auth e r listenAddr srflx metrics =
     (if ro_signalingURL r = []
      then Inr (Serving \<lparr>srv_listenAddr = listenAddr, srv_authz = None, srv_selfUserID = [], srv_displayName = ro_displayName r,
                         srv_srflx = srflx, srv_metrics = metrics, srv_notify = False\<rparr>)
      else
        let serving = \<lparr>srv_listenAddr = listenAddr, srv_authz = Some (authz_New (60 * second)), srv_selfUserID = [],
                       srv_displayName = (if ro_displayName r = [] then e_hostname e else ro_displayName r),
                       srv_srflx = srflx, srv_metrics = metrics, srv_notify = False\<rparr>
        in if useFirebase r then
             (case buildFirebaseTokenSource (e_defaultPath e) (e_source e) r of
                Inl err \<Rightarrow> Inl (SourceErr err)
              | Inr src \<Rightarrow>
                  if ro_firebaseLoginOnly r then Inr (LoggedIn (e_uid e src))
                  else if \<not> e_wake e src then Inl WakeRuntime
                  else Inr (Serving (serving\<lparr>srv_selfUserID := e_uid e src, srv_notify := True\<rparr>)))
           else if ro_userID r = [] \<or> ro_pskFile r = [] then Inl NeedUserAndPSK
           else (case readPSKFile (e_readFile e) (ro_pskFile r) of
                   Inl err \<Rightarrow> Inl (ReadPSK err)
                 | Inr s \<Rightarrow> Inr (Serving (serving\<lparr>srv_selfUserID := ro_userID r\<rparr>))))"

definition run_start :: "'src run_env \<Rightarrow> runOpts \<Rightarrow> run_err + run_out" where
  "run_start e r =
     (let listen = effectiveListen (ro_listen r) (ro_signalingURL r) (ro_listenExplicit r)
      in case e_loadKey e (ro_certDir r) of
           None \<Rightarrow> Inl LoadKey
         | Some priv \<Rightarrow>
             if \<not> e_cert e priv then Inl BuildCert
             else (case e_resolve e listen of
                None \<Rightarrow> Inl ResolveListen
              | Some a \<Rightarrow>
                  if bind_refused (ro_signalingURL r) a (ro_insecureDirect r) then Inl BindRefused
                  else (case e_listenUDP e a of
                     None \<Rightarrow> Inl ListenUDP
                   | Some listenAddr \<Rightarrow>
                       let srflx = (if ro_signalingURL r \<noteq> [] \<and> ro_stunServer r \<noteq> [] then e_discover e (ro_stunServer r) else None)
                       in if \<not> e_transport e then Inl TransportListen
                          else if ro_metricsAddr r = [] then run_auth e r listenAddr srflx None
                          else (case startMetricsServer (e_parseIP e) (ro_metricsAddr r) (ro_metricsToken r) of
                                  Inl err \<Rightarrow> Inl (MetricsFailed err)
                                | Inr m \<Rightarrow> run_auth e r listenAddr srflx (Some m)))))"

section \<open>Answering Connect messages\<close>

definition enumerateCandidates ::
  "(bytes \<Rightarrow> string) \<Rightarrow> (bytes option list) option \<Rightarrow> udp_addr \<Rightarrow> udp_addr option \<Rightarrow> EndpointCandidate list" where
  "enumerateCandidates ipString interfaceAddrs listen srflx =
     (let out = (case srflx of
                   None \<Rightarrow> []
                 | Some (ip, port) \<Rightarrow> [\<lparr>Address = ipString ip, Port = of_nat port, Type = CANDIDATE_TYPE_SERVER_REFLEXIVE\<rparr>]);
          hostc = (\<lambda>ip. \<lparr>Address = ipString ip, Port = of_nat (snd listen), Type = CANDIDATE_TYPE_HOST\<rparr>)
      in if \<not> IsUnspecified (fst listen) then out @ [hostc (fst listen)]
         else
          (case interfaceAddrs of
             None \<Rightarrow> out
           | Some addrs \<Rightarrow>
               out @ concat (map (\<lambda>a. case a of
                   None \<Rightarrow> []
                 | Some ip \<Rightarrow> if IsLoopback ip \<or> IsLinkLocalUnicast ip \<or> IsLinkLocalMulticast ip then [] else [hostc ip]) addrs)))"

text \<open>What a received Connect does: the grant, the punched addresses and the reply; \<open>sent\<close> is
  whether the reply could be sent.\<close>

definition handle_connect ::
  "(string \<Rightarrow> bytes option) \<Rightarrow> Authz option \<Rightarrow> ConnectMsg \<Rightarrow> time \<Rightarrow> Authz option \<times> udp_addr list" where
  "handle_connect parseIP authz m now =
     (map_option (\<lambda>a. authz_Allow a (FromDeviceId m) now) authz,
      CandidatesToUDPAddrs parseIP (SortCandidates parseIP (Candidates m)))"

datatype host_recv = RecvConnect ConnectMsg | RecvDeadline | RecvCanceled | RecvFailed

fun signaling_loop ::
  "(string \<Rightarrow> bytes option) \<Rightarrow> Authz option \<Rightarrow> (time \<times> host_recv) list \<Rightarrow> Authz option \<times> (string \<times> udp_addr list) list" where
  "signaling_loop parseIP authz [] = (authz, [])"
| "signaling_loop parseIP authz ((now, r) # rs) =
     (case r of
        RecvConnect m \<Rightarrow>
          (case handle_connect parseIP authz m now of
             (authz', peers) \<Rightarrow>
               (case signaling_loop parseIP authz' rs of (a, out) \<Rightarrow> (a, (FromDeviceId m, peers) # out)))
      | _ \<Rightarrow> (authz, []))"

definition wakeShortTTL :: duration where
  "wakeShortTTL = 15 * second"

definition wakeDrainTTL :: duration where
  "wakeDrainTTL = 5 * second"

datatype wake_end = WindowClosed | WakeCanceled | WakeRecvError

text \<open>The loop of \<^verbatim>\<open>handleWakeBatch\<close>. A round begins at \<open>start\<close>; the receive it makes ends at \<open>now\<close>
  with \<open>r\<close>, and the reply has been sent (\<open>sent\<close>) at \<open>after\<close>, when the next round begins. A receive
  with no message by the deadline ends with \<^const>\<open>RecvDeadline\<close>. The result is the time the loop
  ends.\<close>

fun wake_loop ::
  "(string \<Rightarrow> bytes option) \<Rightarrow> Authz option \<Rightarrow> time \<Rightarrow> time \<Rightarrow> (time \<times> host_recv \<times> time \<times> bool) list
     \<Rightarrow> Authz option \<times> wake_end \<times> time" where
  "wake_loop parseIP authz start deadline [] = (authz, WindowClosed, max start deadline)"
| "wake_loop parseIP authz start deadline ((now, r, after, sent) # rs) =
     (if deadline - start \<le> 0 then (authz, WindowClosed, start)
      else
       (case r of
          RecvDeadline \<Rightarrow> (authz, WindowClosed, now)
        | RecvCanceled \<Rightarrow> (authz, WakeCanceled, now)
        | RecvFailed \<Rightarrow> (authz, WakeRecvError, now)
        | RecvConnect m \<Rightarrow>
           (case handle_connect parseIP authz m now of
              (authz', peers) \<Rightarrow>
                if \<not> sent then wake_loop parseIP authz' after deadline rs
                else wake_loop parseIP authz' after
                       (if after + wakeDrainTTL > deadline then after + wakeDrainTTL else deadline) rs)))"

text \<open>The wake request is deleted only when the window closed.\<close>

definition handleWakeBatch ::
  "(string \<Rightarrow> bytes option) \<Rightarrow> Authz option \<Rightarrow> bool \<Rightarrow> bool \<Rightarrow> time \<Rightarrow> (time \<times> host_recv \<times> time \<times> bool) list
     \<Rightarrow> Authz option \<times> (bool \<times> time) option" where
  "handleWakeBatch parseIP authz token_ok dial_ok start rs =
     (if \<not> token_ok \<or> \<not> dial_ok then (authz, None)
      else
       (case wake_loop parseIP authz start (start + wakeShortTTL) rs of
          (authz', e, t) \<Rightarrow> (authz', Some (e = WindowClosed, t))))"

end
