(* ===== verification/Host_Serve.thy ===== *)
theory Host_Serve
  imports Host_Main
begin

text \<open>
  \<^verbatim>\<open>windows/cmd/peershd/main.go\<close>, serving a connection: who is admitted, the handshake, and the
  streams, each of which executes a command, drives a terminal or browses files. A stream's frames
  arrive as a list; what the terminal itself prints meanwhile is the session's business (see the
  theory of the PTY session) and is not part of what the stream's own goroutine writes.
\<close>

section \<open>Admission and handshake\<close>

record HostHello =
  hh_ProtocolVersion :: u32
  hh_SessionId :: string
  hh_IdleTimeoutSec :: u32

record HostServerHello =
  ho_ProtocolVersion :: u32
  ho_Capabilities :: "string list"
  ho_ServerId :: string
  ho_SessionId :: string
  ho_Reattached :: bool

datatype handshake_err = ReadHello | BadVersion u32 | AttachError pwsh_err | WriteHello

text \<open>\<open>hello\<close> is the first message if one can be read, \<open>started\<close> the PowerShell host a start would
  give, \<open>new\<close> the random session name, \<open>write_ok\<close> whether the answer can be written.\<close>

definition doHandshake ::
  "bool \<Rightarrow> SessionManager \<Rightarrow> HostHello option \<Rightarrow> nat option \<Rightarrow> string \<Rightarrow> time \<Rightarrow> time \<Rightarrow> bool
     \<Rightarrow> SessionManager \<times> HostServerHello list \<times> (handshake_err + (string \<times> nat option \<times> duration))" where
  "doHandshake avail mgr hello started new now now' write_ok =
     (case hello of
        None \<Rightarrow> (mgr, [], Inl ReadHello)
      | Some h \<Rightarrow>
          if hh_ProtocolVersion h \<noteq> protocolVersion
          then (mgr, [\<lparr>ho_ProtocolVersion = protocolVersion, ho_Capabilities = [], ho_ServerId = ''peershd/0.1'',
                       ho_SessionId = [], ho_Reattached = False\<rparr>], Inl (BadVersion (hh_ProtocolVersion h)))
          else
           (case (if avail
                  then (case AttachOrCreate mgr (hh_SessionId h) (hh_IdleTimeoutSec h) started new now now' of
                          (m, Inl e) \<Rightarrow> (m, Inl e)
                        | (m, Inr (i, hst, re)) \<Rightarrow> (m, Inr (i, Some hst, re)))
                  else (mgr, Inr ([], None, False))) of
              (m, Inl e) \<Rightarrow> (m, [], Inl (AttachError e))
            | (m, Inr (i, hst, re)) \<Rightarrow>
                if \<not> write_ok then (m, [], Inl WriteHello)
                else (m, [\<lparr>ho_ProtocolVersion = protocolVersion, ho_Capabilities = supportedCapabilities,
                           ho_ServerId = ''peershd/0.1'', ho_SessionId = i, ho_Reattached = re\<rparr>],
                      Inr (i, hst, ClampIdleTimeoutSec (hh_IdleTimeoutSec h)))))"

datatype conn_out = ConnRejected | NoControlStream | HandshakeFailed handshake_err | Served nat

definition admit :: "Authz option \<Rightarrow> string \<Rightarrow> time \<Rightarrow> Authz option \<times> bool" where
  "admit authz peerID now =
     (case authz of
        None \<Rightarrow> (None, True)
      | Some a \<Rightarrow>
          if peerID = [] then (Some a, False)
          else (case authz_Check a peerID now of (a', granted) \<Rightarrow> (Some a', granted)))"

text \<open>One connection from its first to its last moment: \<open>streams\<close> streams are accepted before the
  connection ends at \<open>t_end\<close>.\<close>

definition serveConn ::
  "bool \<Rightarrow> Authz option \<Rightarrow> SessionManager \<Rightarrow> string \<Rightarrow> time \<Rightarrow> bool \<Rightarrow> HostHello option \<Rightarrow> nat option \<Rightarrow> string
     \<Rightarrow> time \<Rightarrow> time \<Rightarrow> bool \<Rightarrow> nat \<Rightarrow> time \<Rightarrow> Authz option \<times> SessionManager \<times> conn_out" where
  "serveConn avail authz mgr peerID now ctrl_ok hello started new t1 t2 write_ok streams t_end =
     (case admit authz peerID now of
        (authz', False) \<Rightarrow> (authz', mgr, ConnRejected)
      | (authz', True) \<Rightarrow>
          if \<not> ctrl_ok then (authz', mgr, NoControlStream)
          else
           (case doHandshake avail mgr hello started new t1 t2 write_ok of
              (m, _, Inl e) \<Rightarrow> (authz', m, HandshakeFailed e)
            | (m, _, Inr (sid, hst, _)) \<Rightarrow> (authz', pw_Detach m sid t_end, Served streams)))"

section \<open>Streams\<close>

record PTYReq =
  pq_Cols :: u32
  pq_Rows :: u32
  pq_Command :: string
  pq_PtyId :: int
  pq_ReattachHandle :: string

datatype StreamRequest = ReqExec string | ReqPTY PTYReq | ReqFiles FilesRequest | ReqNone

datatype out_frame = AckOut string bool | DataOut bytes | ExitOut string

datatype in_frame = FInput bytes | FConfig "PTYNotificationConfig option" | FResize u32 u32 | FOther

text \<open>Opening or reattaching a terminal: the frames already written, and the handle with the result
  of the attachment. \<open>opened\<close> is the session a fresh open gives, or its error.\<close>

definition pty_open ::
  "'k Manager \<Rightarrow> string \<Rightarrow> PTYReq \<Rightarrow> 'k \<Rightarrow> string + nat \<Rightarrow> string \<Rightarrow> pty_err option \<Rightarrow> time
     \<Rightarrow> 'k Manager \<times> out_frame list \<times> (string \<times> AttachResult option) option" where
  "pty_open m own req sink opened h resize_res now =
     (let cols = ucast (pq_Cols req) :: u16; rows = ucast (pq_Rows req) :: u16
      in if pq_ReattachHandle req \<noteq> [] then
           (case Attach m own (pq_ReattachHandle req) (Some sink) now of
              Inl e \<Rightarrow> (m, [AckOut (pq_ReattachHandle req) False], None)
            | Inr (m1, r) \<Rightarrow>
                let m2 = (if cols > 0 \<and> rows > 0
                          then upd_sess m1 (rSession r) (fst (Session_Resize (heap m1 (rSession r)) cols rows resize_res))
                          else m1)
                in (m2, [], Some (pq_ReattachHandle req, Some r)))
         else
          (case opened of
             Inl e \<Rightarrow> (m, [ExitOut e], None)
           | Inr i \<Rightarrow>
               let label = (if pq_Command req = [] then ''auto'' else pq_Command req)
               in (case Register (upd_sess m i (Open cols rows)) h own i label (Some sink) now of
                     (m1, h', r) \<Rightarrow> (m1, [], Some (h', r)))))"

definition ack_frames :: "string \<Rightarrow> bytes \<Rightarrow> out_frame list" where
  "ack_frames h replayed = AckOut h True # (if length replayed > 0 then [DataOut replayed] else [])"

text \<open>The input loop until the stream ends; a write that fails does not end it.\<close>

fun pty_loop ::
  "(bytes \<Rightarrow> nat \<times> pty_err option) \<Rightarrow> (u16 \<Rightarrow> u16 \<Rightarrow> pty_err option) \<Rightarrow> nat
     \<Rightarrow> 'k Manager \<times> ptyNotifyState option \<Rightarrow> (time \<times> in_frame) list \<Rightarrow> 'k Manager \<times> ptyNotifyState option" where
  "pty_loop wres rres i st [] = st"
| "pty_loop wres rres i (m, n) ((now, f) # fs) =
     (case f of
        FInput d \<Rightarrow>
          pty_loop wres rres i
            (upd_sess m i (fst (Session_Write (heap m i) d (wres d))), map_option (\<lambda>s. onInput s now) n) fs
      | FConfig c \<Rightarrow> pty_loop wres rres i (m, map_option (\<lambda>s. setConfig s c) n) fs
      | FResize c r \<Rightarrow>
          pty_loop wres rres i
            (upd_sess m i (fst (Session_Resize (heap m i) (ucast c) (ucast r) (rres (ucast c) (ucast r)))), n) fs
      | FOther \<Rightarrow> pty_loop wres rres i (m, n) fs)"

text \<open>The whole stream. A manager that has been closed gives no session to attach to.\<close>

datatype pty_result = PtyRefused | PtyNoSession | PtyClosed

definition servePTYStream ::
  "'k Manager \<Rightarrow> ptyRegistry \<Rightarrow> string \<Rightarrow> PTYReq \<Rightarrow> 'k \<Rightarrow> string + nat \<Rightarrow> string \<Rightarrow> pty_err option \<Rightarrow> bool
     \<Rightarrow> (bytes \<Rightarrow> nat \<times> pty_err option) \<Rightarrow> (u16 \<Rightarrow> u16 \<Rightarrow> pty_err option) \<Rightarrow> time \<Rightarrow> (time \<times> in_frame) list \<Rightarrow> time
     \<Rightarrow> 'k Manager \<times> ptyRegistry \<times> out_frame list \<times> pty_result" where
  "servePTYStream m reg own req sink opened h resize_res notify wres rres now fs t_end =
     (case pty_open m own req sink opened h resize_res now of
        (m1, out, None) \<Rightarrow> (m1, reg, out, PtyRefused)
      | (m1, out, Some (h', None)) \<Rightarrow> (m1, reg, out, PtyNoSession)
      | (m1, out, Some (h', Some r)) \<Rightarrow>
          let reg1 = reg_Register reg (pq_PtyId req) (rSession r);
              n = (if notify then Some (newPTYNotifyState (pq_PtyId req)) else None);
              m2 = fst (pty_loop wres rres (rSession r) (m1, n) fs);
              m3 = Detach m2 (rToken r) t_end
          in (m3, reg_Unregister reg1 (pq_PtyId req), out @ ack_frames h' (rReplay r), PtyClosed))"

section \<open>Commands\<close>

datatype exec_frame = ExecStdout bytes | ExecStderr bytes | ExecDone

fun exec_loop ::
  "Output \<Rightarrow> Host \<Rightarrow> (recv_case \<times> bool) list \<Rightarrow> Host \<times> exec_frame list" where
  "exec_loop q h [] = (h, [])"
| "exec_loop q h ((c, write_ok) # cs) =
     (case Recv q h c of
        (q', h', RecvEOF) \<Rightarrow> (h', if write_ok then [ExecDone] else [])
      | (q', h', RecvCtxErr) \<Rightarrow> (h', [])
      | (q', h', NotReady) \<Rightarrow> exec_loop q' h' cs
      | (q', h', RecvChunk k) \<Rightarrow>
          if \<not> write_ok then (h', [])
          else (case exec_loop q' h' cs of
                  (h2, fs) \<Rightarrow> (h2, (if ck_Stream k = Stderr then ExecStderr (ck_Data k) else ExecStdout (ck_Data k)) # fs)))"

text \<open>\<open>cs\<close> are the ready cases of the receives with whether the client still takes the answer.\<close>

definition serveExecStream ::
  "Host option \<Rightarrow> string \<Rightarrow> bytes option \<Rightarrow> bool \<Rightarrow> (Host \<Rightarrow> Host) \<Rightarrow> (recv_case \<times> bool) list \<Rightarrow> Host option \<times> exec_frame list" where
  "serveExecStream hst cmd rnd written process cs =
     (case hst of
        None \<Rightarrow> (None, [ExecDone])
      | Some h \<Rightarrow>
         (case Exec h cmd rnd written of
            (h1, ExecOk q) \<Rightarrow> (case exec_loop q (process h1) cs of (h2, fs) \<Rightarrow> (Some h2, fs))
          | (h1, _) \<Rightarrow> (Some h1, [])))"

datatype stream_kind = KExec string | KPTY PTYReq | KFiles FilesRequest | KReadError | KNone

definition serveStream :: "StreamRequest option \<Rightarrow> stream_kind" where
  "serveStream req =
     (case req of
        None \<Rightarrow> KReadError
      | Some (ReqExec c) \<Rightarrow> KExec c
      | Some (ReqPTY p) \<Rightarrow> KPTY p
      | Some (ReqFiles f) \<Rightarrow> KFiles f
      | Some ReqNone \<Rightarrow> KNone)"


section \<open>Only announced devices are served\<close>

text \<open>The Connect messages and the incoming connections in the order they reach the table of
  grants; the result is the devices admitted, with the time.\<close>

datatype gate_ev = GConnect ConnectMsg | GConn string | GSweep

fun gate_step :: "Authz \<Rightarrow> time \<times> gate_ev \<Rightarrow> Authz \<times> (time \<times> string) list" where
  "gate_step a (t, GConnect m) = (the (fst (handle_connect (\<lambda>s. None) (Some a) m t)), [])"
| "gate_step a (t, GSweep) = (authz_Sweep a t, [])"
| "gate_step a (t, GConn d) =
     (case admit (Some a) d t of (a', granted) \<Rightarrow> (the a', if granted then [(t, d)] else []))"

fun gate_run :: "Authz \<Rightarrow> (time \<times> gate_ev) list \<Rightarrow> (time \<times> string) list" where
  "gate_run a [] = []"
| "gate_run a (e # es) = (case gate_step a e of (a', out) \<Rightarrow> out @ gate_run a' es)"

definition announced :: "string \<Rightarrow> (time \<times> gate_ev) list \<Rightarrow> time list" where
  "announced d es = concat (map (\<lambda>(t, e). case e of GConnect m \<Rightarrow> if FromDeviceId m = d then [t] else [] | _ \<Rightarrow> []) es)"

lemma announced_simps [simp]:
  "announced d [] = []"
  "announced d ((t, GConnect m) # es) = (if FromDeviceId m = d then t # announced d es else announced d es)"
  "announced d ((t, GConn p) # es) = announced d es"
  "announced d ((t, GSweep) # es) = announced d es"
  by (simp_all add: announced_def)

definition held :: "Authz \<Rightarrow> string \<Rightarrow> nat" where
  "held a d = (if gm_get (pending a) d = None then 0 else 1)"

text \<open>One step: what is admitted was held before and is held no longer.\<close>

lemma gate_step_spec:
  assumes "gomap_ok (pending a)" and "gate_step a (t, e) = (a', out)"
  shows "gomap_ok (pending a')" "ttl a' = ttl a"
    "length (filter (\<lambda>x. snd x = d) out) + held a' d \<le> held a d + length (announced d [(t, e)])"
    "\<forall>x \<in> set out. fst x = t \<and> (\<exists>u. gm_get (pending a) (snd x) = Some u \<and> t \<le> u)"
    "gm_get (pending a') d = Some u \<Longrightarrow> gm_get (pending a) d = Some u \<or> (\<exists>s \<in> set (announced d [(t, e)]). u = s + ttl a)"
proof -
  have "gomap_ok (pending a') \<and> ttl a' = ttl a
    \<and> length (filter (\<lambda>x. snd x = d) out) + held a' d \<le> held a d + length (announced d [(t, e)])
    \<and> (\<forall>x \<in> set out. fst x = t \<and> (\<exists>u. gm_get (pending a) (snd x) = Some u \<and> t \<le> u))
    \<and> (gm_get (pending a') d = Some u \<longrightarrow> gm_get (pending a) d = Some u \<or> (\<exists>s \<in> set (announced d [(t, e)]). u = s + ttl a))"
  proof (cases e)
    case (GConnect m)
    then show ?thesis using assms
      by (auto simp: handle_connect_def authz_Allow_def held_def simp del: map_of_eq_Some_iff split: if_splits)
  next
    case GSweep
    then show ?thesis using assms
      by (auto simp: authz_Sweep_def held_def gm_get_retain simp del: map_of_eq_Some_iff split: if_splits option.splits)
  next
    case (GConn p)
    then show ?thesis using assms
      by (auto simp: admit_def authz_Check_def held_def not_less simp del: map_of_eq_Some_iff split: if_splits option.splits)
  qed
  then show "gomap_ok (pending a')" "ttl a' = ttl a"
    "length (filter (\<lambda>x. snd x = d) out) + held a' d \<le> held a d + length (announced d [(t, e)])"
    "\<forall>x \<in> set out. fst x = t \<and> (\<exists>u. gm_get (pending a) (snd x) = Some u \<and> t \<le> u)"
    "gm_get (pending a') d = Some u \<Longrightarrow> gm_get (pending a) d = Some u \<or> (\<exists>s \<in> set (announced d [(t, e)]). u = s + ttl a)"
    by blast+
qed

lemma gate_run_spec:
  assumes "gomap_ok (pending a)"
  shows "length (filter (\<lambda>x. snd x = d) (gate_run a es)) \<le> held a d + length (announced d es)
    \<and> ((t, d) \<in> set (gate_run a es) \<longrightarrow> (\<exists>u. gm_get (pending a) d = Some u \<and> t \<le> u)
        \<or> (\<exists>s \<in> set (announced d es). t \<le> s + ttl a))"
  using assms
proof (induction es arbitrary: a)
  case (Cons e es)
  obtain t0 ev a' out where e: "e = (t0, ev)" and st: "gate_step a (t0, ev) = (a', out)" by (cases e; cases "gate_step a e") auto
  have run: "gate_run a (e # es) = out @ gate_run a' es" using e st by simp
  have ann: "announced d (e # es) = announced d [(t0, ev)] @ announced d es" by (simp add: e announced_def)
  note S = gate_step_spec [OF Cons.prems st]
  note IH = Cons.IH [OF S(1)]
  have "length (filter (\<lambda>x. snd x = d) (gate_run a (e # es))) \<le> held a d + length (announced d (e # es))"
    unfolding run ann using IH S(3) [of d] by simp
  moreover have "(\<exists>u. gm_get (pending a) d = Some u \<and> t \<le> u) \<or> (\<exists>s \<in> set (announced d (e # es)). t \<le> s + ttl a)"
    if "(t, d) \<in> set (gate_run a (e # es))"
  proof (cases "(t, d) \<in> set out")
    case True
    then show ?thesis using S(4) by fastforce
  next
    case False
    then have "(t, d) \<in> set (gate_run a' es)" using that unfolding run by simp
    with IH consider u where "gm_get (pending a') d = Some u" "t \<le> u" | s where "s \<in> set (announced d es)" "t \<le> s + ttl a"
      using S(2) by auto
    then show ?thesis
    proof cases
      case 1
      with S(5) [OF 1(1)] show ?thesis unfolding ann by auto
    next
      case 2
      then show ?thesis unfolding ann by auto
    qed
  qed
  ultimately show ?case by blast
qed simp


definition demo_connect :: ConnectMsg where
  "demo_connect = \<lparr>TargetDeviceId = ''H'', FromDeviceId = ''M'', Candidates = []\<rparr>"



section \<open>A handshake that cannot be answered\<close>

text \<open>When the answer to the hello cannot be written, \<^verbatim>\<open>serveConn\<close> returns before it has arranged
  for the detachment: the session just attached or created counts as attached for ever, so no
  idle sweep closes its PowerShell process, however long it is left alone.\<close>

theorem failed_hello_pins_session:
  assumes "hello = \<lparr>hh_ProtocolVersion = protocolVersion, hh_SessionId = [], hh_IdleTimeoutSec = sec\<rparr>"
    and "\<not> pw_closed mgr" and "gomap_ok (pw_sessions mgr)"
    and "serveConn True authz mgr peerID now True (Some hello) (Some hst) new t1 t2 False streams t_end = (authz', m, out)"
    and "out \<noteq> ConnRejected"
  shows "out = HandshakeFailed WriteHello
    \<and> (\<exists>s. gm_get (pw_sessions (fst (pw_Sweep m t))) new = Some s \<and> host s = hst \<and> attached s)"
proof -
  obtain a where "admit authz peerID now = (a, True)"
    using assms(4,5) by (auto simp: serveConn_def split: prod.splits bool.splits)
  then have out: "out = HandshakeFailed WriteHello"
    and m: "m = mgr\<lparr>pw_sessions := gm_put new \<lparr>host = hst, attached = True, lastActivity = t2,
                       idleTimeout = ClampIdleTimeoutSec sec\<rparr> (pw_sessions mgr)\<rparr>"
    using assms(2,4) by (auto simp: serveConn_def doHandshake_def assms(1) AttachOrCreate_def attach_existing_def
        create_session_def Let_def)
  have "gomap_ok (pw_sessions m)" using assms(3) by (simp add: m)
  then have "gm_get (pw_sessions (fst (pw_Sweep m t))) new
      = Some \<lparr>host = hst, attached = True, lastActivity = t2, idleTimeout = ClampIdleTimeoutSec sec\<rparr>"
    by (simp add: pw_Sweep_def Let_def gm_get_retain del: map_of_eq_Some_iff) (simp add: m expiredLocked_def del: map_of_eq_Some_iff)
  with out show ?thesis by simp
qed

theorem failed_hello_pins_session_witness:
  "\<exists>m s. serveConn True None NewSessionManager ''M'' 1 True
       (Some \<lparr>hh_ProtocolVersion = protocolVersion, hh_SessionId = [], hh_IdleTimeoutSec = 0\<rparr>) (Some 7) ''S'' 2 3 False 0 4
       = (None, m, HandshakeFailed WriteHello)
     \<and> gm_get (pw_sessions (fst (pw_Sweep m (10 ^ 30)))) ''S'' = Some s"
proof -
  let ?h = "\<lparr>hh_ProtocolVersion = protocolVersion, hh_SessionId = [], hh_IdleTimeoutSec = 0\<rparr>"
  obtain a m out where c: "serveConn True None NewSessionManager ''M'' 1 True (Some ?h) (Some 7) ''S'' 2 3 False 0 4 = (a, m, out)"
    by (cases "serveConn True None NewSessionManager ''M'' 1 True (Some ?h) (Some 7) ''S'' 2 3 False 0 4")
  have "out \<noteq> ConnRejected" "a = None" using c by (auto simp: serveConn_def admit_def split: prod.splits sum.splits)
  with failed_hello_pins_session [OF refl _ _ c, of "10 ^ 30"] c show ?thesis by (auto simp: NewSessionManager_def)
qed

section \<open>Closing a stream leaves the terminal running\<close>

lemma pty_loop_entries: "entries (fst (pty_loop wres rres i st fs)) = entries (fst st)"
proof (induction wres rres i st fs rule: pty_loop.induct)
  case (2 wres rres i m n now f fs)
  then show ?case by (cases f) (simp_all add: upd_sess_def)
qed simp

lemma Session_ops_closed:
  "closed (fst (Session_Write s d w)) = closed s" "closed (fst (Session_Resize s c r w')) = closed s"
  by (simp_all add: Session_Write_def Session_Resize_def)

lemma pty_loop_closed: "closed (heap (fst (pty_loop wres rres i st fs)) j) = closed (heap (fst st) j)"
proof (induction wres rres i st fs rule: pty_loop.induct)
  case (2 wres rres i m n now f fs)
  then show ?case by (cases f) (simp_all add: upd_sess_def Session_ops_closed)
qed simp


text \<open>A client that reattaches and closes its stream again leaves the terminal as it found it:
  the first frame it gets acknowledges the handle, the same session is still in the table with as
  many clients attached as before, it has not been closed, and the connection no longer lists it.\<close>

theorem closing_stream_keeps_shell:
  assumes "mgr_ok m" and "\<not> mclosed m" and "gm_get (entries m) h = Some e" "owner e = own" "h \<noteq> []"
    and "pq_ReattachHandle req = h"
    and "servePTYStream m reg own req sink opened new rsz notify wres rres now fs t_end = (m', reg', out, res)"
  shows "res = PtyClosed \<and> hd out = AckOut h True
    \<and> (\<exists>e'. gm_get (entries m') h = Some e' \<and> sess e' = sess e \<and> attachCount e' = attachCount e)
    \<and> closed (heap m' (sess e)) = closed (heap m (sess e)) \<and> reg_Get reg' (pq_PtyId req) = None"
proof -
  have key: "handle e = h" using assms(1,3) by (auto simp: mgr_ok_def)
  obtain m1 r where at: "Attach m own h (Some sink) now = Inr (m1, r)"
    and r: "rSession r = sess e" "tHandle (rToken r) = h" "tOwner (rToken r) = own"
    and e1: "gm_get (entries m1) h = Some (e\<lparr>attachCount := attachCount e + 1, lastSeen := now\<rparr>)"
    and h1: "closed (heap m1 (sess e)) = closed (heap m (sess e))"
    using assms(2-4) key
    by (auto simp: Attach_def Attach_lookup_def Attach_bind_def AddSinkWithSnapshot_def addSinkLocked_def Let_def
        upd_sess_def upd_entry_def simp del: map_of_eq_Some_iff)
  obtain m2 where m2: "pty_open m own req sink opened new rsz now = (m2, [], Some (h, Some r))"
    and e2: "gm_get (entries m2) h = gm_get (entries m1) h" and h2: "closed (heap m2 (sess e)) = closed (heap m1 (sess e))"
    using assms(5,6) at r(1)
    by (auto simp: pty_open_def Let_def upd_sess_def Session_ops_closed simp del: map_of_eq_Some_iff)
  let ?n = "if notify then Some (newPTYNotifyState (pq_PtyId req)) else None"
  let ?m3 = "fst (pty_loop wres rres (sess e) (m2, ?n) fs)"
  have res: "m' = Detach ?m3 (rToken r) t_end" "reg' = reg_Unregister (reg_Register reg (pq_PtyId req) (sess e)) (pq_PtyId req)"
    "out = ack_frames h (rReplay r)" "res = PtyClosed"
    using assms(7) by (simp_all add: servePTYStream_def m2 r(1) Let_def)
  have e3: "gm_get (entries ?m3) h = Some (e\<lparr>attachCount := attachCount e + 1, lastSeen := now\<rparr>)"
    using e1 e2 by (simp add: pty_loop_entries del: map_of_eq_Some_iff)
  have h3: "closed (heap ?m3 (sess e)) = closed (heap m (sess e))" using h1 h2 by (simp add: pty_loop_closed)
  have "\<exists>e'. gm_get (entries m') h = Some e' \<and> sess e' = sess e \<and> attachCount e' = attachCount e"
    "closed (heap m' (sess e)) = closed (heap m (sess e))"
    unfolding res(1) using e3 h3 r assms(4) key
    by (auto simp: Detach_def Let_def upd_sess_def upd_entry_def RemoveSink_def simp del: map_of_eq_Some_iff)
  then show ?thesis using res(2-4) by (auto simp: ack_frames_def reg_Get_def reg_Unregister_def reg_Register_def)
qed

definition demo_req :: PTYReq where
  "demo_req = \<lparr>pq_Cols = 80, pq_Rows = 24, pq_Command = [], pq_PtyId = 3, pq_ReattachHandle = ''H''\<rparr>"

theorem closing_stream_keeps_shell_witness:
  "\<exists>m' reg' out e'. servePTYStream demo_idle [] ''alice'' demo_req () (Inl []) [] None False (\<lambda>d. (0, None)) (\<lambda>c r. None) 5
      [(6, FInput [65])] 7 = (m', reg', out, PtyClosed) \<and> gm_get (entries m') ''H'' = Some e' \<and> attachCount e' = 0"
proof -
  obtain m' reg' out res where s: "servePTYStream demo_idle [] ''alice'' demo_req () (Inl []) [] None False (\<lambda>d. (0, None))
      (\<lambda>c r. None) 5 [(6, FInput [65])] 7 = (m', reg', out, res)"
    by (cases "servePTYStream demo_idle [] ''alice'' demo_req () (Inl []) [] None False (\<lambda>d. (0, None))
      (\<lambda>c r. None) 5 [(6, FInput [65])] 7") auto
  obtain e where e: "gm_get (entries demo_idle) ''H'' = Some e" "owner e = ''alice''" "attachCount e = 0" by (simp add: demo_idle_def)
  have "\<not> mclosed demo_idle" by (simp add: demo_idle_def NewManager_def)
  from closing_stream_keeps_shell [OF mgr_ok_demo_idle this e(1,2) _ _ s] e(3) s show ?thesis
    by (auto simp: demo_req_def simp del: map_of_eq_Some_iff)
qed

section \<open>A chunk that overtakes the replay\<close>

text \<open>Between the attachment, which installs the sink, and the acknowledgement, which takes the
  stream's write lock, the terminal may print. The steps of the two goroutines that write to one
  stream, and the frames they put on it.\<close>

datatype stream_step = LiveChunk bytes | WriteAck

fun stream_frames :: "'k session \<Rightarrow> u64 \<Rightarrow> string \<Rightarrow> bytes \<Rightarrow> stream_step list \<Rightarrow> out_frame list" where
  "stream_frames s tok h replayed [] = []"
| "stream_frames s tok h replayed (WriteAck # xs) = ack_frames h replayed @ stream_frames s tok h replayed xs"
| "stream_frames s tok h replayed (LiveChunk p # xs) =
     (case pump_chunk s p of
        (s', ds) \<Rightarrow> map (\<lambda>d. DataOut (frame_data (snd d))) (filter (\<lambda>d. fst (fst d) = tok) ds)
                     @ stream_frames s' tok h replayed xs)"

text \<open>A chunk printed before the acknowledgement is written reaches the client ahead of it and
  ahead of the older output of the replay, contrary to what the comments promise.\<close>

theorem replay_overtaken:
  assumes "AddSinkWithSnapshot s ring_snapshot k = (s1, tok, snap)" and "snap \<noteq> []" and "p \<noteq> []"
    and "gomap_ok (sinks s)"
  shows "stream_frames s1 tok h snap [LiveChunk p, WriteAck] = [DataOut p, AckOut h True, DataOut snap]"
proof -
  have s1: "sinks s1 = gm_put tok k (sinks s)"
    using assms(1) by (auto simp: AddSinkWithSnapshot_def addSinkLocked_def Let_def)
  obtain t paths where F: "Feed (tracker s1) p = (t, paths)" by fastforce
  have ok: "gomap_ok (sinks s1)" using assms(4) by (simp add: s1)
  have get: "gm_get (sinks s1) tok = Some k" by (simp add: s1 del: map_of_eq_Some_iff)
  have one: "filter (\<lambda>d. fst d = tok) ss = [(tok, k)]" if "gomap_ok ss" "gm_get ss tok = Some k" for ss
    using that
  proof (induction ss)
    case (Cons x xs)
    obtain a b where x: "x = (a, b)" by fastforce
    show ?case
    proof (cases "a = tok")
      case True
      then have "tok \<notin> fst ` set xs" using Cons.prems(1) x by auto
      then have "filter (\<lambda>d. fst d = tok) xs = []" by (auto simp: filter_empty_conv image_iff)
      then show ?thesis using True Cons.prems(2) x by simp
    next
      case False
      then show ?thesis using Cons x by simp
    qed
  qed simp
  have "sinks s1 \<noteq> []" using get by auto
  moreover obtain s2 where "pump_chunk s1 p = (s2, map (\<lambda>k. (k, PTYData p)) (sinks s1))"
    using assms(3) \<open>sinks s1 \<noteq> []\<close> by (auto simp: pump_chunk_def F Let_def dispatchData_def)
  ultimately show ?thesis
    using one [OF ok get] assms(2) by (simp add: filter_map o_def ack_frames_def)
qed


definition demo_ring_session :: "nat session" where
  "demo_ring_session = SetRingAppend (Open 80 24) (Some (rb_write (newRingBuffer 3) [1, 2]))"

theorem replay_overtaken_witness:
  "\<exists>s1 tok snap. AddSinkWithSnapshot demo_ring_session ring_snapshot 8 = (s1, tok, snap)
     \<and> stream_frames s1 tok ''H'' snap [LiveChunk [9], WriteAck] = [DataOut [9], AckOut ''H'' True, DataOut snap]"
proof -
  obtain s1 tok snap where a: "AddSinkWithSnapshot demo_ring_session ring_snapshot 8 = (s1, tok, snap)"
    by (cases "AddSinkWithSnapshot demo_ring_session ring_snapshot 8")
  have "ring_snapshot demo_ring_session \<noteq> []" by code_simp
  then have "snap \<noteq> []" using a by (auto simp: AddSinkWithSnapshot_def addSinkLocked_def Let_def)
  moreover have "gomap_ok (sinks demo_ring_session)" by (simp add: demo_ring_session_def SetRingAppend_def Open_def)
  ultimately show ?thesis using replay_overtaken [OF a, of "[9]" "''H''"] a by auto
qed

section \<open>A client that goes away during a command\<close>

text \<open>When a chunk of a command's output cannot be written because the client has gone,
  \<^verbatim>\<open>serveExecStream\<close> stops reading; the PowerShell host stays locked, and every later command of
  the session blocks for ever, although the session itself can be reattached.\<close>

theorem exec_write_failure_wedges_host:
  assumes "\<not> execMu h" "\<not> active h" "\<not> h_closed h" and "trim_eol l \<noteq> map byte_of_char (sentinel_of b)"
    and "serveExecStream (Some h) cmd (Some b) True (\<lambda>h. h\<lparr>stdoutCh := l # ls\<rparr>) ((FromStdout, False) # cs) = (h', fs)"
  shows "\<exists>h2. h' = Some h2 \<and> fs = [] \<and> set (host_run h2 ops) \<subseteq> {Blocked}"
proof -
  obtain h1 q where ex: "Exec h cmd (Some b) True = (h1, ExecOk q)" and q: "o_sentinel q = sentinel_of b" "\<not> o_closed q"
    using assms(1-3) by (auto simp: Exec_def)
  have "Recv q (h1\<lparr>stdoutCh := l # ls\<rparr>) FromStdout = (q, h1\<lparr>stdoutCh := ls\<rparr>, RecvChunk \<lparr>ck_Stream = Stdout, ck_Data = l\<rparr>)"
    using q assms(4) by (simp add: Recv_def is_sentinel_def Let_def)
  then have "h' = Some (h1\<lparr>stdoutCh := ls\<rparr>)" "fs = []" using assms(5) ex by (simp_all add: serveExecStream_def)
  moreover have "execMu (h1\<lparr>stdoutCh := ls\<rparr>)" using Exec_locks [OF ex] by simp
  ultimately show ?thesis using locked_blocks by blast
qed

theorem exec_write_failure_wedges_host_witness:
  "\<exists>h2. fst (serveExecStream (Some demo_host) ''ls'' (Some [1]) True (\<lambda>h. h\<lparr>stdoutCh := [[65, 10]]\<rparr>) [(FromStdout, False)]) = Some h2
     \<and> set (host_run h2 [OpExec ''dir'' (Some [2]) True]) \<subseteq> {Blocked}"
proof -
  have "trim_eol [65, 10] \<noteq> map byte_of_char (sentinel_of [1])" by code_simp
  moreover obtain h' fs where "serveExecStream (Some demo_host) ''ls'' (Some [1]) True (\<lambda>h. h\<lparr>stdoutCh := [[65, 10]]\<rparr>) [(FromStdout, False)] = (h', fs)"
    by fastforce
  ultimately show ?thesis
    using exec_write_failure_wedges_host [of demo_host "[65, 10]" "[1]" "''ls''" "[]" "[]" h' fs "[OpExec ''dir'' (Some [2]) True]"]
    by (auto simp: demo_host_def)
qed

section \<open>What the host exposes\<close>

lemma isLoopbackBind_D: "isLoopbackBind (Some a) \<Longrightarrow> IsLoopback (fst a) \<and> \<not> IsUnspecified (fst a)"
  by (cases a) (auto simp: isLoopbackBind_def split: if_splits)

lemma run_auth_Serving:
  assumes "run_auth e r l srflx metrics = Inr (Serving s)"
  shows "srv_listenAddr s = l \<and> srv_metrics s = metrics \<and> (srv_authz s = None \<longleftrightarrow> ro_signalingURL r = [])"
  using assms by (auto simp: run_auth_def Let_def split: if_splits sum.splits)

lemma run_start_Serving:
  assumes "run_start e r = Inr (Serving s)"
  shows "\<exists>a l srflx metrics. e_resolve e (effectiveListen (ro_listen r) (ro_signalingURL r) (ro_listenExplicit r)) = Some a
    \<and> e_listenUDP e a = Some l \<and> \<not> bind_refused (ro_signalingURL r) a (ro_insecureDirect r)
    \<and> run_auth e r l srflx metrics = Inr (Serving s)
    \<and> (metrics = None \<or> (\<exists>m. metrics = Some m \<and> startMetricsServer (e_parseIP e) (ro_metricsAddr r) (ro_metricsToken r) = Inr m))"
  using assms unfolding run_start_def Let_def
  by (simp split: if_splits option.splits sum.splits del: split_paired_Ex) blast+

lemma metrics_guarded:
  assumes "startMetricsServer parseIP addr token = Inr (addr', handler)" and "handler got = MetricsServed"
  shows "got = ''Bearer '' @ token
    \<or> (\<exists>h port. SplitHostPort addr' = Inr (h, port) \<and> (h = ''localhost'' \<or> (\<exists>ip. parseIP h = Some ip \<and> IsLoopback ip)))"
proof -
  have ok: "validateMetricsBind parseIP addr token = None" "addr' = addr" "handler = metricsTokenHandler token"
    using assms(1) by (auto simp: startMetricsServer_def split: option.splits)
  show ?thesis
    using ok(1) assms(2) unfolding ok(2,3)
    by (auto simp: metricsTokenHandler_def validateMetricsBind_def HasPrefix_iff split: if_splits sum.splits prod.splits option.splits)
qed

text \<open>A started host serves without the grants of a signaling server only when no signaling server is
  configured, and then the address it resolved is a loopback address unless the operator opted out;
  telemetry leaves the host without a token only from an endpoint bound to the loopback interface or
  to \<^verbatim>\<open>localhost\<close>.\<close>

theorem host_exposure_guarded:
  assumes "run_start e r = Inr (Serving s)"
  shows "(srv_authz s = None \<longrightarrow> ro_signalingURL r = [] \<and> (ro_insecureDirect r
            \<or> (\<exists>a. e_resolve e (ro_listen r) = Some a \<and> e_listenUDP e a = Some (srv_listenAddr s)
                 \<and> IsLoopback (fst a) \<and> \<not> IsUnspecified (fst a))))
    \<and> (\<forall>addr handler got. srv_metrics s = Some (addr, handler) \<and> handler got = MetricsServed \<longrightarrow> got = ''Bearer '' @ ro_metricsToken r
         \<or> (\<exists>h port. SplitHostPort addr = Inr (h, port) \<and> (h = ''localhost'' \<or> (\<exists>ip. e_parseIP e h = Some ip \<and> IsLoopback ip))))"
proof -
  obtain a l srflx metrics where st: "e_resolve e (effectiveListen (ro_listen r) (ro_signalingURL r) (ro_listenExplicit r)) = Some a"
    "e_listenUDP e a = Some l" "\<not> bind_refused (ro_signalingURL r) a (ro_insecureDirect r)"
    "run_auth e r l srflx metrics = Inr (Serving s)"
    "metrics = None \<or> (\<exists>m. metrics = Some m \<and> startMetricsServer (e_parseIP e) (ro_metricsAddr r) (ro_metricsToken r) = Inr m)"
    using run_start_Serving [OF assms] by blast
  have s: "srv_listenAddr s = l" "srv_metrics s = metrics" "srv_authz s = None \<longleftrightarrow> ro_signalingURL r = []"
    using run_auth_Serving [OF st(4)] by simp_all
  have "ro_signalingURL r = [] \<Longrightarrow> ro_insecureDirect r \<or> isLoopbackBind (Some a)" using st(3) by (auto simp: bind_refused_def)
  then have one: "srv_authz s = None \<longrightarrow> ro_signalingURL r = [] \<and> (ro_insecureDirect r
            \<or> (\<exists>a. e_resolve e (ro_listen r) = Some a \<and> e_listenUDP e a = Some (srv_listenAddr s)
                 \<and> IsLoopback (fst a) \<and> \<not> IsUnspecified (fst a)))"
    using st(1,2) s isLoopbackBind_D [of a] by (cases a) (auto simp: effectiveListen_def)
  have two: "got = ''Bearer '' @ ro_metricsToken r
         \<or> (\<exists>h port. SplitHostPort addr = Inr (h, port) \<and> (h = ''localhost'' \<or> (\<exists>ip. e_parseIP e h = Some ip \<and> IsLoopback ip)))"
    if "srv_metrics s = Some (addr, handler)" "handler got = MetricsServed" for addr handler got
    using that st(5) s(2) by (intro metrics_guarded [where addr = "ro_metricsAddr r" and handler = handler]) auto
  show ?thesis using one two by blast
qed

definition demo_env :: "string run_env" where
  "demo_env = \<lparr>e_loadKey = (\<lambda>d. Some [1]), e_cert = (\<lambda>k. True),
     e_resolve = (\<lambda>l. if l = defaultDirectListen then Some ([127, 0, 0, 1], 7777) else None), e_listenUDP = Some,
     e_discover = (\<lambda>s. None), e_transport = True, e_parseIP = (\<lambda>s. None), e_defaultPath = ''token'', e_source = (\<lambda>c. None),
     e_uid = id, e_wake = (\<lambda>s. True), e_hostname = ''pc'', e_readFile = (\<lambda>p. Inl ''absent'')\<rparr>"

definition demo_embedded :: embedded where
  "demo_embedded = \<lparr>em_SignalingURL = [], em_FirebaseProjectID = [], em_FirebaseAPIKey = [], em_FirebaseRegion = [],
     em_FirebaseRtdbRegion = [], em_GoogleClientID = [], em_GoogleClientSecret = []\<rparr>"

definition demo_opts :: runOpts where
  "demo_opts = (flag_defaults demo_embedded)\<lparr>ro_metricsAddr := ''localhost:9101''\<rparr>"

theorem host_exposure_guarded_witness:
  "\<exists>s. run_start demo_env demo_opts = Inr (Serving s) \<and> srv_authz s = None \<and> srv_metrics s \<noteq> None
     \<and> (\<exists>a. e_resolve demo_env (ro_listen demo_opts) = Some a \<and> IsLoopback (fst a))"
proof -
  have "validateMetricsBind (e_parseIP demo_env) (ro_metricsAddr demo_opts) (ro_metricsToken demo_opts) = None" by code_simp
  moreover have "isLoopbackBind (Some ([127, 0, 0, 1], 7777))" by code_simp
  ultimately obtain s where s: "run_start demo_env demo_opts = Inr (Serving s)" "srv_authz s = None" "srv_metrics s \<noteq> None"
    by (simp add: run_start_def run_auth_def startMetricsServer_def demo_env_def demo_opts_def demo_embedded_def flag_defaults_def
        effectiveListen_def bind_refused_def Let_def)
  moreover have "\<not> ro_insecureDirect demo_opts" by (simp add: demo_opts_def flag_defaults_def)
  ultimately show ?thesis using host_exposure_guarded [OF s(1)] by blast
qed

end
