(* ===== verification/Store.thy ===== *)
theory Store
  imports Peersh_Prelude
begin

text \<open>
  \<^verbatim>\<open>core/store\<close>: the records the signaling server keeps and the interface to them, and
  \<^verbatim>\<open>core/store/memory\<close>, the implementation in maps. An operation returns its error or the new
  store; every one of them holds the store's lock for its whole body.
\<close>

datatype store_err = ErrNotFound | StoreFailure

datatype DeviceKind = DeviceKindUnknown | DeviceKindWindowsHost | DeviceKindMobileClient | DeviceKindCLI

fun DeviceKind_String :: "DeviceKind \<Rightarrow> string" where
  "DeviceKind_String DeviceKindWindowsHost = ''windows_host''"
| "DeviceKind_String DeviceKindMobileClient = ''mobile_client''"
| "DeviceKind_String DeviceKindCLI = ''cli''"
| "DeviceKind_String DeviceKindUnknown = ''unknown''"

datatype AuthProvider = AuthProviderUnknown | AuthProviderNone | AuthProviderPSK | AuthProviderFirebase

fun AuthProvider_String :: "AuthProvider \<Rightarrow> string" where
  "AuthProvider_String AuthProviderNone = ''none''"
| "AuthProvider_String AuthProviderPSK = ''psk''"
| "AuthProvider_String AuthProviderFirebase = ''firebase''"
| "AuthProvider_String AuthProviderUnknown = ''unknown''"

datatype SessionState = SessionStateUnknown | SessionStateSettingUp | SessionStateConnected
  | SessionStateDisconnected | SessionStateExpired | SessionStateClosed

fun SessionState_String :: "SessionState \<Rightarrow> string" where
  "SessionState_String SessionStateSettingUp = ''setting_up''"
| "SessionState_String SessionStateConnected = ''connected''"
| "SessionState_String SessionStateDisconnected = ''disconnected''"
| "SessionState_String SessionStateExpired = ''expired''"
| "SessionState_String SessionStateClosed = ''closed''"
| "SessionState_String SessionStateUnknown = ''unknown''"

record User =
  u_ID :: string
  u_AuthProvider :: AuthProvider
  u_CreatedAt :: time

record Device =
  d_ID :: string
  d_PublicKey :: bytes
  d_OwnerUserID :: string
  d_Kind :: DeviceKind
  d_DisplayName :: string
  d_CreatedAt :: time
  d_LastSeenAt :: time

record Session =
  s_ID :: string
  s_UserID :: string
  s_MobileDeviceID :: string
  s_HostDeviceID :: string
  s_State :: SessionState
  s_CreatedAt :: time
  s_LastActiveAt :: time
  s_IdleDeadlineAt :: time

record PSKRecord =
  r_UserID :: string
  r_Secret :: bytes
  r_DisplayLabel :: string
  r_CreatedAt :: time
  r_RevokedAt :: time

definition IsRevoked :: "PSKRecord \<Rightarrow> bool" where
  "IsRevoked r \<longleftrightarrow> r_RevokedAt r \<noteq> 0"

record Pairing =
  p_UserID :: string
  p_MobileDeviceID :: string
  p_HostDeviceID :: string
  p_CreatedAt :: time
  p_LastUsedAt :: time

type_synonym pairingKey = "string \<times> string \<times> string"

record mem_store =
  devices :: "(string, Device) gomap"
  sessions :: "(string, Session) gomap"
  users :: "(string, User) gomap"
  psks :: "(string, PSKRecord) gomap"
  pairs :: "(pairingKey, Pairing) gomap"

definition mem_New :: mem_store where
  "mem_New = \<lparr>devices = [], sessions = [], users = [], psks = [], pairs = []\<rparr>"

text \<open>The lookups all have this shape: the value found, or \<^verbatim>\<open>ErrNotFound\<close>.\<close>

definition found :: "'a option \<Rightarrow> store_err + 'a" where
  "found v = (case v of None \<Rightarrow> Inl ErrNotFound | Some x \<Rightarrow> Inr x)"

definition PutDevice :: "mem_store \<Rightarrow> Device \<Rightarrow> store_err + mem_store" where
  "PutDevice s d = Inr (s\<lparr>devices := gm_put (d_ID d) d (devices s)\<rparr>)"

definition GetDevice :: "mem_store \<Rightarrow> string \<Rightarrow> store_err + Device" where
  "GetDevice s i = found (gm_get (devices s) i)"

definition ListDevicesByOwner :: "mem_store \<Rightarrow> string \<Rightarrow> store_err + Device list" where
  "ListDevicesByOwner s u = Inr (filter (\<lambda>d. d_OwnerUserID d = u) (map snd (devices s)))"

definition DeleteDevice :: "mem_store \<Rightarrow> string \<Rightarrow> store_err + mem_store" where
  "DeleteDevice s i =
     (if gm_get (devices s) i = None then Inl ErrNotFound
      else Inr (s\<lparr>devices := gm_del i (devices s)\<rparr>))"

definition PutSession :: "mem_store \<Rightarrow> Session \<Rightarrow> store_err + mem_store" where
  "PutSession s x = Inr (s\<lparr>sessions := gm_put (s_ID x) x (sessions s)\<rparr>)"

definition GetSession :: "mem_store \<Rightarrow> string \<Rightarrow> store_err + Session" where
  "GetSession s i = found (gm_get (sessions s) i)"

definition DeleteSession :: "mem_store \<Rightarrow> string \<Rightarrow> store_err + mem_store" where
  "DeleteSession s i =
     (if gm_get (sessions s) i = None then Inl ErrNotFound
      else Inr (s\<lparr>sessions := gm_del i (sessions s)\<rparr>))"

definition PutUser :: "mem_store \<Rightarrow> User \<Rightarrow> store_err + mem_store" where
  "PutUser s u = Inr (s\<lparr>users := gm_put (u_ID u) u (users s)\<rparr>)"

definition GetUser :: "mem_store \<Rightarrow> string \<Rightarrow> store_err + User" where
  "GetUser s i = found (gm_get (users s) i)"

definition PutPSKRecord :: "mem_store \<Rightarrow> PSKRecord \<Rightarrow> store_err + mem_store" where
  "PutPSKRecord s r = Inr (s\<lparr>psks := gm_put (r_UserID r) r (psks s)\<rparr>)"

definition GetPSKRecord :: "mem_store \<Rightarrow> string \<Rightarrow> store_err + PSKRecord" where
  "GetPSKRecord s u = found (gm_get (psks s) u)"

definition ListPSKRecords :: "mem_store \<Rightarrow> store_err + PSKRecord list" where
  "ListPSKRecords s = Inr (map snd (psks s))"

definition DeletePSKRecord :: "mem_store \<Rightarrow> string \<Rightarrow> store_err + mem_store" where
  "DeletePSKRecord s u =
     (if gm_get (psks s) u = None then Inl ErrNotFound
      else Inr (s\<lparr>psks := gm_del u (psks s)\<rparr>))"

definition PutPairing :: "mem_store \<Rightarrow> Pairing \<Rightarrow> store_err + mem_store" where
  "PutPairing s p =
     Inr (s\<lparr>pairs := gm_put (p_UserID p, p_MobileDeviceID p, p_HostDeviceID p) p (pairs s)\<rparr>)"

definition GetPairing :: "mem_store \<Rightarrow> string \<Rightarrow> string \<Rightarrow> string \<Rightarrow> store_err + Pairing" where
  "GetPairing s u mobile host = found (gm_get (pairs s) (u, mobile, host))"

definition ListPairingsByUser :: "mem_store \<Rightarrow> string \<Rightarrow> store_err + Pairing list" where
  "ListPairingsByUser s u = Inr (map snd (filter (\<lambda>((u', _), _). u' = u) (pairs s)))"

definition DeletePairing :: "mem_store \<Rightarrow> string \<Rightarrow> string \<Rightarrow> string \<Rightarrow> store_err + mem_store" where
  "DeletePairing s u mobile host =
     (let k = (u, mobile, host)
      in if gm_get (pairs s) k = None then Inl ErrNotFound
         else Inr (s\<lparr>pairs := gm_del k (pairs s)\<rparr>))"

definition mem_ok :: "mem_store \<Rightarrow> bool" where
  "mem_ok s \<longleftrightarrow> gomap_ok (devices s) \<and> gomap_ok (sessions s) \<and> gomap_ok (users s) \<and> gomap_ok (psks s)
     \<and> gomap_ok (pairs s)
     \<and> (\<forall>i d. gm_get (devices s) i = Some d \<longrightarrow> d_ID d = i)
     \<and> (\<forall>i x. gm_get (sessions s) i = Some x \<longrightarrow> s_ID x = i)
     \<and> (\<forall>i u. gm_get (users s) i = Some u \<longrightarrow> u_ID u = i)
     \<and> (\<forall>u r. gm_get (psks s) u = Some r \<longrightarrow> r_UserID r = u)
     \<and> (\<forall>k p. gm_get (pairs s) k = Some p \<longrightarrow> k = (p_UserID p, p_MobileDeviceID p, p_HostDeviceID p))"

lemma mem_ok_New: "mem_ok mem_New"
  by (simp add: mem_ok_def mem_New_def)


section \<open>The interface of one table\<close>

text \<open>What the callers of \<^verbatim>\<open>store.Store\<close> rely on, for each kind of record: a lookup after a put,
  and what neither operation disturbs. \<open>ok\<close> is the implementation's invariant, \<open>key\<close> the
  record's key.\<close>

locale table =
  fixes get :: "'s \<Rightarrow> 'k \<Rightarrow> store_err + 'v"
    and put :: "'s \<Rightarrow> 'v \<Rightarrow> store_err + 's"
    and key :: "'v \<Rightarrow> 'k"
    and ok :: "'s \<Rightarrow> bool"
  assumes put_total: "ok s \<Longrightarrow> \<exists>s'. put s v = Inr s'"
    and put_ok: "ok s \<Longrightarrow> put s v = Inr s' \<Longrightarrow> ok s'"
    and get_put: "ok s \<Longrightarrow> put s v = Inr s' \<Longrightarrow> get s' k = (if k = key v then Inr v else get s k)"
    and get_key: "ok s \<Longrightarrow> get s k = Inr v \<Longrightarrow> key v = k"
    and get_err: "ok s \<Longrightarrow> get s k = Inl e \<Longrightarrow> e = ErrNotFound"
begin

definition table_map :: "'s \<Rightarrow> 'k \<rightharpoonup> 'v" where
  "table_map s k = (case get s k of Inl e \<Rightarrow> None | Inr v \<Rightarrow> Some v)"

lemma table_map_put: "ok s \<Longrightarrow> put s v = Inr s' \<Longrightarrow> table_map s' = (table_map s)(key v \<mapsto> v)"
  by (auto simp: table_map_def get_put)

lemma put_then_get: "ok s \<Longrightarrow> \<exists>s'. put s v = Inr s' \<and> ok s' \<and> get s' (key v) = Inr v"
  using put_total put_ok get_put by (metis (full_types))

lemma put_other: "ok s \<Longrightarrow> put s v = Inr s' \<Longrightarrow> k \<noteq> key v \<Longrightarrow> get s' k = get s k"
  by (simp add: get_put)

lemma get_found: "ok s \<Longrightarrow> get s k = found (table_map s k)"
  using get_err by (auto simp: table_map_def found_def split: sum.splits)

end

locale del_table = table get put key ok
  for get :: "'s \<Rightarrow> 'k \<Rightarrow> store_err + 'v" and put and key and ok +
  fixes del :: "'s \<Rightarrow> 'k \<Rightarrow> store_err + 's"
  assumes del_absent: "ok s \<Longrightarrow> get s k = Inl ErrNotFound \<Longrightarrow> del s k = Inl ErrNotFound"
    and del_present: "ok s \<Longrightarrow> get s k = Inr v \<Longrightarrow> \<exists>s'. del s k = Inr s' \<and> ok s'
          \<and> (\<forall>k'. get s' k' = (if k' = k then Inl ErrNotFound else get s k'))"
begin

lemma del_Inr:
  assumes "ok s" and "del s k = Inr s'"
  shows "ok s' \<and> get s' k' = (if k' = k then Inl ErrNotFound else get s k')"
proof (cases "get s k")
  case (Inl e)
  then have "del s k = Inl ErrNotFound" using del_absent get_err assms(1) by simp
  with assms(2) show ?thesis by simp
next
  case (Inr v)
  from del_present [OF assms(1) this] assms(2) show ?thesis by auto
qed

lemma table_map_del: "ok s \<Longrightarrow> del s k = Inr s' \<Longrightarrow> table_map s' = (table_map s)(k := None)"
  by (auto simp: table_map_def del_Inr)

lemma del_twice: "ok s \<Longrightarrow> del s k = Inr s' \<Longrightarrow> del s' k = Inl ErrNotFound"
  using del_Inr [of s k s' k] del_absent [of s' k] by simp

lemma del_found: "ok s \<Longrightarrow> (\<exists>s'. del s k = Inr s') \<longleftrightarrow> table_map s k \<noteq> None"
  using del_absent [of s k] del_present [of s k] get_err [of s k]
  by (cases "get s k") (auto simp: table_map_def)

lemma put_del: "ok s \<Longrightarrow> put s v = Inr s' \<Longrightarrow> \<exists>s''. del s' (key v) = Inr s'' \<and> get s'' (key v) = Inl ErrNotFound"
  using del_present put_ok get_put by (metis (full_types))

end

lemma found_simps [simp]:
  "found None = Inl ErrNotFound" "found (Some x) = Inr x"
  "found v = Inr x \<longleftrightarrow> v = Some x" "found v = Inl e \<longleftrightarrow> v = None \<and> e = ErrNotFound"
  by (auto simp: found_def split: option.splits)

lemmas mem_defs = PutDevice_def GetDevice_def DeleteDevice_def PutSession_def GetSession_def
  DeleteSession_def PutUser_def GetUser_def PutPSKRecord_def GetPSKRecord_def DeletePSKRecord_def
  PutPairing_def GetPairing_def DeletePairing_def

interpretation dev: del_table GetDevice PutDevice d_ID mem_ok DeleteDevice
  by unfold_locales (auto simp: mem_defs mem_ok_def split: if_splits simp del: map_of_eq_Some_iff)

interpretation ses: del_table GetSession PutSession s_ID mem_ok DeleteSession
  by unfold_locales (auto simp: mem_defs mem_ok_def split: if_splits simp del: map_of_eq_Some_iff)

interpretation usr: table GetUser PutUser u_ID mem_ok
  by unfold_locales (auto simp: mem_defs mem_ok_def split: if_splits simp del: map_of_eq_Some_iff)

interpretation psk: del_table GetPSKRecord PutPSKRecord r_UserID mem_ok DeletePSKRecord
  by unfold_locales (auto simp: mem_defs mem_ok_def split: if_splits simp del: map_of_eq_Some_iff)

interpretation par: del_table "\<lambda>s (u, m, h). GetPairing s u m h" PutPairing
  "\<lambda>p. (p_UserID p, p_MobileDeviceID p, p_HostDeviceID p)" mem_ok "\<lambda>s (u, m, h). DeletePairing s u m h"
  by unfold_locales (auto simp: mem_defs mem_ok_def Let_def split: if_splits simp del: map_of_eq_Some_iff)


section \<open>The memory store refines five maps\<close>

text \<open>The specification of the interface: a partial map for each kind of record. A list is
  returned in no particular order, so the specification returns its elements as a set.\<close>

record spec_store =
  sp_devices :: "string \<rightharpoonup> Device"
  sp_sessions :: "string \<rightharpoonup> Session"
  sp_users :: "string \<rightharpoonup> User"
  sp_psks :: "string \<rightharpoonup> PSKRecord"
  sp_pairs :: "pairingKey \<rightharpoonup> Pairing"

datatype store_op =
    OPutDevice Device | OGetDevice string | OListDevicesByOwner string | ODeleteDevice string
  | OPutSession Session | OGetSession string | ODeleteSession string
  | OPutUser User | OGetUser string
  | OPutPSKRecord PSKRecord | OGetPSKRecord string | OListPSKRecords | ODeletePSKRecord string
  | OPutPairing Pairing | OGetPairing pairingKey | OListPairingsByUser string | ODeletePairing pairingKey

datatype store_res = RDone | RErr store_err | RDevice Device | RSession Session | RUser User | RPSK PSKRecord
  | RPairing Pairing | RDevices "Device set" | RPSKs "PSKRecord set" | RPairings "Pairing set"

definition updated :: "'s \<Rightarrow> store_err + 's \<Rightarrow> 's \<times> store_res" where
  "updated s r = (case r of Inl e \<Rightarrow> (s, RErr e) | Inr s' \<Rightarrow> (s', RDone))"

definition answered :: "'s \<Rightarrow> ('a \<Rightarrow> store_res) \<Rightarrow> store_err + 'a \<Rightarrow> 's \<times> store_res" where
  "answered s f r = (s, case r of Inl e \<Rightarrow> RErr e | Inr v \<Rightarrow> f v)"

fun mem_exec :: "mem_store \<Rightarrow> store_op \<Rightarrow> mem_store \<times> store_res" where
  "mem_exec s (OPutDevice d) = updated s (PutDevice s d)"
| "mem_exec s (OGetDevice i) = answered s RDevice (GetDevice s i)"
| "mem_exec s (OListDevicesByOwner u) = answered s (RDevices \<circ> set) (ListDevicesByOwner s u)"
| "mem_exec s (ODeleteDevice i) = updated s (DeleteDevice s i)"
| "mem_exec s (OPutSession x) = updated s (PutSession s x)"
| "mem_exec s (OGetSession i) = answered s RSession (GetSession s i)"
| "mem_exec s (ODeleteSession i) = updated s (DeleteSession s i)"
| "mem_exec s (OPutUser u) = updated s (PutUser s u)"
| "mem_exec s (OGetUser i) = answered s RUser (GetUser s i)"
| "mem_exec s (OPutPSKRecord r) = updated s (PutPSKRecord s r)"
| "mem_exec s (OGetPSKRecord u) = answered s RPSK (GetPSKRecord s u)"
| "mem_exec s OListPSKRecords = answered s (RPSKs \<circ> set) (ListPSKRecords s)"
| "mem_exec s (ODeletePSKRecord u) = updated s (DeletePSKRecord s u)"
| "mem_exec s (OPutPairing p) = updated s (PutPairing s p)"
| "mem_exec s (OGetPairing k) = answered s RPairing (case k of (u, m, h) \<Rightarrow> GetPairing s u m h)"
| "mem_exec s (OListPairingsByUser u) = answered s (RPairings \<circ> set) (ListPairingsByUser s u)"
| "mem_exec s (ODeletePairing k) = updated s (case k of (u, m, h) \<Rightarrow> DeletePairing s u m h)"

definition looked :: "('a \<Rightarrow> store_res) \<Rightarrow> 'a option \<Rightarrow> store_res" where
  "looked f v = (case v of None \<Rightarrow> RErr ErrNotFound | Some x \<Rightarrow> f x)"

definition removed :: "'a option \<Rightarrow> store_res" where
  "removed v = (if v = None then RErr ErrNotFound else RDone)"

fun spec_exec :: "spec_store \<Rightarrow> store_op \<Rightarrow> spec_store \<times> store_res" where
  "spec_exec s (OPutDevice d) = (s\<lparr>sp_devices := (sp_devices s)(d_ID d \<mapsto> d)\<rparr>, RDone)"
| "spec_exec s (OGetDevice i) = (s, looked RDevice (sp_devices s i))"
| "spec_exec s (OListDevicesByOwner u) = (s, RDevices {d \<in> ran (sp_devices s). d_OwnerUserID d = u})"
| "spec_exec s (ODeleteDevice i) = (s\<lparr>sp_devices := (sp_devices s)(i := None)\<rparr>, removed (sp_devices s i))"
| "spec_exec s (OPutSession x) = (s\<lparr>sp_sessions := (sp_sessions s)(s_ID x \<mapsto> x)\<rparr>, RDone)"
| "spec_exec s (OGetSession i) = (s, looked RSession (sp_sessions s i))"
| "spec_exec s (ODeleteSession i) = (s\<lparr>sp_sessions := (sp_sessions s)(i := None)\<rparr>, removed (sp_sessions s i))"
| "spec_exec s (OPutUser u) = (s\<lparr>sp_users := (sp_users s)(u_ID u \<mapsto> u)\<rparr>, RDone)"
| "spec_exec s (OGetUser i) = (s, looked RUser (sp_users s i))"
| "spec_exec s (OPutPSKRecord r) = (s\<lparr>sp_psks := (sp_psks s)(r_UserID r \<mapsto> r)\<rparr>, RDone)"
| "spec_exec s (OGetPSKRecord u) = (s, looked RPSK (sp_psks s u))"
| "spec_exec s OListPSKRecords = (s, RPSKs (ran (sp_psks s)))"
| "spec_exec s (ODeletePSKRecord u) = (s\<lparr>sp_psks := (sp_psks s)(u := None)\<rparr>, removed (sp_psks s u))"
| "spec_exec s (OPutPairing p) =
     (s\<lparr>sp_pairs := (sp_pairs s)((p_UserID p, p_MobileDeviceID p, p_HostDeviceID p) \<mapsto> p)\<rparr>, RDone)"
| "spec_exec s (OGetPairing k) = (s, looked RPairing (sp_pairs s k))"
| "spec_exec s (OListPairingsByUser u) = (s, RPairings {p \<in> ran (sp_pairs s). p_UserID p = u})"
| "spec_exec s (ODeletePairing k) = (s\<lparr>sp_pairs := (sp_pairs s)(k := None)\<rparr>, removed (sp_pairs s k))"

definition mem_abs :: "mem_store \<Rightarrow> spec_store" where
  "mem_abs s = \<lparr>sp_devices = map_of (devices s), sp_sessions = map_of (sessions s),
     sp_users = map_of (users s), sp_psks = map_of (psks s), sp_pairs = map_of (pairs s)\<rparr>"

fun store_run :: "('s \<Rightarrow> store_op \<Rightarrow> 's \<times> store_res) \<Rightarrow> 's \<Rightarrow> store_op list \<Rightarrow> store_res list" where
  "store_run exec s [] = []"
| "store_run exec s (q # qs) = (case exec s q of (s', r) \<Rightarrow> r # store_run exec s' qs)"

lemma ran_values: "gomap_ok m \<Longrightarrow> ran (map_of m) = snd ` set m"
  by (force simp: ran_def)

lemma pairs_of_user:
  assumes "mem_ok s"
  shows "snd ` {kp \<in> set (pairs s). fst (fst kp) = u} = {p \<in> snd ` set (pairs s). p_UserID p = u}"
proof -
  have "fst (fst kp) = p_UserID (snd kp)" if "kp \<in> set (pairs s)" for kp
    using assms that unfolding mem_ok_def by (cases kp) auto
  then show ?thesis by auto
qed

lemmas exec_defs = updated_def answered_def looked_def removed_def mem_abs_def found_def

lemma mem_exec_refines:
  assumes "mem_ok s"
  shows "spec_exec (mem_abs s) q = map_prod mem_abs id (mem_exec s q)"
proof (cases q)
  case (OListPairingsByUser u)
  then show ?thesis using assms pairs_of_user [OF assms, of u]
    by (simp add: exec_defs ListPairingsByUser_def mem_ok_def ran_values split_beta)
next
  case (OListDevicesByOwner u)
  then show ?thesis using assms
    by (auto simp add: exec_defs ListDevicesByOwner_def mem_ok_def ran_values)
next
  case OListPSKRecords
  then show ?thesis using assms
    by (simp add: exec_defs ListPSKRecords_def mem_ok_def ran_values)
qed (auto simp: exec_defs mem_defs Let_def delete_conv' update_conv' fun_upd_idem split: option.splits)

lemma mem_exec_ok: "mem_ok s \<Longrightarrow> mem_ok (fst (mem_exec s q))"
  by (cases q)
     (auto simp: updated_def answered_def dest: dev.put_ok ses.put_ok usr.put_ok psk.put_ok par.put_ok
       dev.del_Inr ses.del_Inr psk.del_Inr par.del_Inr [where k = "(_, _, _)", simplified] split: sum.splits)

text \<open>C20: On every sequence of calls the memory store answers exactly as five independent maps
  keyed by device, session, user, PSK owner and pairing: a lookup returns the last record put
  under its key, a deleted or absent key is \<^verbatim>\<open>ErrNotFound\<close>, and the lists hold exactly the
  records of the user they are asked for.\<close>

theorem mem_store_refines_maps:
  "store_run mem_exec mem_New qs
     = store_run spec_exec \<lparr>sp_devices = Map.empty, sp_sessions = Map.empty, sp_users = Map.empty,
         sp_psks = Map.empty, sp_pairs = Map.empty\<rparr> qs"
proof -
  have "store_run mem_exec s qs = store_run spec_exec (mem_abs s) qs" if "mem_ok s" for s
    using that
  proof (induction qs arbitrary: s)
    case (Cons q qs)
    then show ?case
      using mem_exec_refines [OF Cons.prems, of q] mem_exec_ok [OF Cons.prems, of q]
      by (cases "mem_exec s q") simp
  qed simp
  from this [OF mem_ok_New] show ?thesis by (simp add: mem_abs_def mem_New_def)
qed

end
