(* ===== verification/Auth.thy ===== *)
theory Auth
  imports Signal_Proto Store
begin

text \<open>
  \<^verbatim>\<open>core/auth\<close> and its providers: \<^verbatim>\<open>none\<close>, \<^verbatim>\<open>psk\<close> (a shared secret, an HMAC over the Register
  message, a nonce cache and a clock window) and \<^verbatim>\<open>firebase\<close> (an ID token checked by a
  verifier), and the App Check verification. HMAC-SHA256, the protobuf marshaller and the
  Firebase verifiers are parameters; the clock and the random nonce are arguments.
\<close>

record Identity =
  UserID :: string
  DeviceID :: string

definition Anonymous :: Identity where
  "Anonymous = \<lparr>UserID = ''anonymous'', DeviceID = []\<rparr>"

record psk_Credentials =
  c_UserID :: string
  c_SignedAtUnix :: int
  c_Nonce :: bytes
  c_Signature :: bytes
  c_SignedBody :: bytes

datatype Credentials = NoneCreds | PskCreds psk_Credentials | FirebaseCreds string

fun creds_Kind :: "Credentials \<Rightarrow> string" where
  "creds_Kind NoneCreds = ''none''"
| "creds_Kind (PskCreds c) = ''psk''"
| "creds_Kind (FirebaseCreds t) = ''firebase''"

datatype auth_err =
    WrongKindError string string
  | ErrSignatureInvalid | ErrNonceReuse | ErrTimestampSkew | ErrRevoked | ErrUnknownUser | ErrNonceShape
  | ErrStore
  | ErrTokenInvalid

definition none_Authenticate :: "Credentials option \<Rightarrow> auth_err + Identity" where
  "none_Authenticate creds =
     (case creds of
        Some c \<Rightarrow> if creds_Kind c \<noteq> ''none'' then Inl (WrongKindError (creds_Kind c) ''none'')
                 else Inr Anonymous
      | None \<Rightarrow> Inr Anonymous)"

section \<open>The PSK provider\<close>

definition NonceLength :: nat where
  "NonceLength = 16"

record MemoryNonceCache =
  Window :: duration
  seen :: "(string, time) gomap"

definition NewMemoryNonceCache :: "duration \<Rightarrow> MemoryNonceCache" where
  "NewMemoryNonceCache w = \<lparr>Window = w, seen = []\<rparr>"

definition nonce_key :: "string \<Rightarrow> bytes \<Rightarrow> string" where
  "nonce_key u n = u @ '':'' @ hex_encode n"

definition nonce_Add :: "MemoryNonceCache \<Rightarrow> string \<Rightarrow> bytes \<Rightarrow> time \<Rightarrow> MemoryNonceCache \<times> bool" where
  "nonce_Add c u n now =
     (let key = nonce_key u n;
          kept = gm_retain (\<lambda>k t. \<not> time_sub now t > Window c) (seen c)
      in if gm_get kept key \<noteq> None then (c\<lparr>seen := kept\<rparr>, False)
         else (c\<lparr>seen := gm_put key now kept\<rparr>, True))"

record psk_Provider =
  Nonces :: MemoryNonceCache
  ClockSkew :: duration

definition psk_New :: psk_Provider where
  "psk_New = \<lparr>Nonces = NewMemoryNonceCache (5 * minute), ClockSkew = 60 * second\<rparr>"

text \<open>\<^verbatim>\<open>int64(p.ClockSkew/time.Second)\<close>: Go's division truncates towards zero.\<close>

definition skew_seconds :: "duration \<Rightarrow> int" where
  "skew_seconds d = (if d < 0 then - ((- d) div second) else d div second)"

text \<open>The distance of the signed time from the clock, in 64-bit arithmetic.\<close>

definition clock_delta :: "time \<Rightarrow> int \<Rightarrow> int" where
  "clock_delta now signed_at =
     (let delta = int64 (time_unix now - signed_at) in if delta < 0 then int64 (- delta) else delta)"

definition psk_Authenticate ::
  "(bytes \<Rightarrow> bytes \<Rightarrow> bytes) \<Rightarrow> (string \<Rightarrow> store_err + PSKRecord) \<Rightarrow> psk_Provider \<Rightarrow> Credentials option \<Rightarrow> time
     \<Rightarrow> psk_Provider \<times> (auth_err + Identity)" where
  "psk_Authenticate hmacSHA256 get_psk p creds now =
     (case creds of
        None \<Rightarrow> (p, Inl (WrongKindError ''<nil>'' ''psk''))
      | Some c \<Rightarrow>
         (case c of
            PskCreds pc \<Rightarrow>
              if length (c_Nonce pc) \<noteq> NonceLength then (p, Inl ErrNonceShape)
              else if clock_delta now (c_SignedAtUnix pc) > skew_seconds (ClockSkew p)
              then (p, Inl ErrTimestampSkew)
              else
               (case get_psk (c_UserID pc) of
                  Inl e \<Rightarrow> (p, Inl (if e = ErrNotFound then ErrUnknownUser else ErrStore))
                | Inr rec \<Rightarrow>
                    if IsRevoked rec then (p, Inl ErrRevoked)
                    else
                     (case nonce_Add (Nonces p) (c_UserID pc) (c_Nonce pc) now of
                        (ns, fresh) \<Rightarrow>
                          let p' = p\<lparr>Nonces := ns\<rparr> in
                          if \<not> fresh then (p', Inl ErrNonceReuse)
                          else if hmacSHA256 (r_Secret rec) (c_SignedBody pc) \<noteq> c_Signature pc
                          then (p', Inl ErrSignatureInvalid)
                          else (p', Inr \<lparr>UserID = c_UserID pc, DeviceID = []\<rparr>)))
          | _ \<Rightarrow> (p, Inl (WrongKindError (creds_Kind c) ''psk''))))"

definition CanonicalRegisterBody :: "(RegisterMsg \<Rightarrow> bytes option) \<Rightarrow> RegisterMsg \<Rightarrow> bytes option" where
  "CanonicalRegisterBody marshal reg = marshal (reg\<lparr>HmacSignature := []\<rparr>)"

datatype sign_err = NonceError | BodyError

definition SignRegister ::
  "(bytes \<Rightarrow> bytes \<Rightarrow> bytes) \<Rightarrow> (RegisterMsg \<Rightarrow> bytes option) \<Rightarrow> bytes option \<Rightarrow> time \<Rightarrow> bytes \<Rightarrow> RegisterMsg
     \<Rightarrow> sign_err + RegisterMsg" where
  "SignRegister hmacSHA256 marshal rnd now secret reg =
     (case rnd of
        None \<Rightarrow> Inl NonceError
      | Some nonce \<Rightarrow>
          let reg1 = reg\<lparr>SignedAtUnix := time_unix now, Nonce := nonce, HmacSignature := []\<rparr>
          in (case CanonicalRegisterBody marshal reg1 of
                None \<Rightarrow> Inl BodyError
              | Some body \<Rightarrow> Inr (reg1\<lparr>HmacSignature := hmacSHA256 secret body\<rparr>)))"

definition CredentialsFromRegister :: "(RegisterMsg \<Rightarrow> bytes option) \<Rightarrow> RegisterMsg \<Rightarrow> psk_Credentials option" where
  "CredentialsFromRegister marshal reg =
     map_option (\<lambda>body. \<lparr>c_UserID = UserId reg, c_SignedAtUnix = SignedAtUnix reg, c_Nonce = Nonce reg,
                         c_Signature = HmacSignature reg, c_SignedBody = body\<rparr>)
       (CanonicalRegisterBody marshal reg)"

section \<open>Firebase\<close>

text \<open>\<open>verify\<close> is the verifier's \<^verbatim>\<open>VerifyIDToken\<close>: an error, or a token that may be nil, else
  its uid.\<close>

definition firebase_Authenticate ::
  "(string \<Rightarrow> string + string option) \<Rightarrow> Credentials option \<Rightarrow> auth_err + Identity" where
  "firebase_Authenticate verify creds =
     (case creds of
        None \<Rightarrow> Inl (WrongKindError ''<nil>'' ''firebase'')
      | Some c \<Rightarrow>
         (case c of
            FirebaseCreds tok \<Rightarrow>
              if tok = [] then Inl ErrTokenInvalid
              else (case verify tok of
                      Inl _ \<Rightarrow> Inl ErrTokenInvalid
                    | Inr None \<Rightarrow> Inl ErrTokenInvalid
                    | Inr (Some uid) \<Rightarrow>
                        if uid = [] then Inl ErrTokenInvalid
                        else Inr \<lparr>UserID = uid, DeviceID = []\<rparr>)
          | _ \<Rightarrow> Inl (WrongKindError (creds_Kind c) ''firebase'')))"

datatype appcheck_err = NoVerifier | EmptyToken | AppCheckRejected string

definition VerifyAppCheck :: "(string \<Rightarrow> string option) option \<Rightarrow> string \<Rightarrow> appcheck_err option" where
  "VerifyAppCheck verifier token =
     (case verifier of
        None \<Rightarrow> Some NoVerifier
      | Some v \<Rightarrow>
          if token = [] then Some EmptyToken
          else (case v token of Some e \<Rightarrow> Some (AppCheckRejected e) | None \<Rightarrow> None))"


section \<open>The clock window\<close>

text \<open>The times for which \<^verbatim>\<open>Unix\<close> and its distance to any plausible timestamp fit in 64 bits.\<close>

definition unix_ok :: "int \<Rightarrow> bool" where
  "unix_ok u \<longleftrightarrow> 0 \<le> u \<and> u < 2 ^ 62"

lemma int64_wrapped:
  assumes "2 ^ 63 \<le> x" "x < 2 ^ 64"
  shows "int64 x = x - 2 ^ 64"
proof -
  have "(x + 2 ^ 63) mod 2 ^ 64 = (x + 2 ^ 63 - 2 ^ 64) mod 2 ^ 64" by (rule minus_mod_self2 [symmetric])
  also have "\<dots> = x + 2 ^ 63 - 2 ^ 64" using assms by (intro mod_pos_pos_trivial) simp_all
  finally show ?thesis by (simp add: int64_def)
qed

lemma clock_delta_le:
  assumes u: "unix_ok (time_unix now)" and s: "- (2 ^ 63) \<le> s" "s < 2 ^ 63" and d: "0 \<le> d" "d < 2 ^ 62"
  shows "clock_delta now s \<le> d \<longleftrightarrow> \<bar>time_unix now - s\<bar> \<le> d \<or> s = time_unix now - 2 ^ 63"
proof -
  define x where "x = time_unix now - s"
  have x: "- (2 ^ 63) < x" "x < 2 ^ 63 + 2 ^ 62" using u s by (auto simp: x_def unix_ok_def)
  have w: "s = time_unix now - 2 ^ 63 \<longleftrightarrow> x = 2 ^ 63" by (auto simp: x_def)
  show ?thesis
  proof (cases "x < 2 ^ 63")
    case True
    then have "int64 x = x" and "x < 0 \<Longrightarrow> int64 (- x) = - x" using x by simp_all
    then show ?thesis unfolding w using True by (auto simp: clock_delta_def Let_def simp flip: x_def)
  next
    case False
    then have i: "int64 x = x - 2 ^ 64" using x by (intro int64_wrapped) simp_all
    have "int64 (- (x - 2 ^ 64)) = (if x = 2 ^ 63 then - (2 ^ 63) else 2 ^ 64 - x)"
      using False x by (auto simp: int64_min [simplified])
    then show ?thesis unfolding w using False x d
      by (auto simp: clock_delta_def Let_def i simp flip: x_def)
  qed
qed

text \<open>the clock check accepts the timestamps within the configured skew, and one more: the
  timestamp exactly \<open>2 ^ 63\<close> seconds before the clock, whose distance does not fit in an
  \<^verbatim>\<open>int64\<close> and stays negative when it is negated.\<close>

theorem skew_check_exact:
  assumes "length (c_Nonce pc) = NonceLength" and "unix_ok (time_unix now)"
    and "- (2 ^ 63) \<le> c_SignedAtUnix pc" "c_SignedAtUnix pc < 2 ^ 63"
    and "0 \<le> ClockSkew p" "ClockSkew p \<le> maxDuration"
  shows "snd (psk_Authenticate hmac get_psk p (Some (PskCreds pc)) now) = Inl ErrTimestampSkew
    \<longleftrightarrow> \<not> (\<bar>time_unix now - c_SignedAtUnix pc\<bar> \<le> ClockSkew p div second
          \<or> c_SignedAtUnix pc = time_unix now - 2 ^ 63)"
proof -
  have d: "0 \<le> ClockSkew p div second" "ClockSkew p div second < 2 ^ 62"
    using assms(5,6) by (simp_all add: second_def maxDuration_def)
  show ?thesis
    using clock_delta_le [OF assms(2-4) d] assms(1,5)
    by (auto simp: psk_Authenticate_def skew_seconds_def Let_def not_le split: sum.splits prod.splits)
qed

definition demo_creds :: "int \<Rightarrow> psk_Credentials" where
  "demo_creds t = \<lparr>c_UserID = ''u'', c_SignedAtUnix = t, c_Nonce = replicate 16 7, c_Signature = [], c_SignedBody = []\<rparr>"

lemma skew_check_exact_witness:
  "snd (psk_Authenticate (\<lambda>k b. []) (\<lambda>u. Inl ErrNotFound) psk_New
     (Some (PskCreds (demo_creds (1800000000 - 2 ^ 63)))) ((1800000000 + 62135596800) * second)) \<noteq> Inl ErrTimestampSkew"
  using skew_check_exact [of "demo_creds (1800000000 - 2 ^ 63)" "(1800000000 + 62135596800) * second" psk_New
      "\<lambda>k b. []" "\<lambda>u. Inl ErrNotFound"]
  by (simp add: demo_creds_def psk_New_def NonceLength_def unix_ok_def time_unix_def second_def maxDuration_def)


section \<open>What an accepted request proves\<close>

lemma psk_Authenticate_Inr:
  "snd (psk_Authenticate hmac get_psk p creds now) = Inr ident \<longleftrightarrow>
     (\<exists>pc rec. creds = Some (PskCreds pc) \<and> ident = \<lparr>UserID = c_UserID pc, DeviceID = []\<rparr>
        \<and> length (c_Nonce pc) = NonceLength
        \<and> clock_delta now (c_SignedAtUnix pc) \<le> skew_seconds (ClockSkew p)
        \<and> get_psk (c_UserID pc) = Inr rec \<and> \<not> IsRevoked rec
        \<and> snd (nonce_Add (Nonces p) (c_UserID pc) (c_Nonce pc) now)
        \<and> hmac (r_Secret rec) (c_SignedBody pc) = c_Signature pc)"
  by (auto simp: psk_Authenticate_def Let_def not_le not_less
      split: option.splits Credentials.splits sum.splits prod.splits if_splits)

text \<open>Two requests have the same cache key only if user and nonce agree: the nonce is always
  32 hexadecimal digits, so the separator cannot be confused with a character of the user.\<close>

lemma nonce_key_inj:
  assumes "length n = length n'"
  shows "nonce_key u n = nonce_key u' n' \<longleftrightarrow> u = u' \<and> n = n'"
proof
  assume "nonce_key u n = nonce_key u' n'"
  then have e: "(u @ '':'') @ hex_encode n = (u' @ '':'') @ hex_encode n'" by (simp add: nonce_key_def)
  then have "u @ '':'' = u' @ '':'' \<and> hex_encode n = hex_encode n'"
    using assms by (subst (asm) append_eq_append_conv) simp_all
  then show "u = u' \<and> n = n'" by (simp add: hex_encode_inj)
qed simp

section \<open>Replay\<close>

definition cache_ok :: "MemoryNonceCache \<Rightarrow> bool" where
  "cache_ok c \<longleftrightarrow> gomap_ok (seen c) \<and> 0 \<le> Window c \<and> Window c < maxDuration"

text \<open>What a replay guard promises: a pair it has recorded stays recorded, and is refused, as
  long as the window lasts. \<open>at c u n\<close> is the time the pair was recorded.\<close>

locale replay_guard =
  fixes add :: "'c \<Rightarrow> string \<Rightarrow> bytes \<Rightarrow> time \<Rightarrow> 'c \<times> bool"
    and recorded :: "'c \<Rightarrow> string \<Rightarrow> bytes \<Rightarrow> time option"
    and window :: "'c \<Rightarrow> duration"
    and ok :: "'c \<Rightarrow> bool"
    and shape :: "bytes \<Rightarrow> bool"
  assumes add_ok: "ok c \<Longrightarrow> ok (fst (add c u n now)) \<and> window (fst (add c u n now)) = window c"
    and add_fresh: "ok c \<Longrightarrow> snd (add c u n now) \<Longrightarrow> recorded (fst (add c u n now)) u n = Some now"
    and add_keeps: "ok c \<Longrightarrow> shape n \<Longrightarrow> shape n' \<Longrightarrow> recorded c u n = Some t \<Longrightarrow> now - t \<le> window c
          \<Longrightarrow> recorded (fst (add c u' n' now)) u n = Some t"
    and add_refuses: "ok c \<Longrightarrow> recorded c u n = Some t \<Longrightarrow> now - t \<le> window c \<Longrightarrow> \<not> snd (add c u n now)"
begin

fun adds :: "'c \<Rightarrow> (string \<times> bytes \<times> time) list \<Rightarrow> 'c" where
  "adds c [] = c"
| "adds c ((u, n, t) # es) = adds (fst (add c u n t)) es"

lemma adds_keep:
  assumes "ok c" and "shape n" and "recorded c u n = Some t"
    and "\<forall>(u', n', t') \<in> set es. shape n' \<and> t' - t \<le> window c"
  shows "ok (adds c es) \<and> recorded (adds c es) u n = Some t \<and> window (adds c es) = window c"
  using assms
proof (induction es arbitrary: c)
  case (Cons e es)
  obtain u' n' t' where e: "e = (u', n', t')" by (cases e)
  show ?case
    using Cons.IH [of "fst (add c u' n' t')"] Cons.prems add_ok [of c u' n' t'] add_keeps [of c n n' u t t' u']
    by (simp add: e)
qed simp

lemma no_replay:
  assumes "ok c" and "shape n" and "snd (add c u n t)"
    and "\<forall>(u', n', t') \<in> set es. shape n' \<and> t' - t \<le> window c" and "now - t \<le> window c"
  shows "\<not> snd (add (adds (fst (add c u n t)) es) u n now)"
  using adds_keep [of "fst (add c u n t)" n u t es] assms add_ok [of c u n t] add_fresh [of c u n t]
    add_refuses [of "adds (fst (add c u n t)) es" u n t now] by simp

end

lemma nonce_prune_get:
  assumes "cache_ok c"
  shows "gm_get (gm_retain (\<lambda>k t. \<not> time_sub now t > Window c) (seen c)) k
    = (case gm_get (seen c) k of None \<Rightarrow> None | Some t \<Rightarrow> if now - t \<le> Window c then Some t else None)"
  using assms time_sub_gt_iff [of "Window c" now]
  by (simp add: gm_get_retain cache_ok_def not_less split: option.splits)

interpretation nonces: replay_guard nonce_Add "\<lambda>c u n. gm_get (seen c) (nonce_key u n)" Window cache_ok
  "\<lambda>n. length n = NonceLength"
proof
  show "cache_ok (fst (nonce_Add c u n now)) \<and> Window (fst (nonce_Add c u n now)) = Window c"
    if "cache_ok c" for c u n now
    using that by (simp add: nonce_Add_def Let_def cache_ok_def)
  show "gm_get (seen (fst (nonce_Add c u n now))) (nonce_key u n) = Some now"
    if "cache_ok c" "snd (nonce_Add c u n now)" for c u n now
    using that by (simp add: nonce_Add_def Let_def split: if_splits)
  show "gm_get (seen (fst (nonce_Add c u' n' now))) (nonce_key u n) = Some t"
    if "cache_ok c" "length n = NonceLength" "length n' = NonceLength"
      "gm_get (seen c) (nonce_key u n) = Some t" "now - t \<le> Window c" for c n n' u t now u'
    using that nonce_key_inj [of n n' u u'] nonce_prune_get [OF that(1), of now "nonce_key u n"]
    by (auto simp: nonce_Add_def Let_def)
  show "\<not> snd (nonce_Add c u n now)"
    if "cache_ok c" "gm_get (seen c) (nonce_key u n) = Some t" "now - t \<le> Window c" for c u n t now
    using that nonce_prune_get [OF that(1), of now "nonce_key u n"]
    by (auto simp: nonce_Add_def Let_def)
qed


lemma psk_Authenticate_nonces:
  "\<exists>xs. Nonces (fst (psk_Authenticate hmac get_psk p creds now)) = nonces.adds (Nonces p) xs
      \<and> ClockSkew (fst (psk_Authenticate hmac get_psk p creds now)) = ClockSkew p
      \<and> (\<forall>(u, n, t) \<in> set xs. length n = NonceLength \<and> t = now)"
proof -
  let ?p = "fst (psk_Authenticate hmac get_psk p creds now)"
  have step: "P ?p" if "P p"
    and "\<And>u n. length n = NonceLength \<Longrightarrow> P (p\<lparr>Nonces := fst (nonce_Add (Nonces p) u n now)\<rparr>)" for P
    using that by (auto simp: psk_Authenticate_def Let_def split_beta
        split: option.splits Credentials.splits sum.splits if_splits)
  show ?thesis
  proof (rule step)
    show "\<exists>xs. Nonces p = nonces.adds (Nonces p) xs \<and> ClockSkew p = ClockSkew p
        \<and> (\<forall>(u, n, t) \<in> set xs. length n = NonceLength \<and> t = now)"
      by (intro exI [of _ "[]"]) simp
    fix u n assume "length (n :: bytes) = NonceLength"
    then show "\<exists>xs. Nonces (p\<lparr>Nonces := fst (nonce_Add (Nonces p) u n now)\<rparr>) = nonces.adds (Nonces p) xs
        \<and> ClockSkew (p\<lparr>Nonces := fst (nonce_Add (Nonces p) u n now)\<rparr>) = ClockSkew p
        \<and> (\<forall>(u, n, t) \<in> set xs. length n = NonceLength \<and> t = now)"
      by (intro exI [of _ "[(u, n, now)]"]) simp
  qed
qed

text \<open>Later requests, each with the store as it is at the time.\<close>

fun psk_run ::
  "(bytes \<Rightarrow> bytes \<Rightarrow> bytes) \<Rightarrow> psk_Provider \<Rightarrow> ((string \<Rightarrow> store_err + PSKRecord) \<times> Credentials option \<times> time) list
     \<Rightarrow> psk_Provider" where
  "psk_run hmac p [] = p"
| "psk_run hmac p ((g, c, t) # es) = psk_run hmac (fst (psk_Authenticate hmac g p c t)) es"

lemma adds_append: "nonces.adds c (xs @ ys) = nonces.adds (nonces.adds c xs) ys"
  by (induction c xs rule: nonces.adds.induct) simp_all

lemma psk_run_nonces:
  "\<exists>xs. Nonces (psk_run hmac p es) = nonces.adds (Nonces p) xs \<and> ClockSkew (psk_run hmac p es) = ClockSkew p
      \<and> (\<forall>(u, n, t) \<in> set xs. length n = NonceLength \<and> t \<in> (\<lambda>(g, c, t). t) ` set es)"
proof (induction hmac p es rule: psk_run.induct)
  case (1 hmac p)
  show ?case by (intro exI [of _ "[]"]) simp
next
  case (2 hmac p g c t es)
  obtain xs ys where
    "Nonces (fst (psk_Authenticate hmac g p c t)) = nonces.adds (Nonces p) xs"
    "ClockSkew (fst (psk_Authenticate hmac g p c t)) = ClockSkew p"
    "\<forall>(u, n, t') \<in> set xs. length n = NonceLength \<and> t' = t"
    "Nonces (psk_run hmac (fst (psk_Authenticate hmac g p c t)) es)
       = nonces.adds (Nonces (fst (psk_Authenticate hmac g p c t))) ys"
    "ClockSkew (psk_run hmac (fst (psk_Authenticate hmac g p c t)) es)
       = ClockSkew (fst (psk_Authenticate hmac g p c t))"
    "\<forall>(u, n, t') \<in> set ys. length n = NonceLength \<and> t' \<in> (\<lambda>(g, c, t). t) ` set es"
    using 2 psk_Authenticate_nonces [of hmac g p c t] by metis
  then show ?case by (intro exI [of _ "xs @ ys"]) (fastforce simp: adds_append)
qed

lemma unix_distance:
  assumes "time_unix t2 - time_unix t1 \<le> k"
  shows "t2 - t1 \<le> (k + 1) * second"
proof -
  have "t2 div second \<le> t1 div second + k" using assms by (simp add: time_unix_def)
  then have "t2 div second * second \<le> (t1 div second + k) * second"
    by (intro mult_right_mono) (simp_all add: second_def)
  moreover have "t2 < t2 div second * second + second" "t1 div second * second \<le> t1"
    by (simp_all add: second_def)
  ultimately show ?thesis by (simp add: algebra_simps)
qed

text \<open>C3: A captured Register message cannot be replayed: once it has been accepted, no later
  message with the same user, nonce and timestamp is accepted, whatever other requests arrive
  in between and however the store changes, provided the nonce window covers twice the clock
  skew (the defaults are five minutes and one minute).\<close>

theorem psk_no_replay:
  assumes "cache_ok (Nonces p)" and "0 \<le> ClockSkew p" "ClockSkew p \<le> maxDuration"
    and "(2 * (ClockSkew p div second) + 1) * second \<le> Window (Nonces p)"
    and "unix_ok (time_unix t1)" "unix_ok (time_unix t2)"
    and "0 \<le> c_SignedAtUnix pc" "c_SignedAtUnix pc < 2 ^ 63"
    and "snd (psk_Authenticate hmac g1 p (Some (PskCreds pc)) t1) = Inr i1"
    and "\<forall>(g, c, t) \<in> set es. t \<le> t2"
    and "c_UserID pc' = c_UserID pc" "c_Nonce pc' = c_Nonce pc" "c_SignedAtUnix pc' = c_SignedAtUnix pc"
  shows "snd (psk_Authenticate hmac g2
      (psk_run hmac (fst (psk_Authenticate hmac g1 p (Some (PskCreds pc)) t1)) es) (Some (PskCreds pc')) t2) \<noteq> Inr i2"
proof
  let ?p1 = "fst (psk_Authenticate hmac g1 p (Some (PskCreds pc)) t1)"
  let ?p2 = "psk_run hmac ?p1 es"
  let ?d = "ClockSkew p div second"
  assume acc: "snd (psk_Authenticate hmac g2 ?p2 (Some (PskCreds pc')) t2) = Inr i2"
  have n: "length (c_Nonce pc) = NonceLength" and c1: "clock_delta t1 (c_SignedAtUnix pc) \<le> ?d"
    and fresh: "snd (nonce_Add (Nonces p) (c_UserID pc) (c_Nonce pc) t1)"
    using assms(2,9) by (auto simp: psk_Authenticate_Inr skew_seconds_def)
  have p1: "Nonces ?p1 = fst (nonce_Add (Nonces p) (c_UserID pc) (c_Nonce pc) t1)" "ClockSkew ?p1 = ClockSkew p"
    using assms(9) by (auto simp: psk_Authenticate_def Let_def split: sum.splits prod.splits if_splits)
  obtain xs where xs: "Nonces ?p2 = nonces.adds (Nonces ?p1) xs" "ClockSkew ?p2 = ClockSkew ?p1"
      "\<forall>(u, n, t) \<in> set xs. length n = NonceLength \<and> t \<in> (\<lambda>(g, c, t). t) ` set es"
    using psk_run_nonces [of hmac ?p1 es] by auto
  have c2: "clock_delta t2 (c_SignedAtUnix pc) \<le> ?d"
    and again: "snd (nonce_Add (Nonces ?p2) (c_UserID pc) (c_Nonce pc) t2)"
    using acc assms(2,11-13) by (auto simp: psk_Authenticate_Inr skew_seconds_def xs(2) p1(2))
  have d: "0 \<le> ?d" "?d < 2 ^ 62" using assms(2,3) by (simp_all add: second_def maxDuration_def)
  have "\<bar>time_unix t1 - c_SignedAtUnix pc\<bar> \<le> ?d" "\<bar>time_unix t2 - c_SignedAtUnix pc\<bar> \<le> ?d"
    using clock_delta_le [of t1 "c_SignedAtUnix pc" ?d] clock_delta_le [of t2 "c_SignedAtUnix pc" ?d]
      c1 c2 d assms(5-8) by (auto simp: unix_ok_def)
  then have "t2 - t1 \<le> (2 * ?d + 1) * second" by (intro unix_distance) linarith
  with assms(4) have w: "t2 - t1 \<le> Window (Nonces p)" by linarith
  have "\<forall>(u', n', t') \<in> set xs. length n' = NonceLength \<and> t' - t1 \<le> Window (Nonces p)"
    using xs(3) assms(10) w by fastforce
  from nonces.no_replay [OF assms(1) n fresh this w] again show False by (simp add: xs(1) p1(1))
qed


definition demo_psk :: "string \<Rightarrow> store_err + PSKRecord" where
  "demo_psk u = Inr \<lparr>r_UserID = u, r_Secret = [1], r_DisplayLabel = [], r_CreatedAt = 1, r_RevokedAt = 0\<rparr>"

definition demo_now :: time where
  "demo_now = (1800000000 + 62135596800) * second"

lemma psk_no_replay_witness:
  "snd (psk_Authenticate (\<lambda>k b. []) demo_psk psk_New (Some (PskCreds (demo_creds 1800000000))) demo_now)
     = Inr \<lparr>UserID = ''u'', DeviceID = []\<rparr>
   \<and> snd (psk_Authenticate (\<lambda>k b. []) demo_psk
       (fst (psk_Authenticate (\<lambda>k b. []) demo_psk psk_New (Some (PskCreds (demo_creds 1800000000))) demo_now))
       (Some (PskCreds (demo_creds 1800000000))) (demo_now + second)) \<noteq> Inr \<lparr>UserID = ''u'', DeviceID = []\<rparr>"
proof -
  have acc: "snd (psk_Authenticate (\<lambda>k b. []) demo_psk psk_New (Some (PskCreds (demo_creds 1800000000))) demo_now)
     = Inr \<lparr>UserID = ''u'', DeviceID = []\<rparr>"
    by (simp add: psk_Authenticate_def demo_psk_def psk_New_def demo_creds_def NonceLength_def clock_delta_def
        demo_now_def time_unix_def second_def skew_seconds_def IsRevoked_def nonce_Add_def NewMemoryNonceCache_def
        gm_retain_def)
  have "cache_ok (Nonces psk_New)"
    by (simp add: cache_ok_def psk_New_def NewMemoryNonceCache_def minute_def second_def maxDuration_def)
  from psk_no_replay [OF this, of demo_now "demo_now + second" "demo_creds 1800000000" "\<lambda>k b. []" demo_psk _ "[]"
      "demo_creds 1800000000" demo_psk] acc
  show ?thesis
    by (simp add: psk_New_def NewMemoryNonceCache_def minute_def second_def maxDuration_def unix_ok_def
        demo_now_def time_unix_def demo_creds_def)
qed

text \<open>The PSK provider accepts exactly the requests it should: PSK credentials with a
  16-byte nonce that is new within the window, a timestamp the clock check admits, a user with a
  record that is not revoked, and the HMAC of the signed body under that user's secret. The
  identity it returns is the one in the credentials, whose HMAC was checked with that very
  user's secret.\<close>

theorem psk_accepts_exactly:
  "snd (psk_Authenticate hmac get_psk p creds now) = Inr ident \<longleftrightarrow>
     (\<exists>pc rec. creds = Some (PskCreds pc) \<and> ident = \<lparr>UserID = c_UserID pc, DeviceID = []\<rparr>
        \<and> length (c_Nonce pc) = NonceLength
        \<and> clock_delta now (c_SignedAtUnix pc) \<le> skew_seconds (ClockSkew p)
        \<and> get_psk (c_UserID pc) = Inr rec \<and> \<not> IsRevoked rec
        \<and> gm_get (gm_retain (\<lambda>k t. \<not> time_sub now t > Window (Nonces p)) (seen (Nonces p)))
             (nonce_key (c_UserID pc) (c_Nonce pc)) = None
        \<and> hmac (r_Secret rec) (c_SignedBody pc) = c_Signature pc)"
  unfolding psk_Authenticate_Inr by (auto simp: nonce_Add_def Let_def)

section \<open>Signing\<close>

lemma SignRegister_Credentials:
  assumes "SignRegister hmac marshal rnd now secret reg = Inr reg'" 
  shows "\<exists>nonce body. rnd = Some nonce
    \<and> CredentialsFromRegister marshal reg'
      = Some \<lparr>c_UserID = UserId reg, c_SignedAtUnix = time_unix now, c_Nonce = nonce,
              c_Signature = hmac secret body, c_SignedBody = body\<rparr>
    \<and> DeviceId reg' = DeviceId reg \<and> PublicKey reg' = PublicKey reg \<and> UserId reg' = UserId reg"
  using assms
  by (auto simp: SignRegister_def CredentialsFromRegister_def CanonicalRegisterBody_def Let_def
      split: option.splits)

lemma SignRegister_authenticates:
  assumes "SignRegister hmac marshal (Some nonce) t0 (r_Secret rec) reg = Inr reg'"
    and "length nonce = NonceLength" and "get_psk (UserId reg) = Inr rec" and "\<not> IsRevoked rec"
    and "unix_ok (time_unix t0)" "unix_ok (time_unix now)"
    and "0 \<le> ClockSkew p" "ClockSkew p \<le> maxDuration"
    and "\<bar>time_unix now - time_unix t0\<bar> \<le> ClockSkew p div second"
    and "snd (nonce_Add (Nonces p) (UserId reg) nonce now)"
  shows "\<exists>pc. CredentialsFromRegister marshal reg' = Some pc
    \<and> snd (psk_Authenticate hmac get_psk p (Some (PskCreds pc)) now) = Inr \<lparr>UserID = UserId reg, DeviceID = []\<rparr>"
proof -
  have d: "0 \<le> ClockSkew p div second" "ClockSkew p div second < 2 ^ 62"
    using assms(7,8) by (simp_all add: second_def maxDuration_def)
  have "clock_delta now (time_unix t0) \<le> ClockSkew p div second"
    using clock_delta_le [of now "time_unix t0" "ClockSkew p div second"] d assms(5,6,9)
    by (simp add: unix_ok_def)
  then show ?thesis
    using SignRegister_Credentials [OF assms(1)] assms by (auto simp: psk_Authenticate_Inr skew_seconds_def)
qed

text \<open>What \<^verbatim>\<open>SignRegister\<close> signs with a user's secret, the provider accepts for that user: the
  canonical body the server recomputes from the signed message is the one the client signed,
  when the clocks are within the skew, the nonce is new and the secret is the stored one.\<close>

theorem sign_register_accepted:
  assumes "SignRegister hmac marshal (Some nonce) t0 (r_Secret rec) reg = Inr reg'"
    and "length nonce = NonceLength" and "get_psk (UserId reg) = Inr rec" and "\<not> IsRevoked rec"
    and "unix_ok (time_unix t0)" "unix_ok (time_unix now)"
    and "0 \<le> ClockSkew p" "ClockSkew p \<le> maxDuration"
    and "\<bar>time_unix now - time_unix t0\<bar> \<le> ClockSkew p div second"
    and "snd (nonce_Add (Nonces p) (UserId reg) nonce now)"
  shows "\<exists>pc. CredentialsFromRegister marshal reg' = Some pc
    \<and> snd (psk_Authenticate hmac get_psk p (Some (PskCreds pc)) now) = Inr \<lparr>UserID = UserId reg, DeviceID = []\<rparr>"
  using assms by (rule SignRegister_authenticates)

definition demo_reg_msg :: RegisterMsg where
  "demo_reg_msg = \<lparr>UserId = ''u'', DeviceId = ''d'', PublicKey = [], Kind = DEVICE_KIND_CLI, DisplayName = [],
     SignedAtUnix = 0, Nonce = [], HmacSignature = [], FirebaseIdToken = [], FirebaseAppCheckToken = []\<rparr>"

definition demo_hmac :: "bytes \<Rightarrow> bytes \<Rightarrow> bytes" where
  "demo_hmac k b = k @ b"

lemma sign_register_accepted_witness:
  "\<exists>reg' pc. SignRegister demo_hmac (Some \<circ> Nonce) (Some (replicate 16 7)) demo_now [1] demo_reg_msg = Inr reg'
     \<and> CredentialsFromRegister (Some \<circ> Nonce) reg' = Some pc
     \<and> snd (psk_Authenticate demo_hmac demo_psk psk_New (Some (PskCreds pc)) demo_now)
         = Inr \<lparr>UserID = ''u'', DeviceID = []\<rparr>"
proof -
  let ?rec = "\<lparr>r_UserID = ''u'', r_Secret = [1], r_DisplayLabel = [], r_CreatedAt = 1, r_RevokedAt = 0\<rparr>"
  obtain reg' where s: "SignRegister demo_hmac (Some \<circ> Nonce) (Some (replicate 16 7)) demo_now [1] demo_reg_msg = Inr reg'"
    by (simp add: SignRegister_def CanonicalRegisterBody_def Let_def)
  show ?thesis
    using sign_register_accepted [of demo_hmac "Some \<circ> Nonce" "replicate 16 7" demo_now ?rec demo_reg_msg reg'
        demo_psk demo_now psk_New] s
    by (simp add: NonceLength_def demo_psk_def demo_reg_msg_def IsRevoked_def unix_ok_def demo_now_def time_unix_def
        second_def psk_New_def maxDuration_def nonce_Add_def NewMemoryNonceCache_def gm_retain_def)
qed

end
