(* ===== verification/Signaling_Client.thy ===== *)
theory Signaling_Client
  imports Auth
begin

text \<open>
  \<^verbatim>\<open>core/signaling\<close>: the client's end of the signaling channel. The handshake sends a hello and a
  signed Register and waits for the answers; then a pump goroutine moves incoming Connect
  messages into a channel of eight. The WebSocket is an argument: what a read returned and
  whether a write succeeded. \<^verbatim>\<open>sync.Once\<close> is the flag \<open>closeOnce\<close>.
\<close>

definition cl_ProtocolVersion :: u32 where
  "cl_ProtocolVersion = 1"

datatype cl_read_err = ConnRead | ClNotBinary | ClUnmarshal

datatype cl_err =
    SendClientHello | ReadServerHello cl_read_err | ExpectedServerHello | ServerVersion u32
  | SignError sign_err | SendRegister | ReadRegisterAck cl_read_err | ExpectedRegisterAck
  | ErrRegisterRejected string
  | PumpRead cl_read_err | PumpServerError string string | ErrClosed | CtxDone | WsCloseError

record DialOptions =
  o_UserID :: string
  o_Secret :: bytes
  o_DeviceID :: string
  o_PublicKey :: bytes
  o_Kind :: ProtoDeviceKind
  o_DisplayName :: string
  o_ClientID :: string
  o_FirebaseIDToken :: string
  o_FirebaseAppCheckToken :: string

record Client =
  serverID :: string
  cl_deviceID :: string
  cl_userID :: string
  closeOnce :: bool
  closeErr :: "cl_err option"
  pumpCancelled :: bool
  connClosed :: bool
  incoming :: "ConnectMsg list"
  closedChan :: bool

definition incoming_cap :: nat where
  "incoming_cap = 8"

datatype conn_read = ConnFail | ConnMsg bool bytes

definition cl_readFrame :: "(bytes \<Rightarrow> Frame option) \<Rightarrow> conn_read \<Rightarrow> cl_read_err + Frame" where
  "cl_readFrame unmarshal r =
     (case r of
        ConnFail \<Rightarrow> Inl ConnRead
      | ConnMsg binary data \<Rightarrow>
          if \<not> binary then Inl ClNotBinary
          else (case unmarshal data of None \<Rightarrow> Inl ClUnmarshal | Some f \<Rightarrow> Inr f))"

definition hello_frame :: "DialOptions \<Rightarrow> Frame" where
  "hello_frame opts = Frame_ClientHello \<lparr>ch_ProtocolVersion = cl_ProtocolVersion, ch_ClientId = o_ClientID opts\<rparr>"

definition unsigned_register :: "DialOptions \<Rightarrow> RegisterMsg" where
  "unsigned_register opts =
     \<lparr>UserId = o_UserID opts, DeviceId = o_DeviceID opts, PublicKey = o_PublicKey opts, Kind = o_Kind opts,
      DisplayName = o_DisplayName opts, SignedAtUnix = 0, Nonce = [], HmacSignature = [],
      FirebaseIdToken = [], FirebaseAppCheckToken = []\<rparr>"

text \<open>The Register message: a Firebase token, or a signature with the shared secret.\<close>

definition build_register ::
  "(bytes \<Rightarrow> bytes \<Rightarrow> bytes) \<Rightarrow> (RegisterMsg \<Rightarrow> bytes option) \<Rightarrow> bytes option \<Rightarrow> time \<Rightarrow> DialOptions
     \<Rightarrow> sign_err + RegisterMsg" where
  "build_register hmac marshal rnd now opts =
     (if o_FirebaseIDToken opts \<noteq> []
      then Inr ((unsigned_register opts)\<lparr>FirebaseIdToken := o_FirebaseIDToken opts,
                   FirebaseAppCheckToken := o_FirebaseAppCheckToken opts\<rparr>)
      else SignRegister hmac marshal rnd now (o_Secret opts) (unsigned_register opts))"

text \<open>\<open>write_ok\<close> says whether a frame could be marshalled and written. The result is the frames
  written and the server's ID, or an error.\<close>

definition cl_handshake ::
  "(bytes \<Rightarrow> bytes \<Rightarrow> bytes) \<Rightarrow> (RegisterMsg \<Rightarrow> bytes option) \<Rightarrow> (bytes \<Rightarrow> Frame option) \<Rightarrow> (Frame \<Rightarrow> bool)
     \<Rightarrow> bytes option \<Rightarrow> time \<Rightarrow> DialOptions \<Rightarrow> conn_read \<Rightarrow> conn_read \<Rightarrow> Frame list \<times> (cl_err + string)" where
  "cl_handshake hmac marshal unmarshal write_ok rnd now opts r1 r2 =
     (if \<not> write_ok (hello_frame opts) then ([], Inl SendClientHello)
      else
       (case cl_readFrame unmarshal r1 of
          Inl e \<Rightarrow> ([hello_frame opts], Inl (ReadServerHello e))
        | Inr f1 \<Rightarrow>
           (case f1 of
              Frame_ServerHello hello \<Rightarrow>
                if sh_ProtocolVersion hello \<noteq> cl_ProtocolVersion
                then ([hello_frame opts], Inl (ServerVersion (sh_ProtocolVersion hello)))
                else
                 (case build_register hmac marshal rnd now opts of
                    Inl e \<Rightarrow> ([hello_frame opts], Inl (SignError e))
                  | Inr reg \<Rightarrow>
                      if \<not> write_ok (Frame_Register reg) then ([hello_frame opts], Inl SendRegister)
                      else
                        let sent = [hello_frame opts, Frame_Register reg] in
                       (case cl_readFrame unmarshal r2 of
                          Inl e \<Rightarrow> (sent, Inl (ReadRegisterAck e))
                        | Inr f2 \<Rightarrow>
                           (case f2 of
                              Frame_RegisterAck ack \<Rightarrow>
                                if \<not> Accepted ack then (sent, Inl (ErrRegisterRejected (Reason ack)))
                                else (sent, Inr (sh_ServerId hello))
                            | _ \<Rightarrow> (sent, Inl ExpectedRegisterAck))))
            | _ \<Rightarrow> ([hello_frame opts], Inl ExpectedServerHello))))"

definition Dial_client :: "DialOptions \<Rightarrow> string \<Rightarrow> Client" where
  "Dial_client opts sid =
     \<lparr>serverID = sid, cl_deviceID = o_DeviceID opts, cl_userID = o_UserID opts, closeOnce = False, closeErr = None,
      pumpCancelled = False, connClosed = False, incoming = [], closedChan = False\<rparr>"

definition recordCloseErr :: "Client \<Rightarrow> cl_err \<Rightarrow> Client" where
  "recordCloseErr c e = (if closeOnce c then c else c\<lparr>closeOnce := True, closeErr := Some e\<rparr>)"

text \<open>One round of \<^verbatim>\<open>readPump\<close>: \<open>None\<close> when the pump has returned, or waits for room in the
  channel.\<close>

definition readPump_step :: "(bytes \<Rightarrow> Frame option) \<Rightarrow> Client \<Rightarrow> conn_read \<Rightarrow> Client option" where
  "readPump_step unmarshal c r =
     (if closedChan c then None
      else
       (case cl_readFrame unmarshal r of
          Inl e \<Rightarrow> Some ((recordCloseErr c (PumpRead e))\<lparr>closedChan := True\<rparr>)
        | Inr f \<Rightarrow>
           (case f of
              Frame_Connect m \<Rightarrow>
                if length (incoming c) < incoming_cap then Some (c\<lparr>incoming := incoming c @ [m]\<rparr>) else None
            | Frame_ServerError e \<Rightarrow>
                Some ((recordCloseErr c (PumpServerError (Code e) (Message e)))\<lparr>closedChan := True\<rparr>)
            | _ \<Rightarrow> Some c)))"

text \<open>The pump's exit when its context is cancelled while it waits to deliver.\<close>

definition readPump_cancelled :: "Client \<Rightarrow> Client option" where
  "readPump_cancelled c = (if pumpCancelled c \<and> \<not> closedChan c then Some (c\<lparr>closedChan := True\<rparr>) else None)"

text \<open>\<^verbatim>\<open>Recv\<close> selects among the ready cases at random: the list holds the possible outcomes.\<close>

definition Recv_ready :: "bool \<Rightarrow> Client \<Rightarrow> (Client \<times> (cl_err + ConnectMsg)) list" where
  "Recv_ready ctxDone c =
     (if ctxDone then [(c, Inl CtxDone)] else [])
     @ (if closedChan c then [(c, Inl (case closeErr c of Some e \<Rightarrow> e | None \<Rightarrow> ErrClosed))] else [])
     @ (case incoming c of m # ms \<Rightarrow> [(c\<lparr>incoming := ms\<rparr>, Inr m)] | [] \<Rightarrow> [])"

definition connect_frame :: "string \<Rightarrow> EndpointCandidate list \<Rightarrow> Frame" where
  "connect_frame target cands = Frame_Connect \<lparr>TargetDeviceId = target, FromDeviceId = [], Candidates = cands\<rparr>"

text \<open>\<^verbatim>\<open>Close\<close>: \<open>res\<close> is what closing the WebSocket returns.\<close>

definition Client_Close :: "Client \<Rightarrow> cl_err option \<Rightarrow> Client \<times> cl_err option" where
  "Client_Close c res =
     (let c' = (if closeOnce c then c
                else c\<lparr>closeOnce := True, pumpCancelled := True, connClosed := True, closeErr := res\<rparr>)
      in (c', closeErr c'))"

section \<open>Order of delivery\<close>

text \<open>The interleavings of the pump and the receivers; the label is the message received.\<close>

inductive client_step :: "(bytes \<Rightarrow> Frame option) \<Rightarrow> Client \<Rightarrow> ConnectMsg list \<Rightarrow> ConnectMsg list \<Rightarrow> Client \<Rightarrow> bool"
  for unmarshal where
  pump: "readPump_step unmarshal c r = Some c' \<Longrightarrow>
     client_step unmarshal c
       (case cl_readFrame unmarshal r of Inr (Frame_Connect m) \<Rightarrow> [m] | _ \<Rightarrow> []) [] c'"
| cancelled: "readPump_cancelled c = Some c' \<Longrightarrow> client_step unmarshal c [] [] c'"
| recv: "(c', Inr m) \<in> set (Recv_ready ctxDone c) \<Longrightarrow> client_step unmarshal c [] [m] c'"
| recv_err: "(c', Inl e) \<in> set (Recv_ready ctxDone c) \<Longrightarrow> client_step unmarshal c [] [] c'"
| close_client: "client_step unmarshal c [] [] (fst (Client_Close c res))"

inductive client_run :: "(bytes \<Rightarrow> Frame option) \<Rightarrow> Client \<Rightarrow> ConnectMsg list \<Rightarrow> ConnectMsg list \<Rightarrow> Client \<Rightarrow> bool"
  for unmarshal where
  start: "client_run unmarshal c [] [] c"
| more: "client_run unmarshal c ins outs c1 \<Longrightarrow> client_step unmarshal c1 i q c2
     \<Longrightarrow> client_run unmarshal c (ins @ i) (outs @ q) c2"

lemma client_step_fifo:
  assumes "client_step unmarshal c i q c'"
  shows "incoming c @ i = q @ incoming c' \<and> (length (incoming c) \<le> incoming_cap \<longrightarrow> length (incoming c') \<le> incoming_cap)"
  using assms
proof cases
  case (pump r)
  then show ?thesis
    by (auto simp: readPump_step_def recordCloseErr_def split: if_splits sum.splits Frame.splits)
next
  case (recv m ctxDone)
  then show ?thesis by (cases "incoming c") (auto simp: Recv_ready_def split: if_splits)
qed (auto simp: readPump_cancelled_def Client_Close_def Let_def Recv_ready_def split: if_splits list.splits)

text \<open>Connect messages reach the callers of \<^verbatim>\<open>Recv\<close> in the order the server sent them, none
  twice and none skipped, and never more than eight wait in between, for every interleaving of
  the pump, the receivers and \<^verbatim>\<open>Close\<close>.\<close>

theorem client_delivers_in_order:
  assumes "client_run unmarshal (Dial_client opts sid) ins outs c"
  shows "ins = outs @ incoming c \<and> length (incoming c) \<le> incoming_cap"
  using assms
proof (induction "Dial_client opts sid" ins outs c rule: client_run.induct)
  case start
  show ?case by (simp add: Dial_client_def)
next
  case (more ins outs c1 i q c2)
  then show ?case using client_step_fifo [OF more(3)] by simp
qed

definition demo_opts :: DialOptions where
  "demo_opts = \<lparr>o_UserID = ''u'', o_Secret = [1], o_DeviceID = ''d'', o_PublicKey = [], o_Kind = DEVICE_KIND_CLI,
     o_DisplayName = [], o_ClientID = [], o_FirebaseIDToken = [], o_FirebaseAppCheckToken = []\<rparr>"

definition demo_connect :: ConnectMsg where
  "demo_connect = \<lparr>TargetDeviceId = ''d'', FromDeviceId = ''e'', Candidates = []\<rparr>"

lemma client_delivers_in_order_witness:
  "\<exists>c. client_run (\<lambda>b. Some (Frame_Connect demo_connect)) (Dial_client demo_opts []) [demo_connect] [] c
     \<and> incoming c = [demo_connect]"
proof -
  let ?u = "\<lambda>b. Some (Frame_Connect demo_connect)"
  let ?c = "(Dial_client demo_opts [])\<lparr>incoming := [demo_connect]\<rparr>"
  have "readPump_step ?u (Dial_client demo_opts []) (ConnMsg True []) = Some ?c"
    by (simp add: readPump_step_def Dial_client_def cl_readFrame_def incoming_cap_def)
  from client_step.pump [OF this] have "client_step ?u (Dial_client demo_opts []) [demo_connect] [] ?c"
    by (simp add: cl_readFrame_def)
  from client_run.more [OF client_run.start this]
  have r: "client_run ?u (Dial_client demo_opts []) [demo_connect] [] ?c" by simp
  have "[demo_connect] = [] @ incoming ?c" using client_delivers_in_order [OF r] by (rule conjunct1)
  then show ?thesis using r by (intro exI [of _ ?c] conjI) (simp_all only: append_Nil)
qed

text \<open>Once the server has reported an error, or a read has failed, \<^verbatim>\<open>Close\<close> no longer closes
  anything: recording the error has used up the \<^verbatim>\<open>sync.Once\<close> that guards the shutdown, so the
  WebSocket stays open and \<^verbatim>\<open>Close\<close> returns the recorded error.\<close>

theorem close_after_error_leaks:
  assumes "readPump_step unmarshal c r = Some c'" and "closedChan c'" and "\<not> connClosed c"
  shows "\<not> connClosed (fst (Client_Close c' res)) \<and> (\<not> closeOnce c \<longrightarrow> \<not> pumpCancelled c \<longrightarrow>
     \<not> pumpCancelled (fst (Client_Close c' res)) \<and> snd (Client_Close c' res) \<noteq> None)"
  using assms
  by (auto simp: readPump_step_def recordCloseErr_def Client_Close_def Let_def
      split: if_splits sum.splits Frame.splits)

lemma close_after_error_leaks_witness:
  "\<exists>c'. readPump_step (\<lambda>b. None) (Dial_client demo_opts []) ConnFail = Some c'
     \<and> \<not> connClosed (fst (Client_Close c' None))"
proof -
  obtain c' where c: "readPump_step (\<lambda>b. None) (Dial_client demo_opts []) ConnFail = Some c'" "closedChan c'"
    by (simp add: readPump_step_def Dial_client_def cl_readFrame_def recordCloseErr_def)
  from close_after_error_leaks [OF c, of None] c(1) show ?thesis by (auto simp: Dial_client_def)
qed

end
