(* ===== verification/Client_Open.thy ===== *)
theory Client_Open
  imports Host_Serve Signaling_Client Wire
begin

text \<open>
  \<^verbatim>\<open>mobile-core/peersh.go\<close>, opening a session: the device key, the direct dial, the negotiation of a
  Connect through the signaling server with its retries, the choice of the host's address, the
  pinned TLS handshake and the hello. Sockets, key generation, the STUN answer, the QUIC handshake
  and what the servers send are arguments; a session's sockets are tracked so that every exit can
  be asked which of them are still open.
\<close>

section \<open>Text of errors\<close>

fun Contains :: "string \<Rightarrow> string \<Rightarrow> bool" where
  "Contains [] p \<longleftrightarrow> p = []"
| "Contains (c # s) p \<longleftrightarrow> HasPrefix (c # s) p \<or> Contains s p"

lemma Contains_iff: "Contains s p \<longleftrightarrow> (\<exists>a b. s = a @ p @ b)"
proof (induction s)
  case (Cons c s)
  have "(\<exists>a b. c # s = a @ p @ b) \<longleftrightarrow> (\<exists>b. c # s = p @ b) \<or> (\<exists>a b. s = a @ p @ b)"
    by (metis append_Cons append_Nil neq_Nil_conv list.inject)
  moreover have "HasPrefix (c # s) p \<longleftrightarrow> (\<exists>b. c # s = p @ b)"
    by (auto simp: HasPrefix_def) (metis append_take_drop_id)
  ultimately show ?case using Cons by simp
qed simp

lemma Contains_separated:
  assumes "c \<notin> set p" "p \<noteq> []"
  shows "Contains (xs @ c # ys) p \<longleftrightarrow> Contains xs p \<or> Contains ys p"
proof (induction xs)
  case Nil
  have "\<not> HasPrefix (c # ys) p" using assms by (cases p) (auto simp: HasPrefix_def)
  then show ?case using assms(2) by simp
next
  case (Cons x xs)
  have "HasPrefix ((x # xs) @ c # ys) p \<longleftrightarrow> HasPrefix (x # xs) p"
  proof (cases "length p \<le> length (x # xs)")
    case False
    have "\<not> HasPrefix ((x # xs) @ c # ys) p"
    proof
      assume "HasPrefix ((x # xs) @ c # ys) p"
      then have "take (length p) ((x # xs) @ c # ys) = p" by (simp only: HasPrefix_def)
      moreover have "c \<in> set (take (length p) ((x # xs) @ c # ys))"
        using False assms(2) by (simp add: take_Cons')
      ultimately show False using assms(1) by metis
    qed
    moreover have "\<not> HasPrefix (x # xs) p" using False by (auto simp: HasPrefix_def dest: arg_cong [of _ _ length])
    ultimately show ?thesis by blast
  qed (cases p; simp add: HasPrefix_def)
  then show ?case using Cons by simp
qed

datatype neg_err = DialErr "cl_err option" | SendConnectErr | RecvReply cl_err | WrongPeer string string

text \<open>The etext of an error of the signaling client; \<open>lib\<close> is the etext of the library's error it
  wraps, or of the operands it formats.\<close>

fun cl_err_Error :: "(cl_err \<Rightarrow> string) \<Rightarrow> cl_err \<Rightarrow> string" where
  "cl_err_Error lib (PumpServerError code msg) = ''server error: '' @ code @ '': '' @ msg"
| "cl_err_Error lib (ErrRegisterRejected reason) = ''signaling: register rejected by server: '' @ reason"
| "cl_err_Error lib ErrClosed = ''signaling: client closed''"
| "cl_err_Error lib e = lib e"

fun neg_err_Error :: "(cl_err \<Rightarrow> string) \<Rightarrow> (neg_err \<Rightarrow> string) \<Rightarrow> neg_err \<Rightarrow> string" where
  "neg_err_Error lib lib' (DialErr (Some e)) = ''signaling.Dial: '' @ cl_err_Error lib e"
| "neg_err_Error lib lib' (DialErr None) = ''signaling.Dial: '' @ lib' (DialErr None)"
| "neg_err_Error lib lib' SendConnectErr = ''SendConnect: '' @ lib' SendConnectErr"
| "neg_err_Error lib lib' (RecvReply e) = ''recv reply: '' @ cl_err_Error lib e"
| "neg_err_Error lib lib' (WrongPeer got expected) = ''got Connect from '' @ lib' (WrongPeer got expected)"

definition isRetryableConnectError :: "string option \<Rightarrow> bool" where
  "isRetryableConnectError err = (case err of None \<Rightarrow> False | Some s \<Rightarrow> Contains s ''target_unknown'')"

section \<open>Negotiating a Connect\<close>

text \<open>What one attempt meets: whether the WebSocket could be dialled, the random bytes and the clock of
  the Register, the server's two answers, which writes succeed, what the pump reads before the
  receiver wakes up, whether the context is done then, and which ready case the runtime picks.\<close>

record attempt =
  at_dialed :: bool
  at_rnd :: "bytes option"
  at_now :: time
  at_hello :: conn_read
  at_ack :: conn_read
  at_write :: "Frame \<Rightarrow> bool"
  at_reads :: "conn_read list"
  at_ctxDone :: bool
  at_pick :: nat

text \<open>The rounds of the read pump; a round that cannot start leaves the client as it is.\<close>

fun pump_reads :: "(bytes \<Rightarrow> Frame option) \<Rightarrow> Client \<Rightarrow> conn_read list \<Rightarrow> Client" where
  "pump_reads unmarshal c [] = c"
| "pump_reads unmarshal c (r # rs) =
     (case readPump_step unmarshal c r of None \<Rightarrow> c | Some c' \<Rightarrow> pump_reads unmarshal c' rs)"

record mobile_opts =
  mo_userID :: string
  mo_secret :: bytes
  mo_firebaseIDToken :: string
  mo_appCheckToken :: string
  mo_deviceID :: string
  mo_pub :: bytes

definition dial_opts :: "mobile_opts \<Rightarrow> DialOptions" where
  "dial_opts mo =
     \<lparr>o_UserID = mo_userID mo, o_Secret = mo_secret mo, o_DeviceID = mo_deviceID mo, o_PublicKey = mo_pub mo,
      o_Kind = DEVICE_KIND_MOBILE_CLIENT, o_DisplayName = ''peersh-mobile'', o_ClientID = ''mobile-core/0.3'',
      o_FirebaseIDToken = mo_firebaseIDToken mo, o_FirebaseAppCheckToken = mo_appCheckToken mo\<rparr>"

record codec =
  co_hmac :: "bytes \<Rightarrow> bytes \<Rightarrow> bytes"
  co_marshal :: "RegisterMsg \<Rightarrow> bytes option"
  co_unmarshal :: "bytes \<Rightarrow> Frame option"

text \<open>One attempt with the frames it sends. The receiver waits until a case is ready; when nothing else
  comes, that is the end of the context.\<close>

definition negotiate_once ::
  "codec \<Rightarrow> DialOptions \<Rightarrow> string \<Rightarrow> EndpointCandidate list \<Rightarrow> attempt \<Rightarrow> Frame list \<times> (neg_err + ConnectMsg)" where
  "negotiate_once co opts target cands a =
     (if \<not> at_dialed a then ([], Inl (DialErr None))
      else
       (case cl_handshake (co_hmac co) (co_marshal co) (co_unmarshal co) (at_write a) (at_rnd a) (at_now a) opts
               (at_hello a) (at_ack a) of
          (sent, Inl e) \<Rightarrow> (sent, Inl (DialErr (Some e)))
        | (sent, Inr sid) \<Rightarrow>
            if \<not> at_write a (connect_frame target cands) then (sent, Inl SendConnectErr)
            else
              let sent' = sent @ [connect_frame target cands];
                  c = pump_reads (co_unmarshal co) (Dial_client opts sid) (at_reads a);
                  ready = map snd (Recv_ready (at_ctxDone a) c);
                  got = (if ready = [] then Inl cl_err.CtxDone else ready ! (at_pick a mod length ready))
              in (case got of
                    Inl e \<Rightarrow> (sent', Inl (RecvReply e))
                  | Inr reply \<Rightarrow>
                      if FromDeviceId reply \<noteq> target then (sent', Inl (WrongPeer (FromDeviceId reply) target))
                      else (sent', Inr reply))))"

definition negotiateConnect ::
  "codec \<Rightarrow> mobile_opts \<Rightarrow> string \<Rightarrow> EndpointCandidate list \<Rightarrow> attempt \<Rightarrow> Frame list \<times> (neg_err + ConnectMsg)" where
  "negotiateConnect co mo target cands a = negotiate_once co (dial_opts mo) target cands a"

datatype retry_err = Negotiate neg_err | RetryCtxDone

text \<open>The retry loop. \<open>negotiate i\<close> is the outcome of the attempt \<open>i\<close>, \<open>ctxDone i\<close> whether the context ends
  in the pause after it. The result is the pauses begun, in order, and Go's pair of a reply and an error.\<close>

function retry_loop ::
  "(nat \<Rightarrow> neg_err + ConnectMsg) \<Rightarrow> (neg_err \<Rightarrow> string) \<Rightarrow> (nat \<Rightarrow> bool) \<Rightarrow> nat \<Rightarrow> duration \<Rightarrow> retry_err option
     \<Rightarrow> duration list \<times> ConnectMsg option \<times> retry_err option" where
  "retry_loop negotiate etext ctxDone attempt backoff lastErr =
     (if attempt < 5 then
       (case negotiate attempt of
          Inr reply \<Rightarrow> ([], Some reply, None)
        | Inl e \<Rightarrow>
            if \<not> isRetryableConnectError (Some (etext e)) then ([], None, Some (Negotiate e))
            else if ctxDone attempt then ([backoff], None, Some RetryCtxDone)
            else
             (case retry_loop negotiate etext ctxDone (Suc attempt) (int64 (backoff * 2)) (Some (Negotiate e)) of
                (ws, r) \<Rightarrow> (backoff # ws, r)))
      else ([], None, lastErr))"
  by pat_completeness auto
termination by (relation "measure (\<lambda>(_, _, _, attempt, _, _). 5 - attempt)") auto

declare retry_loop.simps [simp del]

definition millisecond :: duration where
  "millisecond = 1000000"

definition negotiateConnectWithRetry ::
  "(nat \<Rightarrow> neg_err + ConnectMsg) \<Rightarrow> (neg_err \<Rightarrow> string) \<Rightarrow> (nat \<Rightarrow> bool)
     \<Rightarrow> duration list \<times> ConnectMsg option \<times> retry_err option" where
  "negotiateConnectWithRetry negotiate etext ctxDone = retry_loop negotiate etext ctxDone 0 (200 * millisecond) None"

section \<open>The retries end\<close>

fun doubling :: "nat \<Rightarrow> duration \<Rightarrow> duration list" where
  "doubling 0 b = []"
| "doubling (Suc n) b = b # doubling n (int64 (b * 2))"

definition retried :: "(nat \<Rightarrow> neg_err + ConnectMsg) \<Rightarrow> (neg_err \<Rightarrow> string) \<Rightarrow> nat \<Rightarrow> bool" where
  "retried negotiate etext i \<longleftrightarrow> (case negotiate i of Inr r \<Rightarrow> False | Inl e \<Rightarrow> isRetryableConnectError (Some (etext e)))"

lemma retry_loop_spec:
  "retry_loop negotiate etext ctxDone attempt b le = (ws, reply, err) \<Longrightarrow> attempt \<le> 5
    \<Longrightarrow> length ws \<le> 5 - attempt \<and> ws = take (length ws) (doubling (5 - attempt) b)
      \<and> (\<forall>i < length ws. retried negotiate etext (attempt + i))
      \<and> (case reply of
           Some r \<Rightarrow> err = None \<and> attempt + length ws < 5 \<and> negotiate (attempt + length ws) = Inr r
         | None \<Rightarrow>
             (case err of
                None \<Rightarrow> attempt = 5 \<and> le = None
              | Some RetryCtxDone \<Rightarrow> (attempt = 5 \<and> le = err) \<or> (ws \<noteq> [] \<and> ctxDone (attempt + length ws - 1))
              | Some (Negotiate e) \<Rightarrow>
                  if attempt + length ws < 5
                  then negotiate (attempt + length ws) = Inl e \<and> \<not> isRetryableConnectError (Some (etext e))
                  else if ws = [] then le = err
                  else negotiate 4 = Inl e))"
proof (induction negotiate etext ctxDone attempt b le arbitrary: ws rule: retry_loop.induct)
  case (1 negotiate etext ctxDone attempt b le)
  show ?case
  proof (cases "attempt < 5")
    case False
    then show ?thesis using "1.prems" by (subst (asm) retry_loop.simps) (auto split: option.splits retry_err.splits)
  next
    case lt: True
    then obtain n where n: "5 - attempt = Suc n" "5 - Suc attempt = n" by (cases "5 - attempt") auto
    show ?thesis
    proof (cases "negotiate attempt")
      case (Inr r)
      then show ?thesis using "1.prems" lt by (subst (asm) retry_loop.simps) auto
    next
      case (Inl e)
      show ?thesis
      proof (cases "isRetryableConnectError (Some (etext e)) \<and> \<not> ctxDone attempt")
        case False
        then show ?thesis using "1.prems" lt Inl n
          by (subst (asm) retry_loop.simps) (auto simp: retried_def split: if_splits)
      next
        case True
        then obtain ws' where ws: "ws = b # ws'"
          and rec: "retry_loop negotiate etext ctxDone (Suc attempt) (int64 (b * 2)) (Some (Negotiate e)) = (ws', reply, err)"
          using "1.prems" lt Inl by (subst (asm) retry_loop.simps) (auto split: prod.splits)
        have r: "retried negotiate etext attempt" using True Inl by (simp add: retried_def)
        have "\<forall>i < length ws. retried negotiate etext (attempt + i)"
          using "1.IH" [OF lt Inl _ _ rec] True lt r ws by (auto simp: nth_Cons less_Suc_eq_0_disj)
        moreover have "negotiate 4 = Inl e" if "n = 0"
        proof -
          have "attempt = 4" using that n lt by arith
          then show ?thesis using Inl by simp
        qed
        ultimately show ?thesis
          using "1.IH" [OF lt Inl _ _ rec] True lt Inl n ws
          by (auto split: option.splits retry_err.splits if_splits)
      qed
    qed
  qed
qed

lemma negotiation_spec:
  assumes "negotiateConnectWithRetry negotiate etext ctxDone = (ws, reply, err)"
  shows "length ws \<le> 5 \<and> ws = take (length ws) (map ((*) millisecond) [200, 400, 800, 1600, 3200])
    \<and> sum_list ws \<le> 6200 * millisecond
    \<and> (reply = None \<longleftrightarrow> err \<noteq> None)
    \<and> (\<forall>i < length ws. retried negotiate etext i)
    \<and> (\<forall>r. reply = Some r \<longrightarrow> length ws < 5 \<and> negotiate (length ws) = Inr r)
    \<and> (\<forall>e. err = Some (Negotiate e) \<longrightarrow> \<not> retried negotiate etext (length ws) \<and> negotiate (length ws) = Inl e
          \<or> length ws = 5 \<and> negotiate 4 = Inl e)
    \<and> (err = Some RetryCtxDone \<longrightarrow> ws \<noteq> [] \<and> ctxDone (length ws - 1))"
proof -
  let ?full = "map ((*) millisecond) [200, 400, 800, 1600, 3200]"
  have full: "doubling (5 - 0) (200 * millisecond) = ?full" by code_simp
  note spec = retry_loop_spec [OF assms [unfolded negotiateConnectWithRetry_def], simplified full]
  from spec have len: "length ws \<le> 5" and ws: "ws = take (length ws) ?full" by simp_all
  have "length ws \<in> {0, 1, 2, 3, 4, 5}" using len by (simp only: insert_iff empty_iff) arith
  then have "sum_list (take (length ws) ?full) \<le> 6200 * millisecond" by (auto simp: millisecond_def)
  then have "sum_list ws \<le> 6200 * millisecond" using ws by simp
  with spec len ws show ?thesis
    by (auto simp: retried_def split: option.splits retry_err.splits if_splits sum.splits)
qed

text \<open>C22: The negotiation ends after at most five attempts and 6.2 seconds of pauses of 200, 400, 800,
  1600 and 3200 milliseconds, with exactly one of a reply and an error. A reply is that of the first
  attempt that was not refused as retryable; an error is the first one that is not retryable, the
  end of the context in a pause, or that of the fifth attempt, after which the last and longest
  pause is spent although nothing follows it.\<close>

theorem negotiation_terminates:
  assumes "negotiateConnectWithRetry negotiate etext ctxDone = (ws, reply, err)"
  shows "length ws \<le> 5 \<and> ws = take (length ws) (map ((*) millisecond) [200, 400, 800, 1600, 3200])
    \<and> sum_list ws \<le> 6200 * millisecond
    \<and> (reply = None \<longleftrightarrow> err \<noteq> None)
    \<and> (\<forall>i < length ws. retried negotiate etext i)
    \<and> (\<forall>r. reply = Some r \<longrightarrow> length ws < 5 \<and> negotiate (length ws) = Inr r)
    \<and> (\<forall>e. err = Some (Negotiate e) \<longrightarrow> \<not> retried negotiate etext (length ws) \<and> negotiate (length ws) = Inl e
          \<or> length ws = 5 \<and> negotiate 4 = Inl e)
    \<and> (err = Some RetryCtxDone \<longrightarrow> ws \<noteq> [] \<and> ctxDone (length ws - 1))"
  using negotiation_spec [OF assms] by blast

lemma negotiation_terminates_witness:
  "let neg = (\<lambda>i. Inl (RecvReply (PumpServerError ''target_unknown'' []))) :: nat \<Rightarrow> neg_err + ConnectMsg;
       r = negotiateConnectWithRetry neg (neg_err_Error (\<lambda>_. []) (\<lambda>_. [])) (\<lambda>_. False)
   in sum_list (fst r) = 6200 * millisecond \<and> length (fst r) \<le> 5"
proof -
  let ?neg = "(\<lambda>i. Inl (RecvReply (PumpServerError ''target_unknown'' []))) :: nat \<Rightarrow> neg_err + ConnectMsg"
  have r: "negotiateConnectWithRetry ?neg (neg_err_Error (\<lambda>_. []) (\<lambda>_. [])) (\<lambda>_. False)
      = ([200 * millisecond, 400 * millisecond, 800 * millisecond, 1600 * millisecond, 3200 * millisecond], None,
         Some (Negotiate (RecvReply (PumpServerError ''target_unknown'' []))))" by code_simp
  show ?thesis using negotiation_terminates [OF r] r by (simp add: millisecond_def)
qed

section \<open>The hello\<close>

text \<open>A stream as the reader meets it: the bytes that arrive, and then the end of the stream (\<open>None\<close>)
  or the error of a connection that is lost. The readers return that error instead of an
  end-of-file.\<close>

datatype stream_err = WireErr wire_err | StreamLost string

definition at_end :: "wire_err \<Rightarrow> bool" where
  "at_end e \<longleftrightarrow> (case e of ErrReadLength i \<Rightarrow> i = EOF \<or> i = ErrUnexpectedEOF
     | ErrReadPayload i \<Rightarrow> i = EOF \<or> i = ErrUnexpectedEOF | _ \<Rightarrow> False)"

definition stream_Read :: "(bytes \<Rightarrow> 'm option) \<Rightarrow> string option \<Rightarrow> bytes \<Rightarrow> stream_err + ('m \<times> bytes)" where
  "stream_Read unmarshal fin r =
     (case wire_Read unmarshal r of
        Inr mr \<Rightarrow> Inr mr
      | Inl e \<Rightarrow> (case fin of Some t \<Rightarrow> if at_end e then Inl (StreamLost t) else Inl (WireErr e) | None \<Rightarrow> Inl (WireErr e)))"

record stream =
  st_open :: bool
  st_write :: "bytes \<Rightarrow> bytes \<Rightarrow> io_err option \<times> bytes"
  st_input :: bytes
  st_fin :: "string option"

record MobileHello = HostHello +
  mh_ClientId :: string

datatype hello_err = HelloStream | HelloWrite wire_err | HelloRead stream_err | HelloVersion u32

definition client_protocolVersion :: u32 where
  "client_protocolVersion = 2"

text \<open>The exchange on the control stream, with the bytes written.\<close>

definition client_hello ::
  "(MobileHello \<Rightarrow> bytes option) \<Rightarrow> (bytes \<Rightarrow> HostServerHello option) \<Rightarrow> stream \<Rightarrow> string \<Rightarrow> u32 \<Rightarrow> bytes \<times> hello_err option" where
  "client_hello marshal unmarshal st clientId idleTimeoutSec =
     (if \<not> st_open st then ([], Some HelloStream)
      else
       (case wire_Write marshal (st_write st) []
               \<lparr>hh_ProtocolVersion = client_protocolVersion, hh_SessionId = [], hh_IdleTimeoutSec = idleTimeoutSec,
                mh_ClientId = clientId\<rparr> of
          (Some e, w) \<Rightarrow> (w, Some (HelloWrite e))
        | (None, w) \<Rightarrow>
           (case stream_Read unmarshal (st_fin st) (st_input st) of
              Inl e \<Rightarrow> (w, Some (HelloRead e))
            | Inr (srv, _) \<Rightarrow>
                if ho_ProtocolVersion srv \<noteq> client_protocolVersion
                then (w, Some (HelloVersion (ho_ProtocolVersion srv)))
                else (w, None))))"

definition doHello ::
  "(MobileHello \<Rightarrow> bytes option) \<Rightarrow> (bytes \<Rightarrow> HostServerHello option) \<Rightarrow> stream \<Rightarrow> u32 \<Rightarrow> bytes \<times> hello_err option" where
  "doHello marshal unmarshal st idleTimeoutSec = client_hello marshal unmarshal st ''mobile-core'' idleTimeoutSec"

section \<open>Opening a session\<close>

datatype priv_err = GenerateKey | LoadKeyDir string key_err

definition loadOrGeneratePriv ::
  "key_codec \<Rightarrow> bool \<Rightarrow> bool \<Rightarrow> bytes option \<Rightarrow> (string, bytes) gomap \<Rightarrow> string
     \<Rightarrow> (string, bytes) gomap \<times> (priv_err + bytes)" where
  "loadOrGeneratePriv kc mkdir_ok open_ok generated files keyDir =
     (if keyDir = [] then (files, case generated of None \<Rightarrow> Inl GenerateKey | Some priv \<Rightarrow> Inr priv)
      else
       (case LoadOrGenerateKey kc mkdir_ok open_ok generated files keyDir of
          (files', Inl e) \<Rightarrow> (files', Inl (LoadKeyDir keyDir e))
        | (files', Inr priv) \<Rightarrow> (files', Inr priv)))"

text \<open>An \<^verbatim>\<open>int32\<close> is the word of its bits.\<close>

definition uint32Of :: "32 word \<Rightarrow> u32" where
  "uint32Of v = (if sint v < 0 then 0 else v)"

definition localCandidates ::
  "(bytes \<Rightarrow> string) \<Rightarrow> (bytes option list) option \<Rightarrow> udp_addr \<Rightarrow> udp_addr option \<Rightarrow> EndpointCandidate list" where
  "localCandidates ipString interfaceAddrs local srflx =
     (let port = of_nat (snd local);
          out = (case srflx of
                   None \<Rightarrow> []
                 | Some a \<Rightarrow> [\<lparr>Address = ipString (fst a), Port = of_nat (snd a), Type = CANDIDATE_TYPE_SERVER_REFLEXIVE\<rparr>]);
          host_cand = (\<lambda>ip. \<lparr>Address = ipString ip, Port = port, Type = CANDIDATE_TYPE_HOST\<rparr>)
      in if \<not> IsUnspecified (fst local) then out @ [host_cand (fst local)]
         else
          (case interfaceAddrs of
             None \<Rightarrow> out
           | Some addrs \<Rightarrow>
               out @ [host_cand ip. Some ip \<leftarrow> addrs,
                       \<not> (IsLoopback ip \<or> IsLinkLocalUnicast ip \<or> IsLinkLocalMulticast ip)]))"

datatype res = NotOpened | InUse | Released

record sockets =
  so_pc :: res
  so_tr :: res
  so_conn :: res

definition no_sockets :: sockets where
  "no_sockets = \<lparr>so_pc = NotOpened, so_tr = NotOpened, so_conn = NotOpened\<rparr>"

definition none_in_use :: "sockets \<Rightarrow> bool" where
  "none_in_use sk \<longleftrightarrow> so_pc sk \<noteq> InUse \<and> so_tr sk \<noteq> InUse \<and> so_conn sk \<noteq> InUse"

text \<open>A session: its peer's address and certificates, the lock \<^verbatim>\<open>mu\<close> and the last terminal ID.\<close>

record Session =
  se_addr :: udp_addr
  se_certs :: "bytes list"
  se_mu :: bool
  se_lastPTYID :: int

datatype dial_err = NoAnswer | TlsFailed tls_err

datatype open_err =
    DecodePSK | TargetRequired | ResolveAddr | ListenErr | KeyErr priv_err | ClientCertErr | DialFailed dial_err
  | HelloFailed hello_err | SignalingErr retry_err | NoCandidates | ErrTraversalFailed

text \<open>The environment. \<open>oe_answer a\<close> are the certificates with which whoever listens at \<open>a\<close> answers the
  QUIC handshake within the time, \<open>oe_hello a\<close> the control stream to it; \<open>oe_discover\<close> is what
  \<^const>\<open>Discover\<close> returns.\<close>

record open_env =
  oe_resolve :: "string \<Rightarrow> udp_addr option"
  oe_listen :: "udp_addr option"
  oe_keyCodec :: key_codec
  oe_mkdir :: bool
  oe_keyWritable :: bool
  oe_generated :: "bytes option"
  oe_public :: "bytes \<Rightarrow> bytes"
  oe_cert :: "bytes \<Rightarrow> bool"
  oe_sha256 :: "bytes \<Rightarrow> bytes"
  oe_parseCert :: "bytes \<Rightarrow> public_key option"
  oe_answer :: "udp_addr \<Rightarrow> bytes list option"
  oe_hello :: "udp_addr \<Rightarrow> stream"
  oe_marshalHello :: "MobileHello \<Rightarrow> bytes option"
  oe_unmarshalHello :: "bytes \<Rightarrow> HostServerHello option"
  oe_discover :: "string \<Rightarrow> discover_err + udp_addr"
  oe_ipString :: "bytes \<Rightarrow> string"
  oe_interfaceAddrs :: "bytes option list option"
  oe_parseIP :: "string \<Rightarrow> bytes option"
  oe_nonce :: "nat \<Rightarrow> bytes option"
  oe_punchDone :: "nat \<Rightarrow> bool"
  oe_codec :: codec
  oe_attempt :: "nat \<Rightarrow> attempt"
  oe_text :: "neg_err \<Rightarrow> string"
  oe_ctxDone :: "nat \<Rightarrow> bool"

text \<open>\<^verbatim>\<open>Transport.Dial\<close>: the TLS library lets the handshake succeed when the configuration's check accepts
  the certificates.\<close>

definition tr_Dial :: "tls_config \<Rightarrow> (udp_addr \<Rightarrow> bytes list option) \<Rightarrow> udp_addr \<Rightarrow> dial_err + bytes list" where
  "tr_Dial cfg answer a =
     (case answer a of
        None \<Rightarrow> Inl NoAnswer
      | Some certs \<Rightarrow> (case tc_Verify cfg certs of Some e \<Rightarrow> Inl (TlsFailed e) | None \<Rightarrow> Inr certs))"

fun dial_first :: "tls_config \<Rightarrow> (udp_addr \<Rightarrow> bytes list option) \<Rightarrow> udp_addr list \<Rightarrow> (udp_addr \<times> bytes list) option" where
  "dial_first cfg answer [] = None"
| "dial_first cfg answer (a # as) =
     (case tr_Dial cfg answer a of Inr certs \<Rightarrow> Some (a, certs) | Inl _ \<Rightarrow> dial_first cfg answer as)"

text \<open>The end that both ways of opening share: the hello, and what is closed when it fails.\<close>

definition hello_session :: "open_env \<Rightarrow> sockets \<Rightarrow> udp_addr \<Rightarrow> bytes list \<Rightarrow> u32 \<Rightarrow> sockets \<times> (open_err + Session)" where
  "hello_session env sk a certs idleTimeoutSec =
     (case snd (doHello (oe_marshalHello env) (oe_unmarshalHello env) (oe_hello env a) idleTimeoutSec) of
        Some e \<Rightarrow> (sk\<lparr>so_conn := Released, so_tr := Released, so_pc := Released\<rparr>, Inl (HelloFailed e))
      | None \<Rightarrow> (sk, Inr \<lparr>se_addr = a, se_certs = certs, se_mu = False, se_lastPTYID = 0\<rparr>))"

definition openDirectInternal ::
  "open_env \<Rightarrow> (string, bytes) gomap \<Rightarrow> string \<Rightarrow> string \<Rightarrow> u32
     \<Rightarrow> (string, bytes) gomap \<times> sockets \<times> (open_err + Session)" where
  "openDirectInternal env files addr keyDir idleTimeoutSec =
     (case oe_resolve env addr of
        None \<Rightarrow> (files, no_sockets, Inl ResolveAddr)
      | Some uaddr \<Rightarrow>
          if oe_listen env = None then (files, no_sockets, Inl ListenErr)
          else
            let sk = no_sockets\<lparr>so_pc := InUse\<rparr>
            in (case loadOrGeneratePriv (oe_keyCodec env) (oe_mkdir env) (oe_keyWritable env) (oe_generated env) files keyDir of
                  (files', Inl e) \<Rightarrow> (files', sk\<lparr>so_pc := Released\<rparr>, Inl (KeyErr e))
                | (files', Inr priv) \<Rightarrow>
                    if \<not> oe_cert env priv then (files', sk\<lparr>so_pc := Released\<rparr>, Inl ClientCertErr)
                    else
                      let sk1 = sk\<lparr>so_tr := InUse\<rparr>
                      in (case tr_Dial (ClientTLSConfig (oe_sha256 env) (oe_parseCert env) []) (oe_answer env) uaddr of
                            Inl e \<Rightarrow> (files', sk1\<lparr>so_tr := Released, so_pc := Released\<rparr>, Inl (DialFailed e))
                          | Inr certs \<Rightarrow>
                              (files', hello_session env (sk1\<lparr>so_conn := InUse\<rparr>) uaddr certs idleTimeoutSec))))"

definition OpenDirectSession :: "open_env \<Rightarrow> (string, bytes) gomap \<Rightarrow> string \<Rightarrow> (string, bytes) gomap \<times> sockets \<times> (open_err + Session)" where
  "OpenDirectSession env files addr = openDirectInternal env files addr [] 0"

definition OpenDirectSessionWithKey ::
  "open_env \<Rightarrow> (string, bytes) gomap \<Rightarrow> string \<Rightarrow> string \<Rightarrow> (string, bytes) gomap \<times> sockets \<times> (open_err + Session)" where
  "OpenDirectSessionWithKey env files addr keyDir = openDirectInternal env files addr keyDir 0"

text \<open>The signaling way, with the packets handed to the socket to punch the routers; first what follows
  the negotiation.\<close>

definition dial_candidates ::
  "open_env \<Rightarrow> sockets \<Rightarrow> tls_config \<Rightarrow> EndpointCandidate list \<Rightarrow> u32
     \<Rightarrow> sockets \<times> (bytes \<times> udp_addr) list \<times> (open_err + Session)" where
  "dial_candidates env sk cfg candidates idleTimeoutSec =
     (let released = sk\<lparr>so_tr := Released, so_pc := Released\<rparr>;
          peerAddrs = CandidatesToUDPAddrs (oe_parseIP env) (SortCandidates (oe_parseIP env) candidates)
      in if length peerAddrs = 0 then (released, [], Inl NoCandidates)
         else
           let punched = fst (Punch (oe_nonce env) (oe_punchDone env) peerAddrs
                 \<lparr>STUNServer = [], STUNTimeout = 0, PunchPackets = 0, PunchInterval = 0\<rparr>)
           in (case dial_first cfg (oe_answer env) peerAddrs of
                 None \<Rightarrow> (released, punched, Inl ErrTraversalFailed)
               | Some (a, certs) \<Rightarrow>
                   (case hello_session env (sk\<lparr>so_conn := InUse\<rparr>) a certs idleTimeoutSec of
                      (sk', r) \<Rightarrow> (sk', punched, r))))"

definition openSignalingInternal ::
  "open_env \<Rightarrow> (string, bytes) gomap \<Rightarrow> string \<Rightarrow> bytes \<Rightarrow> string \<Rightarrow> string \<Rightarrow> string \<Rightarrow> string \<Rightarrow> string \<Rightarrow> u32
     \<Rightarrow> (string, bytes) gomap \<times> sockets \<times> (bytes \<times> udp_addr) list \<times> (open_err + Session)" where
  "openSignalingInternal env files userID secret firebaseIDToken appCheckToken targetDeviceID stunServer keyDir idleTimeoutSec =
     (if targetDeviceID = [] then (files, no_sockets, [], Inl TargetRequired)
      else
       (case loadOrGeneratePriv (oe_keyCodec env) (oe_mkdir env) (oe_keyWritable env) (oe_generated env) files keyDir of
          (files', Inl e) \<Rightarrow> (files', no_sockets, [], Inl (KeyErr e))
        | (files', Inr priv) \<Rightarrow>
            let pub = oe_public env priv; deviceID = Derive (oe_sha256 env) pub
            in if \<not> oe_cert env priv then (files', no_sockets, [], Inl ClientCertErr)
               else
                (case oe_listen env of
                   None \<Rightarrow> (files', no_sockets, [], Inl ListenErr)
                 | Some local \<Rightarrow>
                     let srflx = (if stunServer = [] then None
                                  else (case oe_discover env stunServer of Inl _ \<Rightarrow> None | Inr a \<Rightarrow> Some a));
                         sk = no_sockets\<lparr>so_pc := InUse, so_tr := InUse\<rparr>;
                         cfg = ClientTLSConfig (oe_sha256 env) (oe_parseCert env) targetDeviceID;
                         cands = localCandidates (oe_ipString env) (oe_interfaceAddrs env) local srflx;
                         mo = \<lparr>mo_userID = userID, mo_secret = secret, mo_firebaseIDToken = firebaseIDToken,
                               mo_appCheckToken = appCheckToken, mo_deviceID = deviceID, mo_pub = pub\<rparr>
                     in (case negotiateConnectWithRetry
                             (\<lambda>i. snd (negotiateConnect (oe_codec env) mo targetDeviceID cands (oe_attempt env i)))
                             (oe_text env) (oe_ctxDone env) of
                           (_, _, Some e) \<Rightarrow> (files', sk\<lparr>so_tr := Released, so_pc := Released\<rparr>, [], Inl (SignalingErr e))
                         | (_, reply, None) \<Rightarrow>
                             (case dial_candidates env sk cfg (case reply of None \<Rightarrow> [] | Some r \<Rightarrow> Candidates r) idleTimeoutSec of
                                (sk', punched, r) \<Rightarrow> (files', sk', punched, r))))))"

definition OpenFirebaseSignalingSession where
  "OpenFirebaseSignalingSession env files firebaseIDToken appCheckToken targetDeviceID stunServer =
     openSignalingInternal env files [] [] firebaseIDToken appCheckToken targetDeviceID stunServer [] 0"

definition OpenFirebaseSignalingSessionWithKey where
  "OpenFirebaseSignalingSessionWithKey env files firebaseIDToken appCheckToken targetDeviceID stunServer keyDir =
     openSignalingInternal env files [] [] firebaseIDToken appCheckToken targetDeviceID stunServer keyDir 0"

definition OpenFirebaseSignalingSessionV2 where
  "OpenFirebaseSignalingSessionV2 env files firebaseIDToken appCheckToken targetDeviceID stunServer keyDir idleTimeoutSec =
     openSignalingInternal env files [] [] firebaseIDToken appCheckToken targetDeviceID stunServer keyDir (uint32Of idleTimeoutSec)"

definition OpenSignalingSession where
  "OpenSignalingSession env files userID pskHex targetDeviceID stunServer =
     (case hex_decode (TrimSpace pskHex) of
        None \<Rightarrow> (files, no_sockets, [], Inl DecodePSK)
      | Some secret \<Rightarrow> openSignalingInternal env files userID secret [] [] targetDeviceID stunServer [] 0)"

definition OpenSignalingSessionWithKey where
  "OpenSignalingSessionWithKey env files userID pskHex targetDeviceID stunServer keyDir =
     (case hex_decode (TrimSpace pskHex) of
        None \<Rightarrow> (files, no_sockets, [], Inl DecodePSK)
      | Some secret \<Rightarrow> openSignalingInternal env files userID secret [] [] targetDeviceID stunServer keyDir 0)"

definition OpenSignalingSessionV2 where
  "OpenSignalingSessionV2 env files userID pskHex targetDeviceID stunServer keyDir idleTimeoutSec =
     (case hex_decode (TrimSpace pskHex) of
        None \<Rightarrow> (files, no_sockets, [], Inl DecodePSK)
      | Some secret \<Rightarrow>
          openSignalingInternal env files userID secret [] [] targetDeviceID stunServer keyDir (uint32Of idleTimeoutSec))"

section \<open>Who the session talks to\<close>

lemma uint32Of_bound: "unat (uint32Of v) < 2 ^ 31"
proof (cases "sint v < 0")
  case False
  have "sint v < 2 ^ 31" using sint_lt [of v] by simp
  moreover have "uint v = sint v" using False calculation by (simp add: uint_sint take_bit_int_eq_self_iff)
  ultimately show ?thesis using False by (simp add: uint32Of_def unat_eq_nat_uint nat_less_iff)
qed (simp add: uint32Of_def)

lemma localCandidates_eq: "localCandidates = enumerateCandidates"
proof (intro ext)
  fix ips ifs and local :: udp_addr and srflx
  show "localCandidates ips ifs local srflx = enumerateCandidates ips ifs local srflx"
    by (auto simp: localCandidates_def enumerateCandidates_def Let_def split: option.splits prod.splits
        intro!: arg_cong [where f = concat] map_cong)
qed

lemma dial_first_Some:
  "dial_first cfg answer as = Some (a, certs) \<Longrightarrow> a \<in> set as \<and> tc_Verify cfg certs = None"
  by (induction as) (auto simp: tr_Dial_def split: sum.splits option.splits)

lemma negotiate_once_from:
  assumes "negotiate_once co opts target cands a = (sent, Inr reply)"
  shows "FromDeviceId reply = target"
  using assms by (auto simp: negotiate_once_def Let_def split: if_splits prod.splits sum.splits)

lemma hello_session_cases:
  "hello_session env sk a certs idle = (sk', Inr s) \<Longrightarrow> sk' = sk \<and> s = \<lparr>se_addr = a, se_certs = certs, se_mu = False, se_lastPTYID = 0\<rparr>
     \<and> snd (doHello (oe_marshalHello env) (oe_unmarshalHello env) (oe_hello env a) idle) = None"
  "hello_session env sk a certs idle = (sk', Inl e) \<Longrightarrow> none_in_use sk'"
  by (auto simp: hello_session_def none_in_use_def split: option.splits)

lemma pinned_leaf:
  assumes "expected \<noteq> []"
  shows "tc_Verify (ClientTLSConfig sha256 parse expected) certs = None
    \<longleftrightarrow> (\<exists>c cs pub. certs = c # cs \<and> parse c = Some (Ed25519 pub) \<and> Derive sha256 pub = expected)"
  using assms by (auto simp: ClientTLSConfig_def verifyEd25519Leaf_def Let_def
      split: list.splits option.splits public_key.splits if_splits)

lemma dial_candidates_Inr:
  assumes "dial_candidates env sk cfg candidates idle = (sk', punched, Inr s)"
  shows "tc_Verify cfg (se_certs s) = None \<and> sk' = sk\<lparr>so_conn := InUse\<rparr>
    \<and> se_addr s \<in> set (CandidatesToUDPAddrs (oe_parseIP env) (SortCandidates (oe_parseIP env) candidates))"
  using assms by (auto simp: dial_candidates_def Let_def dest!: dial_first_Some hello_session_cases(1)
      split: if_splits prod.splits option.splits)

lemma dial_candidates_Inl:
  assumes "dial_candidates env sk cfg candidates idle = (sk', punched, Inl e)" "so_conn sk = NotOpened"
  shows "none_in_use sk'"
  using assms by (auto simp: dial_candidates_def Let_def none_in_use_def [of "sk\<lparr>so_pc := x, so_tr := y\<rparr>" for x y]
      dest!: hello_session_cases(2) split: if_splits prod.splits option.splits)
    (simp_all add: none_in_use_def)

lemma openSignaling_Inr:
  assumes "openSignalingInternal env files userID secret idt act target stun keyDir idle = (files', sk, punched, Inr s)"
  shows "target \<noteq> [] \<and> (\<exists>mo cands ws r.
    negotiateConnectWithRetry (\<lambda>i. snd (negotiateConnect (oe_codec env) mo target cands (oe_attempt env i)))
      (oe_text env) (oe_ctxDone env) = (ws, Some r, None)
    \<and> dial_candidates env (no_sockets\<lparr>so_pc := InUse, so_tr := InUse\<rparr>)
        (ClientTLSConfig (oe_sha256 env) (oe_parseCert env) target) (Candidates r) idle = (sk, punched, Inr s))"
proof -
  obtain mo cands ws reply where t: "target \<noteq> []"
    and ret: "negotiateConnectWithRetry (\<lambda>i. snd (negotiateConnect (oe_codec env) mo target cands (oe_attempt env i)))
      (oe_text env) (oe_ctxDone env) = (ws, reply, None)"
    and dial: "dial_candidates env (no_sockets\<lparr>so_pc := InUse, so_tr := InUse\<rparr>)
        (ClientTLSConfig (oe_sha256 env) (oe_parseCert env) target)
        (case reply of None \<Rightarrow> [] | Some r \<Rightarrow> Candidates r) idle = (sk, punched, Inr s)"
    using assms by (auto simp: openSignalingInternal_def Let_def split: if_splits prod.splits sum.splits option.splits)
  obtain r where "reply = Some r" using negotiation_spec [OF ret] by (cases reply) auto
  with t ret dial show ?thesis by auto
qed

lemma openSignaling_Inl:
  assumes "openSignalingInternal env files userID secret idt act target stun keyDir idle = (files', sk, punched, Inl e)"
  shows "none_in_use sk"
  using assms
  by (auto simp: openSignalingInternal_def Let_def no_sockets_def dest!: dial_candidates_Inl
      split: if_splits prod.splits sum.splits option.splits) (simp_all add: none_in_use_def)

lemma openDirect_Inl:
  assumes "openDirectInternal env files addr keyDir idle = (files', sk, Inl e)"
  shows "none_in_use sk"
  using assms
  by (auto simp: openDirectInternal_def Let_def no_sockets_def dest!: hello_session_cases(2)
      split: if_splits prod.splits sum.splits option.splits) (simp_all add: none_in_use_def)

text \<open>C6: A session opened through the signaling server talks to the device that was asked for: the
  certificate of the TLS peer carries a key the device's name is derived from, and the address is a
  candidate of the answer that device gave. Without a device to ask for nothing is opened.\<close>

theorem signaling_session_authenticated:
  assumes "openSignalingInternal env files userID secret idt act target stun keyDir idle = (files', sk, punched, Inr s)"
  shows "target \<noteq> []
    \<and> (\<exists>c cs pub. se_certs s = c # cs \<and> oe_parseCert env c = Some (Ed25519 pub) \<and> Derive (oe_sha256 env) pub = target)
    \<and> (\<exists>mo cands i reply. snd (negotiateConnect (oe_codec env) mo target cands (oe_attempt env i)) = Inr reply
         \<and> FromDeviceId reply = target
         \<and> se_addr s \<in> set (CandidatesToUDPAddrs (oe_parseIP env) (SortCandidates (oe_parseIP env) (Candidates reply))))
    \<and> sk = \<lparr>so_pc = InUse, so_tr = InUse, so_conn = InUse\<rparr>"
proof -
  let ?cfg = "ClientTLSConfig (oe_sha256 env) (oe_parseCert env) target"
  from openSignaling_Inr [OF assms] obtain mo cands ws r
    where t: "target \<noteq> []"
      and ret: "negotiateConnectWithRetry
        (\<lambda>i. snd (negotiateConnect (oe_codec env) mo target cands (oe_attempt env i))) (oe_text env) (oe_ctxDone env) = (ws, Some r, None)"
      and dial: "dial_candidates env (no_sockets\<lparr>so_pc := InUse, so_tr := InUse\<rparr>) ?cfg (Candidates r) idle = (sk, punched, Inr s)"
    by blast
  have neg: "snd (negotiateConnect (oe_codec env) mo target cands (oe_attempt env (length ws))) = Inr r"
    using negotiation_spec [OF ret] by simp
  then have org: "FromDeviceId r = target" by (metis negotiateConnect_def negotiate_once_from prod.collapse)
  note d = dial_candidates_Inr [OF dial]
  then have "\<exists>c cs pub. se_certs s = c # cs \<and> oe_parseCert env c = Some (Ed25519 pub) \<and> Derive (oe_sha256 env) pub = target"
    using pinned_leaf [OF t] by blast
  with d t neg org show ?thesis by (auto simp: no_sockets_def)
qed

definition demo_digest :: "bytes \<Rightarrow> bytes" where
  "demo_digest k = replicate 32 0"

definition demo_target :: string where
  "demo_target = Derive demo_digest [7]"

definition demo_attempt :: attempt where
  "demo_attempt = \<lparr>at_dialed = True, at_rnd = None, at_now = 0, at_hello = ConnMsg True [1], at_ack = ConnMsg True [2],
     at_write = (\<lambda>f. True), at_reads = [ConnMsg True [3]], at_ctxDone = False, at_pick = 0\<rparr>"

definition demo_frames :: "bytes \<Rightarrow> Frame option" where
  "demo_frames b =
     (if b = [1] then Some (Frame_ServerHello \<lparr>sh_ProtocolVersion = 1, sh_ServerId = ''s''\<rparr>)
      else if b = [2] then Some (Frame_RegisterAck \<lparr>Accepted = True, Reason = [], ack_ServerId = ''s''\<rparr>)
      else Some (Frame_Connect \<lparr>TargetDeviceId = [], FromDeviceId = demo_target,
                   Candidates = [\<lparr>Address = ''1.2.3.4'', Port = 5, Type = CANDIDATE_TYPE_HOST\<rparr>]\<rparr>))"

definition demo_stream :: "bytes \<Rightarrow> stream" where
  "demo_stream input = \<lparr>st_open = True, st_write = buffer_write, st_input = input, st_fin = None\<rparr>"

definition demo_open_env :: open_env where
  "demo_open_env = \<lparr>oe_resolve = (\<lambda>a. Some ([1, 2, 3, 4], 5)), oe_listen = Some ([0, 0, 0, 0], 9), oe_keyCodec = demo_codec, oe_mkdir = True,
     oe_keyWritable = True, oe_generated = Some [1], oe_public = id, oe_cert = (\<lambda>k. True), oe_sha256 = demo_digest,
     oe_parseCert = (\<lambda>c. Some (Ed25519 c)), oe_answer = (\<lambda>a. Some [[7]]), oe_hello = (\<lambda>a. demo_stream [0]),
     oe_marshalHello = (\<lambda>h. Some []),
     oe_unmarshalHello = (\<lambda>b. Some \<lparr>ho_ProtocolVersion = 2, ho_Capabilities = [], ho_ServerId = [], ho_SessionId = [], ho_Reattached = False\<rparr>),
     oe_discover = (\<lambda>s. Inl ReadError), oe_ipString = (\<lambda>ip. []), oe_interfaceAddrs = None, oe_parseIP = (\<lambda>s. Some [1, 2, 3, 4]),
     oe_nonce = (\<lambda>i. Some []), oe_punchDone = (\<lambda>n. False),
     oe_codec = \<lparr>co_hmac = (\<lambda>k m. []), co_marshal = (\<lambda>m. None), co_unmarshal = demo_frames\<rparr>,
     oe_attempt = (\<lambda>i. demo_attempt), oe_text = (\<lambda>e. []), oe_ctxDone = (\<lambda>i. False)\<rparr>"

lemma demo_target_ne: "demo_target \<noteq> []"
  by code_simp

lemma demo_negotiation:
  assumes "mo_firebaseIDToken mo \<noteq> []"
  shows "snd (negotiateConnect (oe_codec demo_open_env) mo demo_target cands demo_attempt)
    = Inr \<lparr>TargetDeviceId = [], FromDeviceId = demo_target,
            Candidates = [\<lparr>Address = ''1.2.3.4'', Port = 5, Type = CANDIDATE_TYPE_HOST\<rparr>]\<rparr>"
  using assms
  by (simp add: negotiateConnect_def negotiate_once_def demo_open_env_def demo_attempt_def demo_frames_def cl_handshake_def cl_readFrame_def
      cl_ProtocolVersion_def build_register_def dial_opts_def Dial_client_def readPump_step_def incoming_cap_def
      Recv_ready_def Let_def)

lemma demo_hello: "snd (doHello (\<lambda>h. Some []) (\<lambda>b. Some \<lparr>ho_ProtocolVersion = 2, ho_Capabilities = [], ho_ServerId = [],
    ho_SessionId = [], ho_Reattached = False\<rparr>) (demo_stream [0]) idle) = None"
  by (simp add: doHello_def client_hello_def demo_stream_def wire_Write_def buffer_write_def stream_Read_def wire_Read_def ReadUvarint_def
      ReadUvarint_loop.simps [of 0] MaxVarintLen64_def ReadFull_def client_protocolVersion_def)

lemma demo_candidates:
  "snd (snd (dial_candidates demo_open_env sk (ClientTLSConfig demo_digest (\<lambda>c. Some (Ed25519 c)) demo_target)
      [\<lparr>Address = ''1.2.3.4'', Port = 5, Type = CANDIDATE_TYPE_HOST\<rparr>] idle))
    = Inr \<lparr>se_addr = ([1, 2, 3, 4], 5), se_certs = [[7]], se_mu = False, se_lastPTYID = 0\<rparr>"
  using demo_hello [of idle]
  by (simp add: dial_candidates_def demo_open_env_def SortCandidates_def CandidatesToUDPAddrs_def tr_Dial_def
      ClientTLSConfig_def verifyEd25519Leaf_def demo_target_def hello_session_def Let_def)

lemma demo_open:
  "\<exists>sk punched. openSignalingInternal demo_open_env [] [] [] ''token'' [] demo_target [] [] 0
     = ([], sk, punched, Inr \<lparr>se_addr = ([1, 2, 3, 4], 5), se_certs = [[7]], se_mu = False, se_lastPTYID = 0\<rparr>)"
proof -
  let ?cands = "[\<lparr>Address = ''1.2.3.4'', Port = 5, Type = CANDIDATE_TYPE_HOST\<rparr>]"
  have ret: "negotiateConnectWithRetry (\<lambda>i. snd (negotiateConnect (oe_codec demo_open_env) mo demo_target cands demo_attempt)) t d
      = ([], Some \<lparr>TargetDeviceId = [], FromDeviceId = demo_target, Candidates = ?cands\<rparr>, None)"
    if "mo_firebaseIDToken mo \<noteq> []" for mo cands t d
    using demo_negotiation [OF that, of cands] by (simp add: negotiateConnectWithRetry_def retry_loop.simps [of _ _ _ 0])
  have key: "loadOrGeneratePriv (oe_keyCodec demo_open_env) (oe_mkdir demo_open_env) (oe_keyWritable demo_open_env)
      (oe_generated demo_open_env) [] [] = ([], Inr [1])"
    by (simp add: loadOrGeneratePriv_def demo_open_env_def)
  have env: "oe_attempt demo_open_env = (\<lambda>i. demo_attempt)" "oe_cert demo_open_env [1]" "oe_sha256 demo_open_env = demo_digest"
    "oe_parseCert demo_open_env = (\<lambda>c. Some (Ed25519 c))" "oe_listen demo_open_env = Some ([0, 0, 0, 0], 9)"
    by (simp_all add: demo_open_env_def)
  obtain sk punched where "dial_candidates demo_open_env (no_sockets\<lparr>so_pc := InUse, so_tr := InUse\<rparr>)
      (ClientTLSConfig demo_digest (\<lambda>c. Some (Ed25519 c)) demo_target) ?cands 0
    = (sk, punched, Inr \<lparr>se_addr = ([1, 2, 3, 4], 5), se_certs = [[7]], se_mu = False, se_lastPTYID = 0\<rparr>)"
    using demo_candidates by (metis prod.collapse)
  then show ?thesis using demo_target_ne by (simp add: openSignalingInternal_def key env ret Let_def)
qed

lemma signaling_session_authenticated_witness: "Derive demo_digest [7] = demo_target \<and> demo_target \<noteq> []"
proof -
  obtain sk punched where "openSignalingInternal demo_open_env [] [] [] ''token'' [] demo_target [] [] 0
     = ([], sk, punched, Inr \<lparr>se_addr = ([1, 2, 3, 4], 5), se_certs = [[7]], se_mu = False, se_lastPTYID = 0\<rparr>)"
    using demo_open by blast
  from signaling_session_authenticated [OF this] show ?thesis by (simp add: demo_open_env_def)
qed

text \<open>When a session cannot be opened, whatever the step that failed, no socket, transport or
  connection opened on the way stays open.\<close>

theorem failed_open_releases_sockets:
  "(\<forall>files' sk e. openDirectInternal env files addr keyDir idle = (files', sk, Inl e) \<longrightarrow> none_in_use sk)
   \<and> (\<forall>files' sk punched e. openSignalingInternal env files userID secret idt act target stun keyDir idle = (files', sk, punched, Inl e)
        \<longrightarrow> none_in_use sk)"
  by (intro conjI allI impI) (erule openDirect_Inl openSignaling_Inl)+

lemma failed_open_releases_sockets_witness:
  "openDirectInternal (demo_open_env\<lparr>oe_hello := (\<lambda>a. demo_stream [])\<rparr>) [] ''h:1'' [] 0
     = ([], \<lparr>so_pc = Released, so_tr = Released, so_conn = Released\<rparr>, Inl (HelloFailed (HelloRead (WireErr (ErrReadLength EOF)))))
   \<and> none_in_use \<lparr>so_pc = Released, so_tr = Released, so_conn = Released\<rparr>"
proof -
  have "openDirectInternal (demo_open_env\<lparr>oe_hello := (\<lambda>a. demo_stream [])\<rparr>) [] ''h:1'' [] 0
     = ([], \<lparr>so_pc = Released, so_tr = Released, so_conn = Released\<rparr>, Inl (HelloFailed (HelloRead (WireErr (ErrReadLength EOF)))))"
    by code_simp
  with failed_open_releases_sockets show ?thesis by blast
qed

section \<open>The hello and the host's answer\<close>



end
