(* ===== verification/Client_Streams.thy ===== *)
theory Client_Streams
  imports Client_Open
begin

text \<open>
  \<^verbatim>\<open>mobile-core/peersh.go\<close>, the streams of a session: commands, terminals and file requests. A stream is
  the bytes that arrive on it (see \<^verbatim>\<open>stream\<close> in the theory of the opening); the callbacks of the
  platform are recorded in the order they are made. Protobuf and the texts of library errors are
  arguments.
\<close>

section \<open>Reading a stream of frames\<close>

lemma stream_Read_shorter: "stream_Read unmarshal fin r = Inr (m, r') \<Longrightarrow> length r' < length r"
proof -
  assume "stream_Read unmarshal fin r = Inr (m, r')"
  then obtain len r1 where v: "ReadUvarint r = Inr (len, r1)" and "length r' \<le> length r1"
    by (auto simp: stream_Read_def wire_Read_def ReadFull_def
        split: sum.splits prod.splits if_splits option.splits)
  moreover from v obtain h where "r = h @ r1" "h \<noteq> []"
    using ReadUvarint_loop_consumes [of 0 0 0 r len r1] by (auto simp: ReadUvarint_def)
  ultimately show ?thesis by (cases h) auto
qed

text \<open>The loops around \<^verbatim>\<open>wire.Read\<close>: \<open>step\<close> handles a message and says whether the loop returns, \<open>fail\<close>
  handles the error that ends it.\<close>

function read_loop ::
  "(bytes \<Rightarrow> 'm option) \<Rightarrow> string option \<Rightarrow> ('s \<Rightarrow> 'm \<Rightarrow> 's \<times> bool) \<Rightarrow> ('s \<Rightarrow> stream_err \<Rightarrow> 's) \<Rightarrow> 's \<Rightarrow> bytes \<Rightarrow> 's" where
  "read_loop unmarshal fin step fail s r =
     (case stream_Read unmarshal fin r of
        Inl e \<Rightarrow> fail s e
      | Inr (m, r') \<Rightarrow> (case step s m of (s', stop) \<Rightarrow> if stop then s' else read_loop unmarshal fin step fail s' r'))"
  by pat_completeness auto
termination by (relation "measure (\<lambda>(_, _, _, _, _, r). length r)") (auto dest: stream_Read_shorter)

declare read_loop.simps [simp del]

text \<open>The same loop over the messages themselves; \<open>rest\<close> continues after the last of them.\<close>

fun message_loop :: "('s \<Rightarrow> 'm \<Rightarrow> 's \<times> bool) \<Rightarrow> ('s \<Rightarrow> 's) \<Rightarrow> 's \<Rightarrow> 'm list \<Rightarrow> 's" where
  "message_loop step rest s [] = rest s"
| "message_loop step rest s (m # ms) = (case step s m of (s', stop) \<Rightarrow> if stop then s' else message_loop step rest s' ms)"

lemma read_loop_frames:
  assumes "\<And>m. m \<in> set ms \<Longrightarrow> sendable marshal m" and "\<And>m p. marshal m = Some p \<Longrightarrow> unmarshal p = Some m"
  shows "read_loop unmarshal fin step fail s (concat (map (frame_bytes \<circ> the \<circ> marshal) ms) @ r)
    = message_loop step (\<lambda>s'. read_loop unmarshal fin step fail s' r) s ms"
  using assms(1)
proof (induction ms arbitrary: s)
  case (Cons m ms)
  from Cons.prems [of m] obtain p where p: "marshal m = Some p" "length p \<le> MaxFrameSize" by (auto simp: sendable_def)
  then have "stream_Read unmarshal fin (frame_bytes p @ q) = Inr (m, q)" for q
    by (simp add: stream_Read_def wire_Read_frame assms(2))
  then show ?case using Cons p by (subst read_loop.simps) (auto simp: comp_def split: prod.splits)
qed simp

text \<open>What every step keeps and every way of ending gives holds of the whole loop.\<close>

lemma read_loop_invariant:
  assumes "I s" and "\<And>s m s'. I s \<Longrightarrow> step s m = (s', False) \<Longrightarrow> I s'"
    and "\<And>s m s'. I s \<Longrightarrow> step s m = (s', True) \<Longrightarrow> Q s'" and "\<And>s e. I s \<Longrightarrow> Q (fail s e)"
  shows "Q (read_loop unmarshal fin step fail s r)"
  using assms
proof (induction unmarshal fin step fail s r rule: read_loop.induct)
  case (1 unmarshal fin step fail s r)
  show ?case
  proof (cases "stream_Read unmarshal fin r")
    case (Inl e)
    then show ?thesis using "1.prems" by (subst read_loop.simps) simp
  next
    case (Inr mr)
    obtain m r' where mr: "mr = (m, r')" by fastforce
    obtain s' stop where st: "step s m = (s', stop)" by fastforce
    show ?thesis
    proof (cases stop)
      case True
      then show ?thesis using "1.prems"(1,3) Inr mr st by (subst read_loop.simps) simp
    next
      case False
      then have "I s'" using "1.prems"(1,2) st by simp
      from "1.IH" [OF Inr mr [symmetric] st [symmetric] False this "1.prems"(2-)] show ?thesis
        using Inr mr st False by (subst read_loop.simps) simp
    qed
  qed
qed

section \<open>Commands\<close>

datatype chunk = NoChunk | StdoutChunk bytes | StderrChunk bytes

record ExecResponse =
  xr_Chunk :: chunk
  xr_Done :: bool

definition GetStdout :: "ExecResponse \<Rightarrow> bytes" where
  "GetStdout r = (case xr_Chunk r of StdoutChunk d \<Rightarrow> d | _ \<Rightarrow> [])"

definition GetStderr :: "ExecResponse \<Rightarrow> bytes" where
  "GetStderr r = (case xr_Chunk r of StderrChunk d \<Rightarrow> d | _ \<Rightarrow> [])"

datatype callback = OnStdout bytes | OnStderr bytes | OnDone string

datatype client_err = OpenStreamErr | WriteReqErr wire_err | ReadRespErr stream_err

text \<open>\<^verbatim>\<open>errors.Is(err, io.EOF)\<close>: also an end of the stream between a frame's length and its payload.\<close>

definition is_EOF :: "stream_err \<Rightarrow> bool" where
  "is_EOF e \<longleftrightarrow> e = WireErr (ErrReadLength EOF) \<or> e = WireErr (ErrReadPayload EOF)"

type_synonym exec_state = "callback list \<times> client_err option"

definition exec_step :: "exec_state \<Rightarrow> ExecResponse \<Rightarrow> exec_state \<times> bool" where
  "exec_step s resp =
     (let cbs = fst s
                @ (if length (GetStdout resp) > 0 then [OnStdout (GetStdout resp)] else [])
                @ (if length (GetStderr resp) > 0 then [OnStderr (GetStderr resp)] else [])
      in if xr_Done resp then ((cbs @ [OnDone []], None), True) else ((cbs, None), False))"

definition exec_fail :: "(client_err \<Rightarrow> string) \<Rightarrow> exec_state \<Rightarrow> stream_err \<Rightarrow> exec_state" where
  "exec_fail etext s e =
     (if is_EOF e then (fst s @ [OnDone []], None)
      else (fst s @ [OnDone (etext (ReadRespErr e))], Some (ReadRespErr e)))"

text \<open>\<^verbatim>\<open>execLocked\<close>: the bytes written, the callbacks and the result.\<close>

definition execLocked ::
  "(StreamRequest \<Rightarrow> bytes option) \<Rightarrow> (bytes \<Rightarrow> ExecResponse option) \<Rightarrow> (client_err \<Rightarrow> string) \<Rightarrow> stream \<Rightarrow> string
     \<Rightarrow> bytes \<times> callback list \<times> client_err option" where
  "execLocked marshal unmarshal etext st cmd =
     (if \<not> st_open st then ([], [OnDone (etext OpenStreamErr)], Some OpenStreamErr)
      else
       (case wire_Write marshal (st_write st) [] (ReqExec cmd) of
          (Some e, w) \<Rightarrow> (w, [OnDone (etext (WriteReqErr e))], Some (WriteReqErr e))
        | (None, w) \<Rightarrow> (w, read_loop unmarshal (st_fin st) exec_step (exec_fail etext) ([], None) (st_input st))))"

text \<open>\<^verbatim>\<open>Exec\<close> holds the session's lock meanwhile: \<open>None\<close> when it has to wait for it.\<close>

definition Exec_lock :: "Session \<Rightarrow> Session option" where
  "Exec_lock s = (if se_mu s then None else Some (s\<lparr>se_mu := True\<rparr>))"

definition Exec_unlock :: "Session \<Rightarrow> Session" where
  "Exec_unlock s = s\<lparr>se_mu := False\<rparr>"

record collector =
  cl_stdout :: bytes
  cl_stderr :: bytes
  cl_errMsg :: string

definition newCollector :: collector where
  "newCollector = \<lparr>cl_stdout = [], cl_stderr = [], cl_errMsg = []\<rparr>"

fun collect :: "callback \<Rightarrow> collector \<Rightarrow> collector" where
  "collect (OnStdout d) c = c\<lparr>cl_stdout := cl_stdout c @ d\<rparr>"
| "collect (OnStderr d) c = c\<lparr>cl_stderr := cl_stderr c @ d\<rparr>"
| "collect (OnDone m) c = c\<lparr>cl_errMsg := m\<rparr>"

text \<open>What \<^verbatim>\<open>ReadFile\<close> and \<^verbatim>\<open>Echo\<close> make of a cmd's end.\<close>

definition collected :: "(client_err \<Rightarrow> string) \<Rightarrow> callback list \<times> client_err option \<Rightarrow> string" where
  "collected etext r =
     (case r of
        (_, Some e) \<Rightarrow> ''ERROR: '' @ etext e
      | (cbs, None) \<Rightarrow>
          let h = fold collect cbs newCollector
          in if cl_errMsg h \<noteq> [] then ''ERROR: '' @ cl_errMsg h else map char_of_byte (cl_stdout h))"

definition quote_literal :: "string \<Rightarrow> string" where
  "quote_literal path = concat (map (\<lambda>c. if c = CHR 0x27 then [CHR 0x27, CHR 0x27] else [c]) path)"

definition ReadFile_command :: "string \<Rightarrow> string" where
  "ReadFile_command path = ''Get-Content -Raw -Encoding UTF8 -LiteralPath '' @ [CHR 0x27] @ quote_literal path @ [CHR 0x27]"

definition client_ReadFile where
  "client_ReadFile marshal unmarshal etext st path =
     collected etext (snd (execLocked marshal unmarshal etext st (ReadFile_command path)))"

definition Echo ::
  "open_env \<Rightarrow> (StreamRequest \<Rightarrow> bytes option) \<Rightarrow> (bytes \<Rightarrow> ExecResponse option) \<Rightarrow> (client_err \<Rightarrow> string) \<Rightarrow> (open_err \<Rightarrow> string)
     \<Rightarrow> (udp_addr \<Rightarrow> stream) \<Rightarrow> string \<Rightarrow> string \<Rightarrow> string" where
  "Echo env marshal unmarshal etext otext st addr cmd =
     (case OpenDirectSession env [] addr of
        (_, _, Inl e) \<Rightarrow> ''ERROR: '' @ otext e
      | (_, _, Inr s) \<Rightarrow> collected etext (snd (execLocked marshal unmarshal etext (st (se_addr s)) cmd)))"

section \<open>A command from the host's process to the client\<close>

text \<open>The message of each frame the host writes.\<close>

fun exec_response :: "exec_frame \<Rightarrow> ExecResponse" where
  "exec_response (ExecStdout d) = \<lparr>xr_Chunk = StdoutChunk d, xr_Done = False\<rparr>"
| "exec_response (ExecStderr d) = \<lparr>xr_Chunk = StderrChunk d, xr_Done = False\<rparr>"
| "exec_response ExecDone = \<lparr>xr_Chunk = NoChunk, xr_Done = True\<rparr>"

fun chunk_frame :: "Chunk \<Rightarrow> exec_frame" where
  "chunk_frame k = (if ck_Stream k = Stderr then ExecStderr (ck_Data k) else ExecStdout (ck_Data k))"

fun chunk_callbacks :: "Chunk \<Rightarrow> callback list" where
  "chunk_callbacks k =
     (if ck_Data k = [] then [] else [if ck_Stream k = Stderr then OnStderr (ck_Data k) else OnStdout (ck_Data k)])"

lemma exec_loop_drain:
  assumes "exec_loop q h cs = (h', fs)" "ExecDone \<in> set fs"
  shows "\<exists>q' ks cs'. drain q h cs' = (q', h', ks, True) \<and> fs = map chunk_frame ks @ [ExecDone]"
  using assms
proof (induction cs arbitrary: q h fs)
  case (Cons cw cs)
  obtain c w where cw: "cw = (c, w)" by fastforce
  obtain q1 h1 r where R: "Recv q h c = (q1, h1, r)" by (metis prod_cases3)
  show ?case
  proof (cases r)
    case RecvEOF
    then have "drain q h [c] = (q1, h', [], True)" "fs = [ExecDone]" using Cons.prems cw R by (auto split: if_splits)
    then show ?thesis by (intro exI [of _ q1] exI [of _ "[]"] exI [of _ "[c]"]) simp
  next
    case RecvCtxErr
    then show ?thesis using Cons.prems cw R by simp
  next
    case NotReady
    then have "exec_loop q1 h1 cs = (h', fs)" using Cons.prems cw R by simp
    from Cons.IH [OF this Cons.prems(2)] obtain q' ks cs' where "drain q1 h1 cs' = (q', h', ks, True)"
      "fs = map chunk_frame ks @ [ExecDone]" by blast
    then show ?thesis using R NotReady by (intro exI [of _ q'] exI [of _ ks] exI [of _ "c # cs'"]) simp
  next
    case (RecvChunk k)
    then obtain fs' where f: "exec_loop q1 h1 cs = (h', fs')" "fs = chunk_frame k # fs'" "ExecDone \<in> set fs'"
      using Cons.prems cw R by (auto split: if_splits prod.splits)
    from Cons.IH [OF f(1,3)] obtain q' ks cs' where "drain q1 h1 cs' = (q', h', ks, True)"
      "fs' = map chunk_frame ks @ [ExecDone]" by blast
    then show ?thesis using R RecvChunk f by (intro exI [of _ q'] exI [of _ "k # ks"] exI [of _ "c # cs'"]) simp
  qed
qed simp

lemma message_loop_chunks:
  "message_loop exec_step rest (cbs, None) (map exec_response (map chunk_frame ks @ [ExecDone]))
    = (cbs @ concat (map chunk_callbacks ks) @ [OnDone []], None)"
proof (induction ks arbitrary: cbs)
  case Nil
  show ?case by (simp add: exec_step_def Let_def GetStdout_def GetStderr_def)
next
  case (Cons k ks)
  then show ?case by (simp add: exec_step_def Let_def GetStdout_def GetStderr_def)
qed

fun stdout_of :: "callback \<Rightarrow> bytes" where
  "stdout_of (OnStdout d) = d"
| "stdout_of _ = []"

fun stderr_of :: "callback \<Rightarrow> bytes" where
  "stderr_of (OnStderr d) = d"
| "stderr_of _ = []"

lemma chunk_callbacks_output:
  "concat (map stdout_of (concat (map chunk_callbacks ks))) = concat (from_stream Stdout ks)"
  "concat (map stderr_of (concat (map chunk_callbacks ks))) = concat (from_stream Stderr ks)"
proof -
  have "s \<noteq> Stderr \<longleftrightarrow> s = Stdout" for s by (cases s) auto
  then show "concat (map stdout_of (concat (map chunk_callbacks ks))) = concat (from_stream Stdout ks)"
    "concat (map stderr_of (concat (map chunk_callbacks ks))) = concat (from_stream Stderr ks)"
    by (induction ks) auto
qed

lemma chunk_callbacks_not_done: "OnDone m \<notin> set (concat (map chunk_callbacks ks))"
  by (auto split: if_splits)

text \<open>C14: A command from end to end: when the host's process prints the lines \<open>out\<close> and then the sentinel,
  and the host reaches the end of the command, the client's handler has received exactly the bytes
  of \<open>out\<close> on its standard output, in order, whatever the error pipe interleaves, then one clean
  completion, and nothing after it, for every encoding of the frames that decoding inverts.\<close>

theorem exec_reaches_client:
  assumes exec: "Exec h cmd (Some b) True = (h1, ExecOk q)"
    and printed: "stdoutCh (process h1) = out @ line # rest" "list_all (\<lambda>l. \<not> is_sentinel q l) out" "is_sentinel q line"
    and host: "serveExecStream (Some h) cmd (Some b) True process cs = (h', fs)" "ExecDone \<in> set fs"
    and codec: "\<And>m p. marshal m = Some p \<Longrightarrow> unmarshal p = Some m" "\<And>m. m \<in> set (map exec_response fs) \<Longrightarrow> sendable marshal m"
    and stream: "st_open st" "st_write st = buffer_write" "marshalReq (ReqExec cmd) = Some req"
      "st_input st = concat (map (frame_bytes \<circ> the \<circ> marshal) (map exec_response fs)) @ unread"
  shows "\<exists>w cbs. execLocked marshalReq unmarshal etext st cmd = (w, cbs @ [OnDone []], None)
    \<and> concat (map stdout_of cbs) = concat out \<and> (\<forall>m. OnDone m \<notin> set cbs)
    \<and> (\<exists>h2. h' = Some h2 \<and> concat (stderrCh (process h1)) = concat (map stderr_of cbs) @ concat (stderrCh h2))"
proof -
  obtain h2 where l: "exec_loop q (process h1) cs = (h2, fs)" "h' = Some h2"
    using host(1) exec by (auto simp: serveExecStream_def split: prod.splits)
  from exec_loop_drain [OF l(1) host(2)] obtain q' ks cs' where d: "drain q (process h1) cs' = (q', h2, ks, True)"
    and fs: "fs = map chunk_frame ks @ [ExecDone]" by blast
  have q: "\<not> o_closed q" "\<not> o_released q" using exec by (auto simp: Exec_def split: if_splits)
  note out = drain_stdout [OF d q printed]
  let ?cbs = "concat (map chunk_callbacks ks)"
  have "read_loop unmarshal (st_fin st) exec_step (exec_fail etext) ([], None) (st_input st) = (?cbs @ [OnDone []], None)"
    by (simp only: stream(4) read_loop_frames [OF codec(2) codec(1)] fs message_loop_chunks append_Nil)
  then have "execLocked marshalReq unmarshal etext st cmd = (frame_bytes req, ?cbs @ [OnDone []], None)"
    using stream by (simp add: execLocked_def wire_Write_buffer)
  moreover have "concat (stderrCh (process h1)) = concat (map stderr_of ?cbs) @ concat (stderrCh h2)"
    using out by (simp only: chunk_callbacks_output) simp
  ultimately show ?thesis using out chunk_callbacks_output chunk_callbacks_not_done l(2)
    by (intro exI [of _ "frame_bytes req"] exI [of _ ?cbs]) auto
qed

definition demo_responses :: "ExecResponse list" where
  "demo_responses = map exec_response [ExecStdout [65, 10], ExecDone]"

definition demo_marshal :: "ExecResponse \<Rightarrow> bytes option" where
  "demo_marshal r = (if r = demo_responses ! 0 then Some [1] else if r = demo_responses ! 1 then Some [2] else None)"

definition demo_unmarshal :: "bytes \<Rightarrow> ExecResponse option" where
  "demo_unmarshal b = Some (if b = [1] then demo_responses ! 0 else demo_responses ! 1)"

lemma exec_reaches_client_witness:
  "\<exists>w cbs. execLocked (\<lambda>r. Some [9]) demo_unmarshal (\<lambda>e. [])
      (demo_stream (concat (map (frame_bytes \<circ> the \<circ> demo_marshal) demo_responses))) ''ls'' = (w, cbs @ [OnDone []], None)
    \<and> concat (map stdout_of cbs) = [65, 10]"
proof -
  let ?p = "\<lambda>h. h\<lparr>stdoutCh := [[65, 10], demo_line]\<rparr>"
  let ?cs = "[(FromStdout, True), (FromStdout, True)]"
  let ?q = "\<lparr>o_sentinel = sentinel_of [1], o_closed = False, o_released = False\<rparr>"
  obtain h1 where e: "Exec demo_host ''ls'' (Some [1]) True = (h1, ExecOk ?q)" by (simp add: Exec_def demo_host_def Let_def)
  have ns: "\<not> is_sentinel ?q [65, 10]" by code_simp
  obtain h' where s: "serveExecStream (Some demo_host) ''ls'' (Some [1]) True ?p ?cs = (h', [ExecStdout [65, 10], ExecDone])"
    using e ns demo_sentinel by (simp add: serveExecStream_def Recv_def release_def Let_def)
  have codec: "demo_unmarshal p = Some m" if "demo_marshal m = Some p" for m p
    using that by (auto simp: demo_marshal_def demo_unmarshal_def split: if_splits)
  have sent: "sendable demo_marshal m" if "m \<in> set (map exec_response [ExecStdout [65, 10], ExecDone])" for m
    using that by (auto simp: sendable_def demo_marshal_def demo_responses_def MaxFrameSize_def)
  show ?thesis
    using exec_reaches_client [where st = "demo_stream (concat (map (frame_bytes \<circ> the \<circ> demo_marshal) demo_responses))"
        and marshal = demo_marshal and unmarshal = demo_unmarshal and marshalReq = "\<lambda>r. Some [9]" and req = "[9]" and unread = "[]" and etext = "\<lambda>e. []" and out = "[[65, 10]]" and rest = "[]",
        OF e _ _ demo_sentinel s _ codec sent] ns
    by (auto simp: demo_stream_def demo_responses_def)
qed



section \<open>Terminals\<close>

datatype PTYFrame =
    PfAck string bool string
  | PfData bytes
  | PfExit int string
  | PfInput bytes
  | PfResize u32 u32
  | PfConfig PTYNotificationConfig
  | PfNone

datatype pty_event = OnData bytes | OnExit int string

type_synonym pump_state = "string \<times> pty_event list"

definition pump_frame :: "pump_state \<Rightarrow> PTYFrame \<Rightarrow> pump_state \<times> bool" where
  "pump_frame s f =
     (case s of (hnd, evs) \<Rightarrow>
       (case f of
          PfAck h accepted reason \<Rightarrow>
            if \<not> accepted then ((h, evs @ [OnExit (- 1) (''reattach refused: '' @ reason)]), True) else ((h, evs), False)
        | PfData d \<Rightarrow> ((hnd, if length d > 0 then evs @ [OnData d] else evs), False)
        | PfExit code e \<Rightarrow> ((hnd, evs @ [OnExit code e]), True)
        | _ \<Rightarrow> ((hnd, evs), False)))"

definition pump_fail :: "(client_err \<Rightarrow> string) \<Rightarrow> pump_state \<Rightarrow> stream_err \<Rightarrow> pump_state" where
  "pump_fail etext s e = (fst s, snd s @ [OnExit (- 1) (etext (ReadRespErr e))])"

definition pump :: "(bytes \<Rightarrow> PTYFrame option) \<Rightarrow> (client_err \<Rightarrow> string) \<Rightarrow> stream \<Rightarrow> pump_state" where
  "pump unmarshal etext st = read_loop unmarshal (st_fin st) pump_frame (pump_fail etext) ([], []) (st_input st)"

record PTYSession =
  ps_id :: int
  ps_handle :: string
  ps_closed :: bool
  ps_out :: bytes

text \<open>\<^verbatim>\<open>nextPTYID\<close> needs the lock that \<^verbatim>\<open>Exec\<close> holds while a command runs: \<open>None\<close> when it has to wait.\<close>

definition nextPTYID :: "Session \<Rightarrow> (Session \<times> int) option" where
  "nextPTYID s =
     (if se_mu s then None
      else let i = int64 (se_lastPTYID s + 1) in Some (s\<lparr>se_lastPTYID := i\<rparr>, i))"

definition openPTYInternal ::
  "(StreamRequest \<Rightarrow> bytes option) \<Rightarrow> stream \<Rightarrow> Session \<Rightarrow> string \<Rightarrow> string \<Rightarrow> int \<Rightarrow> int
     \<Rightarrow> (Session \<times> bytes \<times> (client_err + PTYSession)) option" where
  "openPTYInternal marshal st s cmd reattachHandle cols0 rows0 =
     (let cols = (if cols0 \<le> 0 then 80 else cols0); rows = (if rows0 \<le> 0 then 24 else rows0)
      in map_option (\<lambda>(s', i).
           if \<not> st_open st then (s', [], Inl OpenStreamErr)
           else
            (case wire_Write marshal (st_write st) []
                    (ReqPTY \<lparr>pq_Cols = of_int cols, pq_Rows = of_int rows, pq_Command = cmd, pq_PtyId = i,
                             pq_ReattachHandle = reattachHandle\<rparr>) of
               (Some e, w) \<Rightarrow> (s', w, Inl (WriteReqErr e))
             | (None, w) \<Rightarrow> (s', w, Inr \<lparr>ps_id = i, ps_handle = [], ps_closed = False, ps_out = []\<rparr>))) (nextPTYID s))"

definition OpenPTY where
  "OpenPTY marshal st s cmd cols rows = openPTYInternal marshal st s cmd [] cols rows"

definition OpenPTYReattach where
  "OpenPTYReattach marshal st s reattachHandle cols rows =
     (if reattachHandle = [] then None else Some (openPTYInternal marshal st s [] reattachHandle cols rows))"

datatype send_err = PtyClosedErr | SendWriteErr wire_err

text \<open>\<^verbatim>\<open>Write\<close>, \<^verbatim>\<open>Resize\<close> and \<^verbatim>\<open>SendNotificationConfig\<close> write one frame on an open session.\<close>

definition pty_send ::
  "(PTYFrame \<Rightarrow> bytes option) \<Rightarrow> (bytes \<Rightarrow> bytes \<Rightarrow> io_err option \<times> bytes) \<Rightarrow> PTYSession \<Rightarrow> PTYFrame \<Rightarrow> PTYSession \<times> send_err option" where
  "pty_send marshal wr p f =
     (if ps_closed p then (p, Some PtyClosedErr)
      else
       (case wire_Write marshal wr (ps_out p) f of
          (Some e, w) \<Rightarrow> (p\<lparr>ps_out := w\<rparr>, Some (SendWriteErr e))
        | (None, w) \<Rightarrow> (p\<lparr>ps_out := w\<rparr>, None)))"

definition PTY_Write where
  "PTY_Write marshal wr p data = pty_send marshal wr p (PfInput data)"

definition PTY_Resize where
  "PTY_Resize marshal wr p cols rows = pty_send marshal wr p (PfResize (of_int cols) (of_int rows))"

definition buildNotificationConfigFrame :: "bool \<Rightarrow> int \<Rightarrow> int \<Rightarrow> string \<Rightarrow> string \<Rightarrow> PTYFrame" where
  "buildNotificationConfigFrame enabled thresholdSeconds idleSeconds tabLabel mobileDeviceID =
     PfConfig \<lparr>Enabled = enabled, ThresholdSeconds = of_int thresholdSeconds, IdleSeconds = of_int idleSeconds,
               MobileDeviceId = mobileDeviceID, TabLabel = tabLabel\<rparr>"

definition SendNotificationConfig where
  "SendNotificationConfig marshal wr p enabled thresholdSeconds idleSeconds tabLabel mobileDeviceID =
     pty_send marshal wr p (buildNotificationConfigFrame enabled thresholdSeconds idleSeconds tabLabel mobileDeviceID)"

text \<open>\<^verbatim>\<open>Close\<close> of a terminal: \<open>res\<close> is what closing the stream returns; it then waits for the pump.\<close>

definition PTY_Close :: "PTYSession \<Rightarrow> 'e option \<Rightarrow> PTYSession \<times> 'e option" where
  "PTY_Close p res = (if ps_closed p then (p, None) else (p\<lparr>ps_closed := True\<rparr>, res))"

lemma exec_blocks_new_terminals: "Exec_lock s = Some s' \<Longrightarrow> openPTYInternal marshal st s' cmd h cols rows = None"
  by (auto simp: Exec_lock_def openPTYInternal_def nextPTYID_def Let_def split: if_splits)

lemma message_loop_data:
  "message_loop pump_frame rest (h, evs) (map PfData ds @ fs)
    = message_loop pump_frame rest (h, evs @ map OnData (filter (\<lambda>d. d \<noteq> []) ds)) fs"
  by (induction ds arbitrary: evs) (simp_all add: pump_frame_def)

lemma pump_exits_once: "\<exists>ds code e. snd (pump unmarshal etext st) = map OnData ds @ [OnExit code e] \<and> [] \<notin> set ds"
proof -
  let ?I = "\<lambda>s :: pump_state. \<exists>ds. snd s = map OnData ds \<and> [] \<notin> set ds"
  let ?Q = "\<lambda>s :: pump_state. \<exists>ds code e. snd s = map OnData ds @ [OnExit code e] \<and> [] \<notin> set ds"
  have "?Q (pump unmarshal etext st)" unfolding pump_def
  proof (rule read_loop_invariant [where I = ?I])
    show "?I s'" if I: "?I s" and st: "pump_frame s m = (s', False)" for s m s'
    proof -
      from I obtain ds where ds: "snd s = map OnData ds" "[] \<notin> set ds" by blast
      have "snd s' = snd s \<or> (\<exists>d. d \<noteq> [] \<and> snd s' = snd s @ [OnData d])"
        using st by (auto simp: pump_frame_def split: prod.splits PTYFrame.splits if_splits)
      then show ?thesis
      proof
        assume "\<exists>d. d \<noteq> [] \<and> snd s' = snd s @ [OnData d]"
        then obtain d where "d \<noteq> []" "snd s' = snd s @ [OnData d]" by blast
        with ds show ?thesis by (intro exI [of _ "ds @ [d]"]) simp
      qed (use ds in auto)
    qed
    show "?Q s'" if I: "?I s" and st: "pump_frame s m = (s', True)" for s m s'
    proof -
      from st have "\<exists>code e. snd s' = snd s @ [OnExit code e]"
        by (auto simp: pump_frame_def split: prod.splits PTYFrame.splits if_splits)
      then show ?thesis using I by auto
    qed
  qed (auto simp: pump_fail_def)
  then show ?thesis .
qed

lemma pump_delivers:
  assumes "\<forall>m p. marshal m = Some p \<longrightarrow> unmarshal p = Some m"
    and "\<forall>m \<in> set (PfAck h True reason # map PfData ds @ [PfExit code e]). sendable marshal m"
    and "st_input st = concat (map (frame_bytes \<circ> the \<circ> marshal) (PfAck h True reason # map PfData ds @ [PfExit code e])) @ unread"
  shows "pump unmarshal etext st = (h, map OnData (filter (\<lambda>d. d \<noteq> []) ds) @ [OnExit code e])"
proof -
  let ?ms = "PfAck h True reason # map PfData ds @ [PfExit code e]"
  have "pump unmarshal etext st = message_loop pump_frame
      (\<lambda>s'. read_loop unmarshal (st_fin st) pump_frame (pump_fail etext) s' unread) ([], []) ?ms"
    unfolding pump_def assms(3) by (rule read_loop_frames) (use assms(1,2) in blast)+
  then show ?thesis
    by (simp add: message_loop_data pump_frame_def [of _ "PfAck h True reason"] pump_frame_def [of _ "PfExit code e"])
qed

text \<open>C32: The handler of a terminal gets chunks of output that are not empty and then exactly one exit,
  whatever arrives on the stream. When the host acknowledges the terminal, sends the output \<open>ds\<close> and
  ends it with an exit, the handler gets the handle, exactly that output in order, and that exit.\<close>

theorem terminal_reaches_client:
  "(\<exists>ds code e. snd (pump unmarshal etext st) = map OnData ds @ [OnExit code e] \<and> [] \<notin> set ds)
   \<and> ((\<forall>m p. marshal m = Some p \<longrightarrow> unmarshal p = Some m)
      \<and> (\<forall>m \<in> set (PfAck h True reason # map PfData ds @ [PfExit code e]). sendable marshal m)
      \<and> st_input st = concat (map (frame_bytes \<circ> the \<circ> marshal) (PfAck h True reason # map PfData ds @ [PfExit code e])) @ unread
      \<longrightarrow> pump unmarshal etext st = (h, map OnData (filter (\<lambda>d. d \<noteq> []) ds) @ [OnExit code e]))"
  using pump_exits_once pump_delivers by blast

lemma terminal_reaches_client_witness:
  "let m = (\<lambda>f. if f = PfData [65] then Some [1] else if f = PfAck ''h'' True [] then Some [2] else if f = PfExit 0 [] then Some [3] else None);
       u = (\<lambda>b. if b = [1] then Some (PfData [65]) else if b = [2] then Some (PfAck ''h'' True []) else Some (PfExit 0 []))
   in pump u (\<lambda>e. []) (demo_stream (concat (map (frame_bytes \<circ> the \<circ> m) [PfAck ''h'' True [], PfData [65], PfExit 0 []])))
      = (''h'', [OnData [65], OnExit 0 []])"
proof -
  let ?m = "\<lambda>f. if f = PfData [65] then Some [1] else if f = PfAck ''h'' True [] then Some [2] else if f = PfExit 0 [] then Some [3] else None"
  let ?u = "\<lambda>b :: bytes. if b = [1] then Some (PfData [65]) else if b = [2] then Some (PfAck ''h'' True []) else Some (PfExit 0 [])"
  let ?st = "demo_stream (concat (map (frame_bytes \<circ> the \<circ> ?m) [PfAck ''h'' True [], PfData [65], PfExit 0 []]))"
  have "(\<forall>m p. ?m m = Some p \<longrightarrow> ?u p = Some m)
      \<and> (\<forall>m \<in> set (PfAck ''h'' True [] # map PfData [[65]] @ [PfExit 0 []]). sendable ?m m)
      \<and> st_input ?st = concat (map (frame_bytes \<circ> the \<circ> ?m) (PfAck ''h'' True [] # map PfData [[65]] @ [PfExit 0 []])) @ []"
    by (simp add: sendable_def MaxFrameSize_def demo_stream_def)
  with terminal_reaches_client [of ?u "\<lambda>e. []" ?st ?m "''h''" "[]" "[[65]]" 0 "[]" "[]"] show ?thesis by simp
qed

section \<open>Files\<close>

text \<open>\<^verbatim>\<open>fileExchange\<close>: one request and one answer on a fresh stream.\<close>

definition fileExchange ::
  "(StreamRequest \<Rightarrow> bytes option) \<Rightarrow> (bytes \<Rightarrow> FilesResponse option) \<Rightarrow> stream \<Rightarrow> FilesRequest \<Rightarrow> client_err + FilesResponse" where
  "fileExchange marshal unmarshal st req =
     (if \<not> st_open st then Inl OpenStreamErr
      else
       (case wire_Write marshal (st_write st) [] (ReqFiles req) of
          (Some e, _) \<Rightarrow> Inl (WriteReqErr e)
        | (None, _) \<Rightarrow>
           (case stream_Read unmarshal (st_fin st) (st_input st) of
              Inl e \<Rightarrow> Inl (ReadRespErr e)
            | Inr (resp, _) \<Rightarrow> Inr resp)))"

definition resp_Error :: "(files_err \<Rightarrow> string) \<Rightarrow> FilesResponse \<Rightarrow> string" where
  "resp_Error ftext r = (case r of FilesError e \<Rightarrow> ftext e | _ \<Rightarrow> [])"

text \<open>The operations on the answer of the exchange. A getter for another kind of answer gives zero values.\<close>

definition GetCWD :: "(files_err \<Rightarrow> string) \<Rightarrow> client_err + FilesResponse \<Rightarrow> string" where
  "GetCWD ftext x =
     (case x of
        Inl _ \<Rightarrow> []
      | Inr r \<Rightarrow> if resp_Error ftext r \<noteq> [] then [] else (case r of GetSessionResp c \<Rightarrow> c | _ \<Rightarrow> []))"

definition ListSessionFiles :: "(files_err \<Rightarrow> string) \<Rightarrow> client_err + FilesResponse \<Rightarrow> FileEntry list" where
  "ListSessionFiles ftext x =
     (case x of
        Inl _ \<Rightarrow> []
      | Inr r \<Rightarrow> if resp_Error ftext r \<noteq> [] then [] else (case r of ListFilesResp _ es \<Rightarrow> es | _ \<Rightarrow> []))"

definition ListPTYs :: "(files_err \<Rightarrow> string) \<Rightarrow> client_err + FilesResponse \<Rightarrow> PTYHandle list" where
  "ListPTYs ftext x =
     (case x of
        Inl _ \<Rightarrow> []
      | Inr r \<Rightarrow> if resp_Error ftext r \<noteq> [] then [] else (case r of ListPTYsResp hs \<Rightarrow> hs | _ \<Rightarrow> []))"

definition KillPTY :: "(client_err \<Rightarrow> string) \<Rightarrow> (files_err \<Rightarrow> string) \<Rightarrow> client_err + FilesResponse \<Rightarrow> string" where
  "KillPTY etext ftext x =
     (case x of Inl e \<Rightarrow> etext e | Inr r \<Rightarrow> if resp_Error ftext r \<noteq> [] then resp_Error ftext r else [])"

record FileContent =
  fc_Content :: bytes
  fc_Encoding :: string
  fc_Size :: int
  fc_Truncated :: bool
  fc_Error :: string

definition file_failed :: "string \<Rightarrow> FileContent" where
  "file_failed e = \<lparr>fc_Content = [], fc_Encoding = [], fc_Size = 0, fc_Truncated = False, fc_Error = e\<rparr>"

definition ReadSessionFile :: "(client_err \<Rightarrow> string) \<Rightarrow> (files_err \<Rightarrow> string) \<Rightarrow> client_err + FilesResponse \<Rightarrow> FileContent" where
  "ReadSessionFile etext ftext x =
     (case x of
        Inl e \<Rightarrow> file_failed (etext e)
      | Inr r \<Rightarrow>
          if resp_Error ftext r \<noteq> [] then file_failed (resp_Error ftext r)
          else
           (case r of
              ReadFileResp c enc sz tr \<Rightarrow>
                \<lparr>fc_Content = c, fc_Encoding = enc, fc_Size = sz, fc_Truncated = tr, fc_Error = []\<rparr>
            | _ \<Rightarrow> file_failed []))"

text \<open>\<^verbatim>\<open>Get\<close> of \<^verbatim>\<open>FileEntryList\<close> and \<^verbatim>\<open>PTYHandleList\<close>.\<close>

definition list_Get :: "'a list \<Rightarrow> int \<Rightarrow> 'a option" where
  "list_Get l i = (if i < 0 \<or> i \<ge> int (length l) then None else Some (l ! nat i))"

lemma list_Get_in: "list_Get l i = Some x \<Longrightarrow> x \<in> set l"
  by (auto simp: list_Get_def split: if_splits)

text \<open>A file request from end to end: the client's result is the host's answer, its content, encoding, size
  and truncation or its error text, whenever that answer fits a frame.\<close>

theorem file_request_answered:
  assumes host: "serveFilesStream os mgr reg own req = (mgr', resp)"
    and codec: "marshal resp = Some p" "unmarshal p = Some resp" "length p \<le> MaxFrameSize" "\<forall>e. ftext e \<noteq> []"
    and stream: "st_open st" "st_write st = buffer_write" "marshalReq (ReqFiles req) = Some q" "st_input st = frame_bytes p @ unread"
  shows "case req of
      ReadFileReq i path mx \<Rightarrow>
        (case resp of
           ReadFileResp c enc sz tr \<Rightarrow>
             ReadSessionFile etext ftext (fileExchange marshalReq unmarshal st req)
               = \<lparr>fc_Content = c, fc_Encoding = enc, fc_Size = sz, fc_Truncated = tr, fc_Error = []\<rparr>
         | FilesError e \<Rightarrow> ReadSessionFile etext ftext (fileExchange marshalReq unmarshal st req) = file_failed (ftext e)
         | _ \<Rightarrow> False)
    | ListFilesReq i path \<Rightarrow>
        (case resp of
           ListFilesResp rel es \<Rightarrow> ListSessionFiles ftext (fileExchange marshalReq unmarshal st req) = es
         | FilesError e \<Rightarrow> ListSessionFiles ftext (fileExchange marshalReq unmarshal st req) = []
         | _ \<Rightarrow> False)
    | GetSessionReq i \<Rightarrow>
        GetCWD ftext (fileExchange marshalReq unmarshal st req)
          = (case reg_Get reg i of None \<Rightarrow> [] | Some s \<Rightarrow> cwd (heap mgr s))
    | ListPTYsReq \<Rightarrow>
        map ph_Handle (ListPTYs ftext (fileExchange marshalReq unmarshal st req)) = map lHandle (Manager_List mgr own)
    | KillPTYReq h \<Rightarrow> KillPTY etext ftext (fileExchange marshalReq unmarshal st req) = [] \<and> mgr' = Drop mgr own h
    | NoKind \<Rightarrow> True"
proof -
  have "fileExchange marshalReq unmarshal st req = Inr resp"
    using stream codec wire_Read_frame [OF codec(3), of unmarshal unread]
    by (simp add: fileExchange_def wire_Write_buffer stream_Read_def)
  then show ?thesis using host codec(4)
    by (auto simp: serveFilesStream_def handleReadFile_def handleListFiles_def handleGetSession_def handleListPTYs_def
        handleKillPTY_def resp_Error_def ReadSessionFile_def ListSessionFiles_def GetCWD_def ListPTYs_def KillPTY_def Let_def
        split: FilesRequest.splits option.splits if_splits sum.splits prod.splits)
qed

lemma file_request_answered_witness:
  "ReadSessionFile (\<lambda>e. []) (\<lambda>e. ''no such pty'')
      (fileExchange (\<lambda>r. Some [9]) (\<lambda>b. Some (FilesError PtyNotFound)) (demo_stream (frame_bytes [1])) (ReadFileReq 1 ''a'' 0))
    = file_failed ''no such pty''"
proof -
  have "serveFilesStream (demo_fs 0) demo_shell [] [] (ReadFileReq 1 ''a'' 0) = (demo_shell, FilesError PtyNotFound)"
    by (simp add: serveFilesStream_def handleReadFile_def reg_Get_def)
  from file_request_answered [OF this, where marshal = "\<lambda>r. Some [1]" and p = "[1]" and unmarshal = "\<lambda>b. Some (FilesError PtyNotFound)"
      and ftext = "\<lambda>e. ''no such pty''" and etext = "\<lambda>e. []" and st = "demo_stream (frame_bytes [1])"
      and marshalReq = "\<lambda>r. Some [9]" and q = "[9]" and unread = "[]"]
  show ?thesis by (simp add: demo_stream_def MaxFrameSize_def)
qed

section \<open>The end of a session\<close>

text \<open>\<^verbatim>\<open>Close\<close>: connection, transport and socket, in this order; \<open>res\<close> is what closing the socket returns.\<close>

definition client_Session_Close :: "sockets \<Rightarrow> 'e option \<Rightarrow> sockets \<times> 'e option" where
  "client_Session_Close sk res =
     (let release = (\<lambda>x. if x = InUse then Released else x)
      in (\<lparr>so_pc = release (so_pc sk), so_tr = release (so_tr sk), so_conn = release (so_conn sk)\<rparr>,
          if so_pc sk = NotOpened then None else res))"

lemma Session_Close_releases: "none_in_use (fst (client_Session_Close sk res))"
  by (simp add: client_Session_Close_def none_in_use_def Let_def)

end
