(* ===== verification/Config.thy ===== *)
theory Config
  imports Complex_Main Peersh_Prelude
begin

text \<open>
  \<^verbatim>\<open>server/config\<close>: the configuration of the signaling server, from defaults, a TOML file and
  the environment. The environment is a function in which an unset variable is empty, as
  \<^verbatim>\<open>os.Getenv\<close> reports it; the TOML decoder, \<^verbatim>\<open>time.ParseDuration\<close> and \<^verbatim>\<open>strconv.ParseFloat\<close>
  are arguments. Rates are rational numbers; the not-a-number a float can hold is left out.
\<close>

record TLSConfig =
  CertFile :: string
  KeyFile :: string

definition Insecure :: "TLSConfig \<Rightarrow> bool" where
  "Insecure t \<longleftrightarrow> CertFile t = [] \<and> KeyFile t = []"

record ClockConfig =
  Skew :: duration
  NonceWindow :: duration

record RateLimitConfig =
  IPPerMinute :: rat
  IPBurst :: rat
  UserPerMinute :: rat
  UserBurst :: rat
  DevicePerMinute :: rat
  DeviceBurst :: rat

record DiscoveryConfig =
  WSURL :: string
  STUNServers :: "string list"

record FirebaseConfig =
  ProjectID :: string
  CredentialsPath :: string
  AppCheckRequired :: bool

record BootstrapPSK =
  b_UserID :: string
  b_SecretHex :: string
  b_Label :: string

record Config =
  ListenAddr :: string
  DBPath :: string
  cfg_ServerID :: string
  LogLevel :: string
  cfg_AuthProvider :: string
  StoreBackend :: string
  TLS :: TLSConfig
  Clock :: ClockConfig
  RateLimit :: RateLimitConfig
  Discovery :: DiscoveryConfig
  Firebase :: FirebaseConfig
  cfg_IdleTimeout :: duration
  BootstrapPSKs :: "BootstrapPSK list"
  MetricsToken :: string

definition Defaults :: Config where
  "Defaults =
     \<lparr>ListenAddr = '':8443'', DBPath = ''peersh-signaling.db'', cfg_ServerID = ''peersh-signaling/0.1'',
      LogLevel = ''info'', cfg_AuthProvider = ''psk'', StoreBackend = ''sqlite'',
      TLS = \<lparr>CertFile = [], KeyFile = []\<rparr>,
      Clock = \<lparr>Skew = 60 * second, NonceWindow = 5 * minute\<rparr>,
      RateLimit = \<lparr>IPPerMinute = 10, IPBurst = 3, UserPerMinute = 10, UserBurst = 3,
                   DevicePerMinute = 30, DeviceBurst = 5\<rparr>,
      Discovery = \<lparr>WSURL = [], STUNServers = []\<rparr>,
      Firebase = \<lparr>ProjectID = [], CredentialsPath = [], AppCheckRequired = False\<rparr>,
      cfg_IdleTimeout = 0, BootstrapPSKs = [], MetricsToken = []\<rparr>"

definition splitCSV :: "string \<Rightarrow> string list" where
  "splitCSV s = filter (\<lambda>p. p \<noteq> []) (map TrimSpace (split_on CHR '','' s))"

text \<open>\<^verbatim>\<open>strings.SplitN\<close> at one character, with a positive limit on the number of parts.\<close>

fun SplitN :: "'a \<Rightarrow> nat \<Rightarrow> 'a list \<Rightarrow> 'a list list" where
  "SplitN sep (Suc (Suc n)) s =
     (if sep \<in> set s
      then takeWhile (\<lambda>c. c \<noteq> sep) s # SplitN sep (Suc n) (tl (dropWhile (\<lambda>c. c \<noteq> sep) s))
      else [s])"
| "SplitN sep _ s = [s]"

definition parse_entry :: "string \<Rightarrow> BootstrapPSK list" where
  "parse_entry e =
     (let parts = SplitN CHR '':'' 3 e
      in if length parts < 2 then []
         else
           let bp = \<lparr>b_UserID = TrimSpace (parts ! 0), b_SecretHex = TrimSpace (parts ! 1),
                     b_Label = (if length parts = 3 then TrimSpace (parts ! 2) else [])\<rparr>
           in if b_UserID bp = [] \<or> b_SecretHex bp = [] then [] else [bp])"

definition parseBootstrapPSKs :: "string \<Rightarrow> BootstrapPSK list" where
  "parseBootstrapPSKs s = concat (map parse_entry (splitCSV s))"

section \<open>The environment\<close>

record parsers =
  ParseDuration :: "string \<Rightarrow> duration option"
  ParseFloat :: "string \<Rightarrow> rat option"

definition env_set :: "(string \<Rightarrow> string) \<Rightarrow> string \<Rightarrow> (string \<Rightarrow> Config \<Rightarrow> Config) \<Rightarrow> Config \<Rightarrow> Config" where
  "env_set env name f cfg = (if env name \<noteq> [] then f (env name) cfg else cfg)"

definition parsed :: "('a \<Rightarrow> Config \<Rightarrow> Config) \<Rightarrow> 'a option \<Rightarrow> Config \<Rightarrow> Config" where
  "parsed f v cfg = (case v of None \<Rightarrow> cfg | Some x \<Rightarrow> f x cfg)"

definition applyEnv :: "parsers \<Rightarrow> (string \<Rightarrow> string) \<Rightarrow> Config \<Rightarrow> Config" where
  "applyEnv lib env cfg0 =
     (let c1 = (if env ''PEERSH_SIGNALING_LISTEN'' \<noteq> [] then cfg0\<lparr>ListenAddr := env ''PEERSH_SIGNALING_LISTEN''\<rparr>
                else if env ''PORT'' \<noteq> [] then cfg0\<lparr>ListenAddr := CHR '':'' # env ''PORT''\<rparr> else cfg0);
          c2 = env_set env ''PEERSH_SIGNALING_DB'' (\<lambda>v c. c\<lparr>DBPath := v\<rparr>) c1;
          c3 = env_set env ''PEERSH_SIGNALING_TLS_CERT'' (\<lambda>v c. c\<lparr>TLS := (TLS c)\<lparr>CertFile := v\<rparr>\<rparr>) c2;
          c4 = env_set env ''PEERSH_SIGNALING_TLS_KEY'' (\<lambda>v c. c\<lparr>TLS := (TLS c)\<lparr>KeyFile := v\<rparr>\<rparr>) c3;
          c5 = env_set env ''PEERSH_SIGNALING_DISCOVERY_WS_URL'' (\<lambda>v c. c\<lparr>Discovery := (Discovery c)\<lparr>WSURL := v\<rparr>\<rparr>) c4;
          c6 = env_set env ''PEERSH_SIGNALING_DISCOVERY_STUN_SERVERS''
                 (\<lambda>v c. c\<lparr>Discovery := (Discovery c)\<lparr>STUNServers := splitCSV v\<rparr>\<rparr>) c5;
          c7 = env_set env ''PEERSH_SIGNALING_AUTH_PROVIDER'' (\<lambda>v c. c\<lparr>cfg_AuthProvider := v\<rparr>) c6;
          c8 = env_set env ''PEERSH_SIGNALING_STORE_BACKEND'' (\<lambda>v c. c\<lparr>StoreBackend := v\<rparr>) c7;
          c9 = env_set env ''PEERSH_SIGNALING_FIREBASE_PROJECT_ID'' (\<lambda>v c. c\<lparr>Firebase := (Firebase c)\<lparr>ProjectID := v\<rparr>\<rparr>) c8;
          c10 = env_set env ''PEERSH_SIGNALING_FIREBASE_CREDENTIALS''
                  (\<lambda>v c. c\<lparr>Firebase := (Firebase c)\<lparr>CredentialsPath := v\<rparr>\<rparr>) c9;
          c11 = env_set env ''PEERSH_SIGNALING_FIREBASE_APP_CHECK_REQUIRED''
                  (\<lambda>v c. c\<lparr>Firebase := (Firebase c)\<lparr>AppCheckRequired := (v = ''1'' \<or> v = ''true'' \<or> v = ''TRUE'')\<rparr>\<rparr>) c10;
          c12 = env_set env ''PEERSH_SIGNALING_BOOTSTRAP_PSK''
                  (\<lambda>v c. c\<lparr>BootstrapPSKs := BootstrapPSKs c @ parseBootstrapPSKs v\<rparr>) c11;
          c13 = env_set env ''PEERSH_SIGNALING_METRICS_TOKEN'' (\<lambda>v c. c\<lparr>MetricsToken := v\<rparr>) c12;
          c14 = env_set env ''PEERSH_SIGNALING_IDLE_TIMEOUT''
                  (\<lambda>v. parsed (\<lambda>d c. c\<lparr>cfg_IdleTimeout := d\<rparr>) (ParseDuration lib v)) c13;
          c15 = env_set env ''PEERSH_SIGNALING_LOG_LEVEL'' (\<lambda>v c. c\<lparr>LogLevel := v\<rparr>) c14;
          c16 = env_set env ''PEERSH_SIGNALING_SERVER_ID'' (\<lambda>v c. c\<lparr>cfg_ServerID := v\<rparr>) c15;
          c17 = env_set env ''PEERSH_SIGNALING_CLOCK_SKEW''
                  (\<lambda>v. parsed (\<lambda>d c. c\<lparr>Clock := (Clock c)\<lparr>Skew := d\<rparr>\<rparr>) (ParseDuration lib v)) c16;
          c18 = env_set env ''PEERSH_SIGNALING_NONCE_WINDOW''
                  (\<lambda>v. parsed (\<lambda>d c. c\<lparr>Clock := (Clock c)\<lparr>NonceWindow := d\<rparr>\<rparr>) (ParseDuration lib v)) c17
      in env_set env ''PEERSH_SIGNALING_IP_PER_MINUTE''
           (\<lambda>v. parsed (\<lambda>f c. c\<lparr>RateLimit := (RateLimit c)\<lparr>IPPerMinute := f\<rparr>\<rparr>) (ParseFloat lib v)) c18)"

section \<open>Validation and loading\<close>

datatype config_err =
    ListenEmpty | BadAuthProvider string | BadStoreBackend string | DBPathEmpty | FirestoreNoProject
  | FirebaseNoProject | TLSHalfSet | SkewNotPositive | NonceWindowNotPositive
  | ReadError string | DecodeError string | UnknownKeys "string list"

definition validate :: "Config \<Rightarrow> config_err option" where
  "validate c =
     (if ListenAddr c = [] then Some ListenEmpty
      else if cfg_AuthProvider c \<notin> {''psk'', ''firebase''} then Some (BadAuthProvider (cfg_AuthProvider c))
      else if StoreBackend c \<notin> {''sqlite'', ''firestore''} then Some (BadStoreBackend (StoreBackend c))
      else if StoreBackend c = ''sqlite'' \<and> DBPath c = [] then Some DBPathEmpty
      else if StoreBackend c = ''firestore'' \<and> ProjectID (Firebase c) = [] then Some FirestoreNoProject
      else if cfg_AuthProvider c = ''firebase'' \<and> ProjectID (Firebase c) = [] then Some FirebaseNoProject
      else if (CertFile (TLS c) = []) \<noteq> (KeyFile (TLS c) = []) then Some TLSHalfSet
      else if Skew (Clock c) \<le> 0 then Some SkewNotPositive
      else if NonceWindow (Clock c) \<le> 0 then Some NonceWindowNotPositive
      else None)"

text \<open>\<open>decode\<close> is the TOML decoder: an error, or the configuration with the fields of the file
  set and the keys it did not recognise.\<close>

definition Load ::
  "(string \<Rightarrow> string + string) \<Rightarrow> (string \<Rightarrow> Config \<Rightarrow> string + (Config \<times> string list)) \<Rightarrow> parsers
     \<Rightarrow> (string \<Rightarrow> string) \<Rightarrow> string \<Rightarrow> config_err + Config" where
  "Load readFile decode lib env path =
     (let finish = (\<lambda>cfg. let cfg' = applyEnv lib env cfg
                           in (case validate cfg' of Some e \<Rightarrow> Inl e | None \<Rightarrow> Inr cfg'))
      in if path \<noteq> [] then
           (case readFile path of
              Inl e \<Rightarrow> Inl (ReadError e)
            | Inr d \<Rightarrow>
               (case decode d Defaults of
                  Inl e \<Rightarrow> Inl (DecodeError e)
                | Inr (cfg, unknown) \<Rightarrow> if unknown \<noteq> [] then Inl (UnknownKeys unknown) else finish cfg))
         else finish Defaults)"

datatype slog_level = LevelDebug | LevelInfo | LevelWarn | LevelError

text \<open>\<^verbatim>\<open>strings.ToLower\<close> as far as comparisons with ASCII words can tell: the ASCII capitals, and
  the two other letters whose lower case is ASCII.\<close>

fun ToLower :: "string \<Rightarrow> string" where
  "ToLower [] = []"
| "ToLower (c # cs) =
     (if c = CHR 0xC4 \<and> HasPrefix cs [CHR 0xB0] then CHR ''i'' # ToLower (drop 1 cs)
      else if c = CHR 0xE2 \<and> HasPrefix cs [CHR 0x84, CHR 0xAA] then CHR ''k'' # ToLower (drop 2 cs)
      else (if 65 \<le> (of_char c :: nat) \<and> (of_char c :: nat) \<le> 90 then char_of ((of_char c :: nat) + 32) else c) # ToLower cs)"

definition SlogLevel :: "Config \<Rightarrow> slog_level" where
  "SlogLevel c =
     (let l = ToLower (LogLevel c)
      in if l = ''debug'' then LevelDebug
         else if l = ''warn'' \<or> l = ''warning'' then LevelWarn
         else if l = ''error'' then LevelError
         else LevelInfo)"

definition PerSecond :: "rat \<Rightarrow> rat" where
  "PerSecond perMinute = perMinute / 60"


section \<open>What a loaded configuration satisfies\<close>

definition first_set :: "string \<Rightarrow> string \<Rightarrow> string" where
  "first_set v d = (if v = [] then d else v)"

definition first_parsed :: "'a option \<Rightarrow> 'a \<Rightarrow> 'a" where
  "first_parsed v d = (case v of None \<Rightarrow> d | Some x \<Rightarrow> x)"

text \<open>A field is changed only by the step of its own variable.\<close>

lemma env_set_other: "(\<And>v c. F (f v c) = F c) \<Longrightarrow> F (env_set env n f c) = F c"
  by (simp add: env_set_def)

lemma parsed_other: "(\<And>v c. F (f v c) = F c) \<Longrightarrow> F (parsed f x c) = F c"
  by (simp add: parsed_def split: option.split)

lemmas env_keep =
  env_set_other [where F = "ListenAddr"]
  env_set_other [where F = "DBPath"]
  env_set_other [where F = "\<lambda>c. CertFile (TLS c)"]
  env_set_other [where F = "\<lambda>c. KeyFile (TLS c)"]
  env_set_other [where F = "cfg_AuthProvider"]
  env_set_other [where F = "StoreBackend"]
  env_set_other [where F = "\<lambda>c. ProjectID (Firebase c)"]
  env_set_other [where F = "MetricsToken"]
  env_set_other [where F = "\<lambda>c. Skew (Clock c)"]
  env_set_other [where F = "\<lambda>c. NonceWindow (Clock c)"]
  env_set_other [where F = "BootstrapPSKs"]

lemmas parsed_keep =
  parsed_other [where F = "ListenAddr"]
  parsed_other [where F = "DBPath"]
  parsed_other [where F = "\<lambda>c. CertFile (TLS c)"]
  parsed_other [where F = "\<lambda>c. KeyFile (TLS c)"]
  parsed_other [where F = "cfg_AuthProvider"]
  parsed_other [where F = "StoreBackend"]
  parsed_other [where F = "\<lambda>c. ProjectID (Firebase c)"]
  parsed_other [where F = "MetricsToken"]
  parsed_other [where F = "\<lambda>c. Skew (Clock c)"]
  parsed_other [where F = "\<lambda>c. NonceWindow (Clock c)"]
  parsed_other [where F = "BootstrapPSKs"]

lemma env_change:
  "DBPath (env_set env n (\<lambda>v c. c\<lparr>DBPath := v\<rparr>) c) = first_set (env n) (DBPath c)"
  "CertFile (TLS (env_set env n (\<lambda>v c. c\<lparr>TLS := (TLS c)\<lparr>CertFile := v\<rparr>\<rparr>) c)) = first_set (env n) (CertFile (TLS c))"
  "KeyFile (TLS (env_set env n (\<lambda>v c. c\<lparr>TLS := (TLS c)\<lparr>KeyFile := v\<rparr>\<rparr>) c)) = first_set (env n) (KeyFile (TLS c))"
  "cfg_AuthProvider (env_set env n (\<lambda>v c. c\<lparr>cfg_AuthProvider := v\<rparr>) c) = first_set (env n) (cfg_AuthProvider c)"
  "StoreBackend (env_set env n (\<lambda>v c. c\<lparr>StoreBackend := v\<rparr>) c) = first_set (env n) (StoreBackend c)"
  "ProjectID (Firebase (env_set env n (\<lambda>v c. c\<lparr>Firebase := (Firebase c)\<lparr>ProjectID := v\<rparr>\<rparr>) c))
     = first_set (env n) (ProjectID (Firebase c))"
  "MetricsToken (env_set env n (\<lambda>v c. c\<lparr>MetricsToken := v\<rparr>) c) = first_set (env n) (MetricsToken c)"
  "Skew (Clock (env_set env n (\<lambda>v. parsed (\<lambda>d c. c\<lparr>Clock := (Clock c)\<lparr>Skew := d\<rparr>\<rparr>) (h v)) c))
     = (if env n = [] then Skew (Clock c) else first_parsed (h (env n)) (Skew (Clock c)))"
  "NonceWindow (Clock (env_set env n (\<lambda>v. parsed (\<lambda>d c. c\<lparr>Clock := (Clock c)\<lparr>NonceWindow := d\<rparr>\<rparr>) (h v)) c))
     = (if env n = [] then NonceWindow (Clock c) else first_parsed (h (env n)) (NonceWindow (Clock c)))"
  "BootstrapPSKs (env_set env n (\<lambda>v c. c\<lparr>BootstrapPSKs := BootstrapPSKs c @ g v\<rparr>) c)
     = BootstrapPSKs c @ (if env n = [] then [] else g (env n))"
  by (simp_all add: env_set_def first_set_def first_parsed_def parsed_def split: option.split)

lemmas env_simps = env_keep parsed_keep env_change

lemma applyEnv_fields:
  "ListenAddr (applyEnv lib env b) = first_set (env ''PEERSH_SIGNALING_LISTEN'')
     (if env ''PORT'' = [] then ListenAddr b else CHR '':'' # env ''PORT'')"
  "DBPath (applyEnv lib env b) = first_set (env ''PEERSH_SIGNALING_DB'') (DBPath b)"
  "CertFile (TLS (applyEnv lib env b)) = first_set (env ''PEERSH_SIGNALING_TLS_CERT'') (CertFile (TLS b))"
  "KeyFile (TLS (applyEnv lib env b)) = first_set (env ''PEERSH_SIGNALING_TLS_KEY'') (KeyFile (TLS b))"
  "cfg_AuthProvider (applyEnv lib env b) = first_set (env ''PEERSH_SIGNALING_AUTH_PROVIDER'') (cfg_AuthProvider b)"
  "StoreBackend (applyEnv lib env b) = first_set (env ''PEERSH_SIGNALING_STORE_BACKEND'') (StoreBackend b)"
  "ProjectID (Firebase (applyEnv lib env b)) = first_set (env ''PEERSH_SIGNALING_FIREBASE_PROJECT_ID'') (ProjectID (Firebase b))"
  "MetricsToken (applyEnv lib env b) = first_set (env ''PEERSH_SIGNALING_METRICS_TOKEN'') (MetricsToken b)"
  unfolding applyEnv_def Let_def by (simp_all add: env_simps) (simp_all add: first_set_def)

lemma applyEnv_clock:
  "Skew (Clock (applyEnv lib env b)) =
     (if env ''PEERSH_SIGNALING_CLOCK_SKEW'' = [] then Skew (Clock b)
      else first_parsed (ParseDuration lib (env ''PEERSH_SIGNALING_CLOCK_SKEW'')) (Skew (Clock b)))"
  "NonceWindow (Clock (applyEnv lib env b)) =
     (if env ''PEERSH_SIGNALING_NONCE_WINDOW'' = [] then NonceWindow (Clock b)
      else first_parsed (ParseDuration lib (env ''PEERSH_SIGNALING_NONCE_WINDOW'')) (NonceWindow (Clock b)))"
  "BootstrapPSKs (applyEnv lib env b) = BootstrapPSKs b @
     (if env ''PEERSH_SIGNALING_BOOTSTRAP_PSK'' = [] then [] else parseBootstrapPSKs (env ''PEERSH_SIGNALING_BOOTSTRAP_PSK''))"
  unfolding applyEnv_def Let_def by (simp_all add: env_simps)

definition base_config ::
  "(string \<Rightarrow> string + string) \<Rightarrow> (string \<Rightarrow> Config \<Rightarrow> string + (Config \<times> string list)) \<Rightarrow> string \<Rightarrow> Config \<Rightarrow> bool" where
  "base_config readFile decode path b \<longleftrightarrow>
     (if path = [] then b = Defaults else \<exists>d. readFile path = Inr d \<and> decode d Defaults = Inr (b, []))"

lemma Load_Inr:
  "Load readFile decode lib env path = Inr c \<Longrightarrow>
     \<exists>b. base_config readFile decode path b \<and> c = applyEnv lib env b \<and> validate c = None"
  by (auto simp: Load_def Let_def base_config_def split: if_splits sum.splits option.splits prod.splits)

text \<open>A configuration that loads comes from the defaults, overridden by the file, overridden by
  the environment, and can be served: it has an address, known back ends with what they need, a
  complete pair of certificate files or none, and positive clock settings. A duration or an entry
  of the environment that does not parse leaves the value it would override.\<close>

theorem load_precedence:
  assumes "Load readFile decode lib env path = Inr c"
  shows "\<exists>b. base_config readFile decode path b
    \<and> ListenAddr c = first_set (env ''PEERSH_SIGNALING_LISTEN'')
        (if env ''PORT'' = [] then ListenAddr b else CHR '':'' # env ''PORT'')
    \<and> DBPath c = first_set (env ''PEERSH_SIGNALING_DB'') (DBPath b)
    \<and> cfg_AuthProvider c = first_set (env ''PEERSH_SIGNALING_AUTH_PROVIDER'') (cfg_AuthProvider b)
    \<and> StoreBackend c = first_set (env ''PEERSH_SIGNALING_STORE_BACKEND'') (StoreBackend b)
    \<and> MetricsToken c = first_set (env ''PEERSH_SIGNALING_METRICS_TOKEN'') (MetricsToken b)
    \<and> Skew (Clock c) = (if env ''PEERSH_SIGNALING_CLOCK_SKEW'' = [] then Skew (Clock b)
        else first_parsed (ParseDuration lib (env ''PEERSH_SIGNALING_CLOCK_SKEW'')) (Skew (Clock b)))
    \<and> ListenAddr c \<noteq> [] \<and> cfg_AuthProvider c \<in> {''psk'', ''firebase''} \<and> StoreBackend c \<in> {''sqlite'', ''firestore''}
    \<and> \<not> (StoreBackend c = ''sqlite'' \<and> DBPath c = [])
    \<and> \<not> (''fire'' \<in> {take 4 (StoreBackend c), take 4 (cfg_AuthProvider c)} \<and> ProjectID (Firebase c) = [])
    \<and> (Insecure (TLS c) \<or> CertFile (TLS c) \<noteq> [] \<and> KeyFile (TLS c) \<noteq> [])
    \<and> 0 < Skew (Clock c) \<and> 0 < NonceWindow (Clock c)"
proof -
  obtain b where b: "base_config readFile decode path b" and c: "c = applyEnv lib env b" and v: "validate c = None"
    using Load_Inr [OF assms] by blast
  have "ListenAddr c \<noteq> []" "cfg_AuthProvider c \<in> {''psk'', ''firebase''}" "StoreBackend c \<in> {''sqlite'', ''firestore''}"
    "\<not> (StoreBackend c = ''sqlite'' \<and> DBPath c = [])"
    "\<not> (''fire'' \<in> {take 4 (StoreBackend c), take 4 (cfg_AuthProvider c)} \<and> ProjectID (Firebase c) = [])"
    "Insecure (TLS c) \<or> CertFile (TLS c) \<noteq> [] \<and> KeyFile (TLS c) \<noteq> []"
    "0 < Skew (Clock c)" "0 < NonceWindow (Clock c)"
    using v by (auto simp: validate_def Insecure_def split: if_splits)
  then show ?thesis using b unfolding c
    by (intro exI [of _ b]) (simp add: applyEnv_fields applyEnv_clock)
qed

definition demo_env :: "string \<Rightarrow> string" where
  "demo_env v = (if v = ''PORT'' then ''8080'' else [])"

definition no_parsers :: parsers where
  "no_parsers = \<lparr>ParseDuration = (\<lambda>s. None), ParseFloat = (\<lambda>s. None)\<rparr>"

theorem load_precedence_witness:
  "\<exists>b c. base_config (\<lambda>p. Inl []) (\<lambda>d c. Inl []) [] b \<and> Load (\<lambda>p. Inl []) (\<lambda>d c. Inl []) no_parsers demo_env [] = Inr c
     \<and> ListenAddr c = '':8080''"
proof -
  let ?c = "applyEnv no_parsers demo_env Defaults"
  have "validate ?c = None"
    by (simp add: validate_def applyEnv_fields applyEnv_clock first_set_def demo_env_def Defaults_def second_def minute_def)
  then have "Load (\<lambda>p. Inl []) (\<lambda>d c. Inl []) no_parsers demo_env [] = Inr ?c" by (simp add: Load_def Let_def)
  from this load_precedence [OF this] show ?thesis by (force simp: first_set_def demo_env_def)
qed


section \<open>Bootstrap keys\<close>

lemma splitCSV_append: "splitCSV (a @ CHR '','' # b) = splitCSV a @ splitCSV b"
  by (simp add: splitCSV_def split_on_append2)

definition word_ok :: "string \<Rightarrow> bool" where
  "word_ok w \<longleftrightarrow> w \<noteq> [] \<and> list_all (\<lambda>c. visible c \<and> c \<noteq> CHR '','') w"

definition bp_ok :: "BootstrapPSK \<Rightarrow> bool" where
  "bp_ok b \<longleftrightarrow> word_ok (b_UserID b) \<and> word_ok (b_SecretHex b) \<and> CHR '':'' \<notin> set (b_UserID b) \<and> CHR '':'' \<notin> set (b_SecretHex b)
     \<and> (b_Label b = [] \<or> word_ok (b_Label b))"

definition show_bp :: "BootstrapPSK \<Rightarrow> string" where
  "show_bp b = b_UserID b @ CHR '':'' # b_SecretHex b @ (if b_Label b = [] then [] else CHR '':'' # b_Label b)"

fun show_bps :: "BootstrapPSK list \<Rightarrow> string" where
  "show_bps [] = []"
| "show_bps [b] = show_bp b"
| "show_bps (b # bs) = show_bp b @ CHR '','' # show_bps bs"

lemma TrimSpace_word: "word_ok w \<Longrightarrow> TrimSpace w = w"
  by (rule TrimSpace_visible) (auto simp: word_ok_def list_all_iff)

lemma show_bp_word: "bp_ok b \<Longrightarrow> word_ok (show_bp b)"
  by (auto simp: bp_ok_def word_ok_def show_bp_def visible_def)

lemma SplitN_cut: "s \<notin> set a \<Longrightarrow> SplitN s (Suc (Suc n)) (a @ s # b) = a # SplitN s (Suc n) b"
proof -
  assume "s \<notin> set a"
  then have "takeWhile (\<lambda>c. c \<noteq> s) (a @ s # b) = a" "dropWhile (\<lambda>c. c \<noteq> s) (a @ s # b) = s # b"
    by (induction a) auto
  then show ?thesis by simp
qed

lemma SplitN_whole: "s \<notin> set a \<Longrightarrow> SplitN s n a = [a]"
  by (cases "(s, n, a)" rule: SplitN.cases) auto

lemma parse_entry_show: "bp_ok b \<Longrightarrow> parse_entry (show_bp b) = [b]"
proof -
  assume b: "bp_ok b"
  have "SplitN CHR '':'' 3 (show_bp b) =
      [b_UserID b, b_SecretHex b] @ (if b_Label b = [] then [] else [b_Label b])"
    using b SplitN_cut [of "CHR '':''" "b_UserID b" 1] SplitN_cut [of "CHR '':''" "b_SecretHex b" 0 "b_Label b"]
      SplitN_whole [of "CHR '':''" "b_SecretHex b" 2]
    by (auto simp: show_bp_def bp_ok_def numeral_3_eq_3 numeral_2_eq_2)
  with b show ?thesis by (auto simp: parse_entry_def Let_def bp_ok_def TrimSpace_word word_ok_def)
qed

lemma parse_show_single: "bp_ok b \<Longrightarrow> parseBootstrapPSKs (show_bp b) = [b]"
proof -
  assume b: "bp_ok b"
  then have w: "word_ok (show_bp b)" by (rule show_bp_word)
  then have "split_on CHR '','' (show_bp b) = [show_bp b]"
    by (intro split_on_single) (auto simp: word_ok_def list_all_iff)
  with w b show ?thesis
    by (simp add: parseBootstrapPSKs_def splitCSV_def TrimSpace_word parse_entry_show) (simp add: word_ok_def)
qed

text \<open>A list of bootstrap keys written into the environment variable is read back as it was, and
  the reading is entry by entry: whatever stands between other commas, a broken entry included,
  changes nothing about the entries around it.\<close>

theorem bootstrap_psks_roundtrip:
  assumes "list_all bp_ok bs"
  shows "parseBootstrapPSKs (show_bps bs) = bs
    \<and> parseBootstrapPSKs (x @ CHR '','' # y) = parseBootstrapPSKs x @ parseBootstrapPSKs y"
proof
  show app: "parseBootstrapPSKs (x @ CHR '','' # y) = parseBootstrapPSKs x @ parseBootstrapPSKs y" for x y
    by (simp add: parseBootstrapPSKs_def splitCSV_append)
  show "parseBootstrapPSKs (show_bps bs) = bs"
    using assms
  proof (induction bs rule: show_bps.induct)
    case 1
    show ?case by (simp add: parseBootstrapPSKs_def splitCSV_def)
  qed (simp_all add: parse_show_single app)
qed

theorem bootstrap_psks_roundtrip_witness:
  "parseBootstrapPSKs (show_bps [\<lparr>b_UserID = ''al'', b_SecretHex = ''0f'', b_Label = ''pc''\<rparr>]) = [\<lparr>b_UserID = ''al'', b_SecretHex = ''0f'', b_Label = ''pc''\<rparr>]"
  by (rule conjunct1 [OF bootstrap_psks_roundtrip]) (simp add: bp_ok_def word_ok_def visible_def)

end
