(* ===== verification/Rtdb.thy ===== *)
theory Rtdb
  imports Config
begin

text \<open>
  \<^verbatim>\<open>windows/firebase\<close>: the client of the Realtime Database (\<^verbatim>\<open>rtdb.go\<close>), the device record
  (\<^verbatim>\<open>devices.go\<close>) and the listener that tells the host to wake up (\<^verbatim>\<open>wakelistener.go\<close>). An HTTP
  exchange is a function from requests to responses, JSON codecs and query encoding are
  arguments, and the cases a \<^verbatim>\<open>select\<close> takes arrive as a list.
\<close>

datatype go_err = Canceled | DeadlineExceeded | OtherErr string

section \<open>Requests\<close>

record http_req =
  rq_method :: string
  rq_url :: string
  rq_body :: string

type_synonym http_do = "http_req \<Rightarrow> go_err + (nat \<times> string)"

record Client_rt =
  baseURL :: string
  extraQuery :: "(string \<times> string) list"

definition rtdbHostSuffix :: "string \<Rightarrow> string" where
  "rtdbHostSuffix region =
     (if region = [] \<or> region = ''us-central1'' then ''firebaseio.com'' else region @ ''.firebasedatabase.app'')"

definition rt_NewClient :: "(string \<Rightarrow> string) \<Rightarrow> string \<Rightarrow> string \<Rightarrow> Client_rt option" where
  "rt_NewClient env projectID region =
     (if projectID = [] then None
      else if env ''FIREBASE_DATABASE_EMULATOR_HOST'' \<noteq> []
      then Some \<lparr>baseURL = ''http://'' @ env ''FIREBASE_DATABASE_EMULATOR_HOST'',
                 extraQuery = [(''ns'', projectID @ ''-default-rtdb'')]\<rparr>
      else Some \<lparr>baseURL = ''https://'' @ projectID @ ''-default-rtdb.'' @ rtdbHostSuffix region, extraQuery = []\<rparr>)"

definition TrimPrefix :: "string \<Rightarrow> string \<Rightarrow> string" where
  "TrimPrefix s p = (if HasPrefix s p then drop (length p) s else s)"

text \<open>\<open>encode\<close> is \<^verbatim>\<open>url.Values.Encode\<close>; a key of the request replaces the client's.\<close>

definition client_url ::
  "((string \<times> string) list \<Rightarrow> string) \<Rightarrow> Client_rt \<Rightarrow> string \<Rightarrow> (string \<times> string) list \<Rightarrow> string" where
  "client_url encode c path extra =
     (let combined = filter (\<lambda>(k, v). k \<notin> fst ` set extra) (extraQuery c) @ extra;
          out = baseURL c @ ''/'' @ TrimPrefix path ''/'' @ ''.json''
      in if combined = [] then out else out @ ''?'' @ encode combined)"

definition auth_query :: "string \<Rightarrow> (string \<times> string) list" where
  "auth_query idToken = (if idToken = [] then [] else [(''auth'', idToken)])"

datatype rt_err = MarshalErr | DoErr go_err | HttpStatus nat string | DecodeErr | TokenErr string | EmptyUID | NoProject

text \<open>The exchange all of \<^verbatim>\<open>Set\<close>, \<^verbatim>\<open>Push\<close>, \<^verbatim>\<open>Delete\<close>, \<^verbatim>\<open>Get\<close> and \<^verbatim>\<open>Listen\<close> make: the body of a
  response with a status of the two hundreds.\<close>

definition exchange :: "http_do \<Rightarrow> http_req \<Rightarrow> rt_err + string" where
  "exchange do rq =
     (case do rq of
        Inl e \<Rightarrow> Inl (DoErr e)
      | Inr (status, body) \<Rightarrow> if status div 100 \<noteq> 2 then Inl (HttpStatus status body) else Inr body)"

definition rt_Set ::
  "((string \<times> string) list \<Rightarrow> string) \<Rightarrow> http_do \<Rightarrow> Client_rt \<Rightarrow> string \<Rightarrow> string option \<Rightarrow> string \<Rightarrow> rt_err option" where
  "rt_Set encode do c path raw idToken =
     (case raw of
        None \<Rightarrow> Some MarshalErr
      | Some b \<Rightarrow>
         (case exchange do \<lparr>rq_method = ''PUT'', rq_url = client_url encode c path (auth_query idToken), rq_body = b\<rparr> of
            Inl e \<Rightarrow> Some e
          | Inr _ \<Rightarrow> None))"

definition rt_Push ::
  "((string \<times> string) list \<Rightarrow> string) \<Rightarrow> (string \<Rightarrow> string option) \<Rightarrow> http_do \<Rightarrow> Client_rt \<Rightarrow> string \<Rightarrow> string option \<Rightarrow> string
     \<Rightarrow> rt_err + string" where
  "rt_Push encode decode_name do c path raw idToken =
     (case raw of
        None \<Rightarrow> Inl MarshalErr
      | Some b \<Rightarrow>
         (case exchange do \<lparr>rq_method = ''POST'', rq_url = client_url encode c path (auth_query idToken), rq_body = b\<rparr> of
            Inl e \<Rightarrow> Inl e
          | Inr body \<Rightarrow> (case decode_name body of None \<Rightarrow> Inl DecodeErr | Some n \<Rightarrow> Inr n)))"

definition rt_Delete :: "((string \<times> string) list \<Rightarrow> string) \<Rightarrow> http_do \<Rightarrow> Client_rt \<Rightarrow> string \<Rightarrow> string \<Rightarrow> rt_err option" where
  "rt_Delete encode do c path idToken =
     (case exchange do \<lparr>rq_method = ''DELETE'', rq_url = client_url encode c path (auth_query idToken), rq_body = []\<rparr> of
        Inl e \<Rightarrow> Some e
      | Inr _ \<Rightarrow> None)"

definition rt_Get ::
  "((string \<times> string) list \<Rightarrow> string) \<Rightarrow> (string \<Rightarrow> 'a option) \<Rightarrow> http_do \<Rightarrow> Client_rt \<Rightarrow> string \<Rightarrow> string \<Rightarrow> rt_err + 'a" where
  "rt_Get encode decode do c path idToken =
     (case exchange do \<lparr>rq_method = ''GET'', rq_url = client_url encode c path (auth_query idToken), rq_body = []\<rparr> of
        Inl e \<Rightarrow> Inl e
      | Inr body \<Rightarrow> (case decode body of None \<Rightarrow> Inl DecodeErr | Some v \<Rightarrow> Inr v))"

definition Touch ::
  "((string \<times> string) list \<Rightarrow> string) \<Rightarrow> http_do \<Rightarrow> http_do \<Rightarrow> bool \<Rightarrow> Client_rt \<Rightarrow> string \<Rightarrow> string option \<Rightarrow> string \<Rightarrow> rt_err option" where
  "Touch encode do do' ctx_done c path raw idToken =
     (case rt_Set encode do c path raw idToken of
        None \<Rightarrow> None
      | Some e \<Rightarrow> if ctx_done then Some e else rt_Set encode do' c path raw idToken)"

definition PathToKey :: "string \<Rightarrow> string" where
  "PathToKey path = TrimPrefix path ''/''"

section \<open>Server-sent events\<close>

record SSEEvent =
  ev_Kind :: string
  ev_Path :: string
  ev_Data :: string

definition no_event :: SSEEvent where
  "no_event = \<lparr>ev_Kind = [], ev_Path = [], ev_Data = []\<rparr>"

text \<open>\<open>payload\<close> decodes the JSON object of a put or patch to its path and its data.\<close>

definition sse_flush :: "(string \<Rightarrow> (string \<times> string) option) \<Rightarrow> SSEEvent \<Rightarrow> SSEEvent \<times> SSEEvent list" where
  "sse_flush payload ev =
     (if ev_Kind ev = [] then (ev, [])
      else
        let ev' = (if ev_Kind ev = ''put'' \<or> ev_Kind ev = ''patch''
                   then (case payload (ev_Data ev) of None \<Rightarrow> ev | Some (p, d) \<Rightarrow> ev\<lparr>ev_Path := p, ev_Data := d\<rparr>)
                   else ev)
        in (no_event, [ev']))"

definition sse_line :: "(string \<Rightarrow> (string \<times> string) option) \<Rightarrow> SSEEvent \<Rightarrow> string \<Rightarrow> SSEEvent \<times> SSEEvent list" where
  "sse_line payload ev line =
     (if HasPrefix line ''event:'' then (ev\<lparr>ev_Kind := TrimSpace (drop 6 line)\<rparr>, [])
      else if HasPrefix line ''data:'' then (ev\<lparr>ev_Data := TrimSpace (drop 5 line)\<rparr>, [])
      else if line = [] then sse_flush payload ev
      else (ev, []))"

fun sse_run :: "(string \<Rightarrow> (string \<times> string) option) \<Rightarrow> SSEEvent \<Rightarrow> string list \<Rightarrow> SSEEvent list" where
  "sse_run payload ev [] = snd (sse_flush payload ev)"
| "sse_run payload ev (l # ls) = (case sse_line payload ev l of (ev', out) \<Rightarrow> out @ sse_run payload ev' ls)"

section \<open>The device record\<close>

definition devicePath :: "string \<Rightarrow> string \<Rightarrow> string" where
  "devicePath uid deviceID = ''/users/'' @ uid @ ''/devices/'' @ deviceID"

definition wakeRequestPath :: "string \<Rightarrow> string \<Rightarrow> string" where
  "wakeRequestPath uid requestID = ''/users/'' @ uid @ ''/wake_requests/'' @ requestID"

text \<open>The writes of \<^verbatim>\<open>RegisterDevice\<close> in order, until one fails; \<open>set\<close> is \<^verbatim>\<open>Client.Set\<close> with a
  path and a value.\<close>

fun set_all :: "(string \<Rightarrow> 'v \<Rightarrow> rt_err option) \<Rightarrow> (string \<times> 'v) list \<Rightarrow> rt_err option" where
  "set_all put [] = None"
| "set_all put ((p, v) # xs) = (case put p v of Some e \<Rightarrow> Some e | None \<Rightarrow> set_all put xs)"

datatype json_value = ServerTimestamp | JString string

definition device_writes :: "string \<Rightarrow> string \<Rightarrow> string \<Rightarrow> (string \<times> json_value) list" where
  "device_writes p displayName platform =
     [(p @ ''/last_seen_at'', ServerTimestamp), (p @ ''/kind'', JString ''host'')]
     @ (if platform \<noteq> [] then [(p @ ''/platform'', JString platform)] else [])
     @ (if displayName \<noteq> [] then [(p @ ''/display_name'', JString displayName)] else [])"

definition RegisterDevice ::
  "(string + string) \<Rightarrow> (string \<Rightarrow> string \<Rightarrow> json_value \<Rightarrow> rt_err option) \<Rightarrow> string \<Rightarrow> string \<Rightarrow> string \<Rightarrow> string \<Rightarrow> rt_err option" where
  "RegisterDevice token set_with uid deviceID displayName platform =
     (case token of
        Inl e \<Rightarrow> Some (TokenErr e)
      | Inr t \<Rightarrow> set_all (set_with t) (device_writes (devicePath uid deviceID) displayName platform))"

definition Heartbeat :: "(string + string) \<Rightarrow> (string \<Rightarrow> string \<Rightarrow> json_value \<Rightarrow> rt_err option) \<Rightarrow> string \<Rightarrow> string \<Rightarrow> rt_err option" where
  "Heartbeat token set_with uid deviceID =
     (case token of
        Inl e \<Rightarrow> Some (TokenErr e)
      | Inr t \<Rightarrow> set_with t (devicePath uid deviceID @ ''/last_seen_at'') ServerTimestamp)"

definition DeleteWakeRequest :: "(string + string) \<Rightarrow> (string \<Rightarrow> string \<Rightarrow> rt_err option) \<Rightarrow> string \<Rightarrow> string \<Rightarrow> rt_err option" where
  "DeleteWakeRequest token delete_with uid requestID =
     (case token of
        Inl e \<Rightarrow> Some (TokenErr e)
      | Inr t \<Rightarrow> delete_with t (wakeRequestPath uid requestID))"

definition StartWakeRuntime ::
  "(string + string) \<Rightarrow> string \<Rightarrow> (string \<Rightarrow> string) \<Rightarrow> string \<Rightarrow> string \<Rightarrow> (string \<Rightarrow> string \<Rightarrow> json_value \<Rightarrow> rt_err option)
     \<Rightarrow> string \<Rightarrow> string \<Rightarrow> string \<Rightarrow> rt_err + (Client_rt \<times> string)" where
  "StartWakeRuntime token uid env projectID region set_with deviceID displayName platform =
     (case token of
        Inl e \<Rightarrow> Inl (TokenErr e)
      | Inr _ \<Rightarrow>
          if uid = [] then Inl EmptyUID
          else
           (case rt_NewClient env projectID region of
              None \<Rightarrow> Inl NoProject
            | Some c \<Rightarrow>
               (case RegisterDevice token set_with uid deviceID displayName platform of
                  Some e \<Rightarrow> Inl e
                | None \<Rightarrow> Inr (c, uid))))"

section \<open>The wake listener\<close>

definition tokenRefreshLead :: duration where
  "tokenRefreshLead = 5 * minute"

text \<open>The deadline \<^verbatim>\<open>consume\<close> gives its stream.\<close>

definition stream_budget :: duration where
  "stream_budget = 55 * minute - tokenRefreshLead + 55 * minute"

definition listenerSubscribePath :: "string \<Rightarrow> string" where
  "listenerSubscribePath uid = ''/users/'' @ uid @ ''/wake_requests''"

record WakeEvent =
  RequestID :: string
  MobileDeviceID :: string
  CreatedAt :: int

record wake_doc =
  TargetDeviceID :: string
  doc_MobileDeviceID :: string
  doc_CreatedAt :: int

definition isJSONNull :: "string \<Rightarrow> bool" where
  "isJSONNull raw \<longleftrightarrow> length raw = 0 \<or> raw = ''null''"

definition maybeEmit :: "(string \<Rightarrow> wake_doc option) \<Rightarrow> string \<Rightarrow> string \<Rightarrow> string \<Rightarrow> WakeEvent list" where
  "maybeEmit decode deviceID rid raw =
     (case decode raw of
        None \<Rightarrow> []
      | Some doc \<Rightarrow>
          if TargetDeviceID doc \<noteq> deviceID then []
          else [\<lparr>RequestID = rid, MobileDeviceID = doc_MobileDeviceID doc, CreatedAt = doc_CreatedAt doc\<rparr>])"

text \<open>\<open>subtree\<close> decodes an object to its members, in an unspecified order.\<close>

definition wl_dispatch ::
  "(string \<Rightarrow> wake_doc option) \<Rightarrow> (string \<Rightarrow> (string \<times> string) list option) \<Rightarrow> string \<Rightarrow> SSEEvent \<Rightarrow> WakeEvent list" where
  "wl_dispatch decode subtree deviceID ev =
     (if ev_Path ev = [] \<or> ev_Path ev = ''/'' then
        if isJSONNull (ev_Data ev) then []
        else (case subtree (ev_Data ev) of
                None \<Rightarrow> []
              | Some members \<Rightarrow> concat (map (\<lambda>(rid, raw). maybeEmit decode deviceID rid raw) members))
      else
        let rid = PathToKey (ev_Path ev)
        in if rid = [] then []
           else if isJSONNull (ev_Data ev) then []
           else maybeEmit decode deviceID rid (ev_Data ev))"

datatype select_case = SelCtxDone | SelStreamDone | SelEvent SSEEvent | SelClosed "go_err option"

fun consume_loop ::
  "(string \<Rightarrow> wake_doc option) \<Rightarrow> (string \<Rightarrow> (string \<times> string) list option) \<Rightarrow> string \<Rightarrow> select_case list
     \<Rightarrow> WakeEvent list \<times> go_err option" where
  "consume_loop decode subtree deviceID [] = ([], None)"
| "consume_loop decode subtree deviceID (s # ss) =
     (case s of
        SelCtxDone \<Rightarrow> ([], Some Canceled)
      | SelStreamDone \<Rightarrow> ([], None)
      | SelClosed e \<Rightarrow> ([], e)
      | SelEvent ev \<Rightarrow>
          if ev_Kind ev \<in> {''put'', ''patch''} then
            (case consume_loop decode subtree deviceID ss of (out, e) \<Rightarrow> (wl_dispatch decode subtree deviceID ev @ out, e))
          else if ev_Kind ev \<in> {''cancel'', ''auth_revoked''}
          then ([], Some (OtherErr (''server requested disconnect: '' @ ev_Kind ev)))
          else consume_loop decode subtree deviceID ss)"

definition wl_consume ::
  "(string \<Rightarrow> wake_doc option) \<Rightarrow> (string \<Rightarrow> (string \<times> string) list option) \<Rightarrow> string \<Rightarrow> string + string \<Rightarrow> go_err option
     \<Rightarrow> select_case list \<Rightarrow> WakeEvent list \<times> go_err option" where
  "wl_consume decode subtree deviceID token listen_err ss =
     (case token of
        Inl e \<Rightarrow> ([], Some (OtherErr e))
      | Inr _ \<Rightarrow>
         (case listen_err of
            Some e \<Rightarrow> ([], Some e)
          | None \<Rightarrow> consume_loop decode subtree deviceID ss))"

definition maxBackoff :: duration where
  "maxBackoff = 30 * second"

text \<open>The loop of \<^verbatim>\<open>run\<close> over the ends of its streams while the context lives: the pauses it
  makes, and whether it is still running.\<close>

fun wl_run :: "duration \<Rightarrow> go_err option list \<Rightarrow> duration list \<times> bool" where
  "wl_run backoff [] = ([], True)"
| "wl_run backoff (e # es) =
     (if e = Some Canceled \<or> e = Some DeadlineExceeded then ([], False)
      else (case wl_run (if backoff * 2 > maxBackoff then maxBackoff else backoff * 2) es of
              (ps, r) \<Rightarrow> (backoff # ps, r)))"


section \<open>Properties\<close>

lemma strip_any_space: "strip_any space_encodings (CHR '' '' # s) = strip_any space_encodings s"
proof -
  have enc: "list_all (\<lambda>e. hd e = CHR '' '' \<longrightarrow> e = '' '') space_encodings" "'' '' \<in> set space_encodings" by code_simp+
  let ?P = "\<lambda>e. e \<noteq> [] \<and> HasPrefix (CHR '' '' # s) e"
  obtain e where e: "find ?P space_encodings = Some e"
    using enc(2) by (cases "find ?P space_encodings") (auto simp: find_None_iff HasPrefix_def)
  then have "e \<in> set space_encodings" "?P e" by (auto simp: find_Some_iff)
  then have "e = '' ''" using enc(1) HasPrefix_hd [of "CHR '' '' # s" e] by (simp add: list_all_iff)
  with e have "find ?P space_encodings = Some '' ''" by simp
  then show ?thesis by (simp only: strip_any.simps [of _ "CHR '' '' # s"]) simp
qed

lemma TrimSpace_space:
  assumes "s \<noteq> []" "visible (hd s)" "visible (last s)"
  shows "TrimSpace (CHR '' '' # s) = s"
  using TrimSpace_visible [OF assms] by (simp add: TrimSpace_def strip_any_space)

definition text_ok :: "string \<Rightarrow> bool" where
  "text_ok s \<longleftrightarrow> s \<noteq> [] \<and> visible (hd s) \<and> visible (last s)"

text \<open>An event as the server writes it: its name and its data, each on a line, and an empty line.\<close>

definition sse_lines :: "string \<times> string \<Rightarrow> string list" where
  "sse_lines e = [''event: '' @ fst e, ''data: '' @ snd e, []]"

definition sse_decoded :: "(string \<Rightarrow> (string \<times> string) option) \<Rightarrow> string \<times> string \<Rightarrow> SSEEvent" where
  "sse_decoded payload e =
     (case (if fst e \<in> {''put'', ''patch''} then payload (snd e) else None) of
        None \<Rightarrow> \<lparr>ev_Kind = fst e, ev_Path = [], ev_Data = snd e\<rparr>
      | Some (p, d) \<Rightarrow> \<lparr>ev_Kind = fst e, ev_Path = p, ev_Data = d\<rparr>)"

lemma sse_run_event:
  assumes "text_ok k" "text_ok d"
  shows "sse_run payload no_event (sse_lines (k, d) @ ls) = sse_decoded payload (k, d) # sse_run payload no_event ls"
proof -
  have "sse_line payload no_event (''event: '' @ k) = (no_event\<lparr>ev_Kind := k\<rparr>, [])"
    "sse_line payload (no_event\<lparr>ev_Kind := k\<rparr>) (''data: '' @ d) = (no_event\<lparr>ev_Kind := k, ev_Data := d\<rparr>, [])"
    using assms by (simp_all add: sse_line_def HasPrefix_def TrimSpace_space text_ok_def no_event_def)
  moreover have "sse_line payload (no_event\<lparr>ev_Kind := k, ev_Data := d\<rparr>) [] = (no_event, [sse_decoded payload (k, d)])"
    using assms by (auto simp: sse_line_def HasPrefix_def sse_flush_def sse_decoded_def no_event_def text_ok_def Let_def
        split: option.splits)
  ultimately show ?thesis unfolding sse_lines_def fst_conv snd_conv append_Cons append_Nil sse_run.simps by (simp only: prod.case append_Cons append_Nil)
qed



lemma wl_run_continues:
  assumes "\<forall>e \<in> set es. e \<noteq> Some Canceled \<and> e \<noteq> Some DeadlineExceeded" and "0 < b" "b \<le> maxBackoff"
  shows "snd (wl_run b es) \<and> length (fst (wl_run b es)) = length es
    \<and> (\<forall>p \<in> set (fst (wl_run b es)). b \<le> p \<and> p \<le> maxBackoff)"
  using assms
proof (induction es arbitrary: b)
  case (Cons e es)
  let ?b = "if b * 2 > maxBackoff then maxBackoff else b * 2"
  obtain ps r where run: "wl_run ?b es = (ps, r)" by fastforce
  have le: "0 < ?b" "?b \<le> maxBackoff" "b \<le> ?b" using Cons.prems by auto
  then have "snd (wl_run ?b es) \<and> length (fst (wl_run ?b es)) = length es
      \<and> (\<forall>p \<in> set (fst (wl_run ?b es)). ?b \<le> p \<and> p \<le> maxBackoff)" by (intro Cons.IH) (use Cons.prems in simp_all)
  moreover have "wl_run b (e # es) = (b # ps, r)"
    using Cons.prems(1) run by (simp only: wl_run.simps) (simp add: run)
  ultimately show ?case using run le Cons.prems(3) by fastforce
qed simp



text \<open>The deadline of a stream is 105 minutes, longer than the hour a token lasts. When it passes,
  two cases of the \<^verbatim>\<open>select\<close> are ready: the context of the stream, after which the listener
  connects again, and the closed channel with the reader's error, which is the same expired
  deadline, after which it stops for good.\<close>

theorem stream_deadline_may_stop_listener:
  "stream_budget = 105 * minute
   \<and> wl_run b (snd (consume_loop decode subtree dev [SelStreamDone]) # es)
       = (b # fst (wl_run (if b * 2 > maxBackoff then maxBackoff else b * 2) es),
          snd (wl_run (if b * 2 > maxBackoff then maxBackoff else b * 2) es))
   \<and> wl_run b (snd (consume_loop decode subtree dev [SelClosed (Some DeadlineExceeded)]) # es) = ([], False)"
  by (simp add: stream_budget_def tokenRefreshLead_def minute_def split_beta)

text \<open>A wake-up reaches the host only from a request that names it: the requests emitted for a
  snapshot are those of its members whose target is this device.\<close>

lemma maybeEmit_own:
  "e \<in> set (maybeEmit decode dev rid raw) \<Longrightarrow>
     \<exists>doc. decode raw = Some doc \<and> TargetDeviceID doc = dev \<and> RequestID e = rid"
  by (cases "decode raw") (auto simp: maybeEmit_def split: if_splits)

lemma wake_only_own:
  "e \<in> set (wl_dispatch decode subtree dev ev) \<Longrightarrow> \<exists>raw doc. decode raw = Some doc \<and> TargetDeviceID doc = dev"
  by (auto simp: wl_dispatch_def Let_def dest!: maybeEmit_own split: if_splits option.splits)

end
