(* ===== verification/Cli.thy ===== *)
theory Cli
  imports Client_Streams Rtdb
begin

text \<open>
  \<^verbatim>\<open>cli/cmd/peersh-cli\<close>: the command-line client. Its negotiation, candidate dial and hello repeat those
  of the mobile core with other pauses and without its time limit; on top come the choice of a mode
  from the flags, the Firebase start-up with the search for the user's hosts, the picker of
  persisted terminals and the read-eval-print loop. Standard input is the list of its complete lines;
  the network, the token sources and JSON are arguments as in the theories of those parts.
\<close>

section \<open>Flags\<close>

record firebaseOpts =
  fo_ProjectID :: string
  fo_APIKey :: string
  fo_Region :: string
  fo_RtdbRegion :: string
  fo_TokenFile :: string
  fo_Login :: bool
  fo_PairCode :: string
  fo_Credentials :: string
  fo_Email :: string
  fo_UID :: string
  fo_GoogleClientID :: string
  fo_GoogleClientSecret :: string

definition fb_requested :: "firebaseOpts \<Rightarrow> bool" where
  "fb_requested f \<longleftrightarrow> fo_ProjectID f \<noteq> [] \<or> fo_APIKey f \<noteq> [] \<or> fo_Login f \<or> fo_PairCode f \<noteq> []
     \<or> fo_TokenFile f \<noteq> [] \<or> fo_Credentials f \<noteq> [] \<or> fo_Email f \<noteq> [] \<or> fo_UID f \<noteq> []"

record ptyDispatch =
  pd_Command :: string
  pd_New :: bool
  pd_Reattach :: string
  pd_ListOnly :: bool

record cli_runOpts =
  ru_Addr :: string
  ru_HostDevice :: string
  ru_SignalingURL :: string
  ru_UserID :: string
  ru_PskFile :: string
  ru_Target :: string
  ru_StunServer :: string
  ru_KeyDir :: string
  ru_PtyMode :: bool
  ru_Pty :: ptyDispatch
  ru_UseFirebase :: bool
  ru_Firebase :: firebaseOpts
  ru_FirebaseLoginOnly :: bool

datatype usage_err = AddrXorSignaling | HostDeviceInSignaling | NewAndReattach

text \<open>\<^verbatim>\<open>main\<close> between the parsing of the flags and \<^verbatim>\<open>run\<close>: \<open>r\<close> holds the flags as they were given.\<close>

definition cli_main :: "string \<Rightarrow> cli_runOpts \<Rightarrow> usage_err + cli_runOpts" where
  "cli_main embeddedSignalingURL r =
     (let url = (if ru_SignalingURL r = [] \<and> ru_Addr r = [] \<and> embeddedSignalingURL \<noteq> [] then embeddedSignalingURL
                 else ru_SignalingURL r);
          p = ru_Pty r
      in if (ru_Addr r = []) = (url = []) then Inl AddrXorSignaling
         else if ru_HostDevice r \<noteq> [] \<and> url \<noteq> [] then Inl HostDeviceInSignaling
         else if pd_New p \<and> pd_Reattach p \<noteq> [] then Inl NewAndReattach
         else Inr (r\<lparr>ru_SignalingURL := url,
                     ru_PtyMode := (if pd_ListOnly p \<or> pd_Reattach p \<noteq> [] \<or> pd_New p then True else ru_PtyMode r),
                     ru_UseFirebase := url \<noteq> [] \<and> ru_PskFile r = [] \<and> fb_requested (ru_Firebase r)\<rparr>))"

definition buildCLIFirebaseTokenSource :: "string \<Rightarrow> (token_choice \<Rightarrow> 'src option) \<Rightarrow> firebaseOpts \<Rightarrow> source_err + 'src" where
  "buildCLIFirebaseTokenSource defaultPath source f =
     (let attempt = (\<lambda>c. case source c of None \<Rightarrow> Inl SourceFailed | Some s \<Rightarrow> Inr s)
      in if fo_APIKey f = [] \<or> fo_ProjectID f = [] then Inl MissingProjectOrKey
         else
           let tokenPath = (if fo_TokenFile f = [] then defaultPath else fo_TokenFile f)
           in if fo_Login f
              then attempt (GoogleSignIn_call (fo_GoogleClientID f) (fo_GoogleClientSecret f) (fo_APIKey f) tokenPath)
              else if fo_PairCode f \<noteq> []
              then attempt (Pair_call (fo_ProjectID f) (if fo_Region f = [] then ''asia-northeast1'' else fo_Region f)
                     (fo_APIKey f) (fo_PairCode f) tokenPath)
              else if fo_Credentials f \<noteq> []
              then if fo_Email f = [] \<and> fo_UID f = [] then Inl MissingEmailOrUID
                   else attempt (New_call (fo_ProjectID f) (fo_Credentials f) (fo_Email f) (fo_UID f) (fo_APIKey f))
              else attempt (NewRefreshSource_call tokenPath (fo_APIKey f)))"

section \<open>The user's hosts\<close>

record discoveredHost =
  dh_DeviceID :: string
  dh_DisplayName :: string
  dh_LastSeenUnixMs :: int

text \<open>The decoders of one JSON value: an object (not \<^verbatim>\<open>null\<close>), a string, an integer.\<close>

record 'j blob_codec =
  as_map :: "'j \<Rightarrow> (string, 'j) gomap option"
  as_string :: "'j \<Rightarrow> string option"
  as_int :: "'j \<Rightarrow> int option"

definition unmarshalString :: "'j blob_codec \<Rightarrow> 'j option \<Rightarrow> string" where
  "unmarshalString jc b = (case b of None \<Rightarrow> [] | Some j \<Rightarrow> (case as_string jc j of None \<Rightarrow> [] | Some s \<Rightarrow> s))"

definition unmarshalInt :: "'j blob_codec \<Rightarrow> 'j option \<Rightarrow> int" where
  "unmarshalInt jc b = (case b of None \<Rightarrow> 0 | Some j \<Rightarrow> (case as_int jc j of None \<Rightarrow> 0 | Some n \<Rightarrow> n))"

definition nonEmpty :: "string \<Rightarrow> string \<Rightarrow> string" where
  "nonEmpty a b = (if a \<noteq> [] then a else b)"

definition host_entry :: "'j blob_codec \<Rightarrow> string \<times> 'j \<Rightarrow> discoveredHost list" where
  "host_entry jc db =
     (case db of (deviceID, blob) \<Rightarrow>
       (case as_map jc blob of
          Some m \<Rightarrow>
            let kind = unmarshalString jc (gm_get m ''kind'')
            in if kind \<noteq> [] \<and> kind \<noteq> ''host'' then []
               else [\<lparr>dh_DeviceID = deviceID, dh_DisplayName = nonEmpty (unmarshalString jc (gm_get m ''display_name'')) deviceID,
                      dh_LastSeenUnixMs = unmarshalInt jc (gm_get m ''last_seen_at'')\<rparr>]
        | None \<Rightarrow>
           (case as_int jc blob of
              Some n \<Rightarrow> [\<lparr>dh_DeviceID = deviceID, dh_DisplayName = deviceID, dh_LastSeenUnixMs = n\<rparr>]
            | None \<Rightarrow> [])))"

datatype hosts_err = HostsToken | EmptyUid | RtdbClient | RtdbGet rt_err

text \<open>\<^verbatim>\<open>sort.Slice\<close> by recency; entries of the same time keep the order of the map, which is any order.\<close>

definition listFirebaseHosts ::
  "string option \<Rightarrow> string \<Rightarrow> (string \<Rightarrow> string) \<Rightarrow> (Client_rt \<Rightarrow> string \<Rightarrow> string \<Rightarrow> rt_err + (string, 'j) gomap) \<Rightarrow> 'j blob_codec
     \<Rightarrow> string \<Rightarrow> string \<Rightarrow> hosts_err + discoveredHost list" where
  "listFirebaseHosts token uid env get jc projectID rtdbRegion =
     (case token of
        None \<Rightarrow> Inl HostsToken
      | Some idToken \<Rightarrow>
          if uid = [] then Inl EmptyUid
          else
           (case rt_NewClient env projectID (if rtdbRegion = [] then ''asia-southeast1'' else rtdbRegion) of
              None \<Rightarrow> Inl RtdbClient
            | Some c \<Rightarrow>
               (case get c (''/users/'' @ uid @ ''/devices'') idToken of
                  Inl e \<Rightarrow> Inl (RtdbGet e)
                | Inr raw \<Rightarrow> Inr (sort_key (\<lambda>h. - dh_LastSeenUnixMs h) (concat (map (host_entry jc) raw))))))"

text \<open>The wake request: the path and the body's target, when one is sent.\<close>

definition fireWakeRequest ::
  "string option \<Rightarrow> string \<Rightarrow> (string \<Rightarrow> string) \<Rightarrow> string \<Rightarrow> string \<Rightarrow> string \<Rightarrow> (string \<times> string \<times> string) option" where
  "fireWakeRequest token uid env projectID rtdbRegion targetDeviceID =
     (case token of
        None \<Rightarrow> None
      | Some idToken \<Rightarrow>
          if uid = [] then None
          else
           (case rt_NewClient env projectID (if rtdbRegion = [] then ''asia-southeast1'' else rtdbRegion) of
              None \<Rightarrow> None
            | Some c \<Rightarrow> Some (''/users/'' @ uid @ ''/wake_requests'', targetDeviceID, idToken)))"

section \<open>Prompts\<close>

definition lower_char :: "char \<Rightarrow> char" where
  "lower_char c = (let n = of_char c :: nat in if 65 \<le> n \<and> n \<le> 90 then char_of (n + 32) else c)"

definition digit_value :: "char \<Rightarrow> nat option" where
  "digit_value c = (let n = of_char c :: nat in if 48 \<le> n \<and> n \<le> 57 then Some (n - 48) else None)"

fun digits_value :: "nat \<Rightarrow> string \<Rightarrow> nat option" where
  "digits_value acc [] = Some acc"
| "digits_value acc (c # cs) = (case digit_value c of None \<Rightarrow> None | Some d \<Rightarrow> digits_value (10 * acc + d) cs)"

text \<open>\<^verbatim>\<open>strconv.Atoi\<close> on a 64-bit machine.\<close>

definition Atoi :: "string \<Rightarrow> int option" where
  "Atoi s =
     (let neg = (s \<noteq> [] \<and> hd s = CHR ''-'');
          ds = (if s \<noteq> [] \<and> (hd s = CHR ''-'' \<or> hd s = CHR ''+'') then tl s else s)
      in if ds = [] then None
         else
          (case digits_value 0 ds of
             None \<Rightarrow> None
           | Some n \<Rightarrow>
               let v = (if neg then - int n else int n)
               in if - (2 ^ 63) \<le> v \<and> v < 2 ^ 63 then Some v else None))"

text \<open>A selection in a list of \<open>n\<close> entries: a position, counted from zero.\<close>

definition selection :: "string \<Rightarrow> nat \<Rightarrow> nat option" where
  "selection s n =
     (case Atoi s of
        None \<Rightarrow> None
      | Some k \<Rightarrow> if k < 1 \<or> k > int n then None else Some (nat (k - 1)))"

datatype pick_err = NoHosts | Cancelled | StdinErr

text \<open>\<^verbatim>\<open>pickFirebaseHost\<close> over the lines still to be read.\<close>

fun pick_loop :: "discoveredHost list \<Rightarrow> string list \<Rightarrow> pick_err + string" where
  "pick_loop hosts [] = Inl StdinErr"
| "pick_loop hosts (l # ls) =
     (let line = TrimSpace l
      in if line = [] then pick_loop hosts ls
         else if lower_char (hd line) = CHR ''q'' then Inl Cancelled
         else (case selection line (length hosts) of None \<Rightarrow> pick_loop hosts ls | Some i \<Rightarrow> Inr (dh_DeviceID (hosts ! i))))"

definition pickFirebaseHost :: "discoveredHost list \<Rightarrow> string list \<Rightarrow> pick_err + string" where
  "pickFirebaseHost hosts lines =
     (if length hosts = 0 then Inl NoHosts
      else if length hosts = 1 then Inr (dh_DeviceID (hosts ! 0))
      else pick_loop hosts lines)"

datatype pickerChoice = PickHandle string | PickNew | PickQuit

datatype picker_err = ListErr | PickerStdin

text \<open>\<^verbatim>\<open>runPicker\<close>: every round lists the terminals again; \<open>offers\<close> are those answers, one per line of input
  and one for the prompt that meets its end. The handles it asks the host to kill come along.\<close>

fun runPicker :: "(string list option) list \<Rightarrow> string list \<Rightarrow> string list \<times> (picker_err + pickerChoice)" where
  "runPicker [] lines = ([], Inl ListErr)"
| "runPicker (None # offers) lines = ([], Inl ListErr)"
| "runPicker (Some ptys # offers) [] = ([], Inl PickerStdin)"
| "runPicker (Some ptys # offers) (l # ls) =
     (let line = TrimSpace l
      in if line = [] then runPicker offers ls
         else
           let h = lower_char (hd line)
           in if h = CHR ''n'' then ([], Inr PickNew)
              else if h = CHR ''q'' then ([], Inr PickQuit)
              else if h = CHR ''r'' then runPicker offers ls
              else if h = CHR ''x''
              then (case selection (TrimSpace (tl line)) (length ptys) of
                      None \<Rightarrow> runPicker offers ls
                    | Some i \<Rightarrow> (case runPicker offers ls of (ks, r) \<Rightarrow> (ptys ! i # ks, r)))
              else (case selection line (length ptys) of
                      None \<Rightarrow> runPicker offers ls
                    | Some i \<Rightarrow> ([], Inr (PickHandle (ptys ! i)))))"

section \<open>Commands\<close>

text \<open>Standard input: \<^verbatim>\<open>ReadString\<close> returns the lines that end in a newline; what follows the last of
  them comes with the end of the file.\<close>

definition complete_lines :: "string \<Rightarrow> string list" where
  "complete_lines input = butlast (split_on (CHR 0x0A) input)"

definition trim_crlf :: "string \<Rightarrow> string" where
  "trim_crlf l = rev (dropWhile (\<lambda>c. c = CHR 0x0D \<or> c = CHR 0x0A) (rev l))"

text \<open>The commands the loop runs, in order; it goes on whatever their outcome.\<close>

fun repl :: "string list \<Rightarrow> string list" where
  "repl [] = []"
| "repl (l # ls) =
     (let cmd = trim_crlf l
      in if cmd = [] then repl ls
         else if cmd = ''exit'' \<or> cmd = ''quit'' then []
         else cmd # repl ls)"

type_synonym once_state = "callback list \<times> client_err option"

definition once_step :: "once_state \<Rightarrow> ExecResponse \<Rightarrow> once_state \<times> bool" where
  "once_step s resp =
     (if xr_Done resp then ((fst s, None), True)
      else
        ((fst s @ (if length (GetStdout resp) > 0 then [OnStdout (GetStdout resp)] else [])
                @ (if length (GetStderr resp) > 0 then [OnStderr (GetStderr resp)] else []), None), False))"

definition once_fail :: "once_state \<Rightarrow> stream_err \<Rightarrow> once_state" where
  "once_fail s e = (if is_EOF e then (fst s, None) else (fst s, Some (ReadRespErr e)))"

text \<open>\<^verbatim>\<open>runOnce\<close>: what it prints on either output and its error.\<close>

definition runOnce ::
  "(StreamRequest \<Rightarrow> bytes option) \<Rightarrow> (bytes \<Rightarrow> ExecResponse option) \<Rightarrow> stream \<Rightarrow> string \<Rightarrow> callback list \<times> client_err option" where
  "runOnce marshal unmarshal st cmd =
     (if \<not> st_open st then ([], Some OpenStreamErr)
      else
       (case wire_Write marshal (st_write st) [] (ReqExec cmd) of
          (Some e, _) \<Rightarrow> ([], Some (WriteReqErr e))
        | (None, _) \<Rightarrow> read_loop unmarshal (st_fin st) once_step once_fail ([], None) (st_input st)))"

section \<open>Terminals\<close>

datatype cli_event = Printed bytes | HandleShown string

datatype cli_end = PtyDone | ReattachRejected string | ReadPtyErr stream_err

type_synonym cli_pty_state = "cli_event list \<times> cli_end"

definition cli_pty_step :: "cli_pty_state \<Rightarrow> PTYFrame \<Rightarrow> cli_pty_state \<times> bool" where
  "cli_pty_step s f =
     (case f of
        PfAck h accepted reason \<Rightarrow>
          if \<not> accepted then ((fst s, ReattachRejected reason), True) else ((fst s @ [HandleShown h], PtyDone), False)
      | PfData d \<Rightarrow> ((if length d > 0 then fst s @ [Printed d] else fst s, PtyDone), False)
      | PfExit code e \<Rightarrow> ((fst s, PtyDone), True)
      | _ \<Rightarrow> ((fst s, PtyDone), False))"

definition cli_pty_fail :: "cli_pty_state \<Rightarrow> stream_err \<Rightarrow> cli_pty_state" where
  "cli_pty_fail s e = (fst s, if is_EOF e then PtyDone else ReadPtyErr e)"

definition initialSize :: "(int \<times> int) option \<Rightarrow> int \<times> int" where
  "initialSize sz = (case sz of None \<Rightarrow> (80, 24) | Some (c, r) \<Rightarrow> if c \<le> 0 \<or> r \<le> 0 then (80, 24) else (c, r))"

text \<open>\<^verbatim>\<open>runPTY\<close>: the request and what the terminal's output becomes. The keystrokes are frames of their
  own, written while this loop runs.\<close>

definition pty_request :: "string \<Rightarrow> string \<Rightarrow> (int \<times> int) option \<Rightarrow> PTYReq" where
  "pty_request cmd reattachHandle sz =
     \<lparr>pq_Cols = of_int (fst (initialSize sz)), pq_Rows = of_int (snd (initialSize sz)), pq_Command = cmd, pq_PtyId = 0,
      pq_ReattachHandle = reattachHandle\<rparr>"

datatype runpty_err = PtyStream client_err | PtyEnded cli_end

definition runPTY ::
  "(StreamRequest \<Rightarrow> bytes option) \<Rightarrow> (bytes \<Rightarrow> PTYFrame option) \<Rightarrow> stream \<Rightarrow> string \<Rightarrow> string \<Rightarrow> (int \<times> int) option
     \<Rightarrow> cli_event list \<times> runpty_err option" where
  "runPTY marshal unmarshal st cmd reattachHandle sz =
     (if \<not> st_open st then ([], Some (PtyStream OpenStreamErr))
      else
       (case wire_Write marshal (st_write st) [] (ReqPTY (pty_request cmd reattachHandle sz)) of
          (Some e, _) \<Rightarrow> ([], Some (PtyStream (WriteReqErr e)))
        | (None, _) \<Rightarrow>
           (case read_loop unmarshal (st_fin st) cli_pty_step cli_pty_fail ([], PtyDone) (st_input st) of
              (evs, PtyDone) \<Rightarrow> (evs, None)
            | (evs, e) \<Rightarrow> (evs, Some (PtyEnded e)))))"

text \<open>\<^verbatim>\<open>watchResize\<close> over the sizes the ticker samples.\<close>

fun watchResize :: "int \<times> int \<Rightarrow> ((int \<times> int) option) list \<Rightarrow> PTYFrame list" where
  "watchResize lst [] = []"
| "watchResize lst (None # szs) = watchResize lst szs"
| "watchResize lst (Some (c, r) # szs) =
     (if c \<le> 0 \<or> r \<le> 0 then watchResize lst szs
      else if (c, r) = lst then watchResize lst szs
      else PfResize (of_int c) (of_int r) # watchResize (c, r) szs)"

text \<open>What \<^verbatim>\<open>dispatchPTY\<close> does: list, or run a terminal with a command or a handle.\<close>

datatype pty_action = ActList | ActRun string string | ActNothing | ActError picker_err

definition dispatchPTY :: "ptyDispatch \<Rightarrow> picker_err + pickerChoice \<Rightarrow> pty_action" where
  "dispatchPTY p picked =
     (if pd_ListOnly p then ActList
      else if pd_Reattach p \<noteq> [] then ActRun [] (pd_Reattach p)
      else if pd_New p then ActRun (pd_Command p) []
      else
       (case picked of
          Inl e \<Rightarrow> ActError e
        | Inr PickNew \<Rightarrow> ActRun (pd_Command p) []
        | Inr PickQuit \<Rightarrow> ActNothing
        | Inr (PickHandle h) \<Rightarrow> if h = [] then ActNothing else ActRun [] h))"

definition cli_listPTYs where
  "cli_listPTYs ftext x =
     (case x of
        Inl e \<Rightarrow> Inl (Inl e)
      | Inr r \<Rightarrow> if resp_Error ftext r \<noteq> [] then Inl (Inr (resp_Error ftext r))
                 else Inr (case r of ListPTYsResp hs \<Rightarrow> hs | _ \<Rightarrow> []))"

definition cli_killPTY where
  "cli_killPTY ftext x =
     (case x of
        Inl e \<Rightarrow> Some (Inl e)
      | Inr r \<Rightarrow> if resp_Error ftext r \<noteq> [] then Some (Inr (resp_Error ftext r)) else None)"

section \<open>Connecting\<close>

definition cli_dial_opts :: "string \<Rightarrow> bytes \<Rightarrow> string \<Rightarrow> string \<Rightarrow> bytes \<Rightarrow> DialOptions" where
  "cli_dial_opts userID secret idToken deviceID pub =
     \<lparr>o_UserID = userID, o_Secret = secret, o_DeviceID = deviceID, o_PublicKey = pub, o_Kind = DEVICE_KIND_CLI,
      o_DisplayName = ''peersh-cli'', o_ClientID = ''peersh-cli/0.2'', o_FirebaseIDToken = idToken, o_FirebaseAppCheckToken = []\<rparr>"

definition cli_negotiateConnect ::
  "codec \<Rightarrow> string \<Rightarrow> bytes \<Rightarrow> string \<Rightarrow> string \<Rightarrow> bytes \<Rightarrow> string \<Rightarrow> EndpointCandidate list \<Rightarrow> attempt \<Rightarrow> neg_err + ConnectMsg" where
  "cli_negotiateConnect co userID secret idToken deviceID pub target cands a =
     snd (negotiate_once co (cli_dial_opts userID secret idToken deviceID pub) target cands a)"

definition cli_negotiateConnectWithRetry ::
  "(nat \<Rightarrow> neg_err + ConnectMsg) \<Rightarrow> (neg_err \<Rightarrow> string) \<Rightarrow> (nat \<Rightarrow> bool)
     \<Rightarrow> duration list \<times> ConnectMsg option \<times> retry_err option" where
  "cli_negotiateConnectWithRetry negotiate etext ctxDone = retry_loop negotiate etext ctxDone 0 second None"

text \<open>Three helpers repeat the code of the mobile core and of the host.\<close>

definition cli_localCandidates where
  "cli_localCandidates = localCandidates"

definition cli_readPSKFile where
  "cli_readPSKFile = readPSKFile"

definition cli_loadOrGenerateKey where
  "cli_loadOrGenerateKey env files keyDir =
     loadOrGeneratePriv (oe_keyCodec env) (oe_mkdir env) (oe_keyWritable env) (oe_generated env) files keyDir"

definition cli_doHandshake where
  "cli_doHandshake env a =
     snd (client_hello (oe_marshalHello env) (oe_unmarshalHello env) (oe_hello env a) ''peersh-cli/0.2'' 0)"

datatype cli_err =
    CFirebase source_err | CToken | CListen | CKey priv_err | CCert | CHosts hosts_err | CPick pick_err | CNeedUserAndPsk
  | CReadPsk string | CNeedTarget | CNegotiate retry_err | CNoCandidates | CTraversal | CResolve | CDial dial_err
  | CHandshake hello_err

definition rendezvousAndDial ::
  "open_env \<Rightarrow> tls_config \<Rightarrow> DialOptions \<Rightarrow> string \<Rightarrow> udp_addr \<Rightarrow> udp_addr option
     \<Rightarrow> (bytes \<times> udp_addr) list \<times> (cli_err + (udp_addr \<times> bytes list))" where
  "rendezvousAndDial env cfg opts target local srflx =
     (let cands = cli_localCandidates (oe_ipString env) (oe_interfaceAddrs env) local srflx
      in (case cli_negotiateConnectWithRetry
               (\<lambda>i. cli_negotiateConnect (oe_codec env) (o_UserID opts) (o_Secret opts) (o_FirebaseIDToken opts) (o_DeviceID opts)
                      (o_PublicKey opts) target cands (oe_attempt env i)) (oe_text env) (oe_ctxDone env) of
            (_, _, Some e) \<Rightarrow> ([], Inl (CNegotiate e))
          | (_, reply, None) \<Rightarrow>
              let cs = (case reply of None \<Rightarrow> [] | Some r \<Rightarrow> Candidates r)
              in if length cs = 0 then ([], Inl CNoCandidates)
                 else
                   let peerAddrs = CandidatesToUDPAddrs (oe_parseIP env) (SortCandidates (oe_parseIP env) cs)
                   in (fst (Punch (oe_nonce env) (oe_punchDone env) peerAddrs
                              \<lparr>STUNServer = [], STUNTimeout = 0, PunchPackets = 0, PunchInterval = 0\<rparr>),
                       case dial_first cfg (oe_answer env) peerAddrs of None \<Rightarrow> Inl CTraversal | Some ac \<Rightarrow> Inr ac)))"

record ('src, 'j) cli_env =
  ce_open :: open_env
  ce_readFile :: "string \<Rightarrow> string + string"
  ce_defaultPath :: string
  ce_source :: "token_choice \<Rightarrow> 'src option"
  ce_token :: "'src \<Rightarrow> string option"
  ce_uid :: "'src \<Rightarrow> string"
  ce_env :: "string \<Rightarrow> string"
  ce_get :: "Client_rt \<Rightarrow> string \<Rightarrow> string \<Rightarrow> rt_err + (string, 'j) gomap"
  ce_json :: "'j blob_codec"
  ce_lines :: "string list"

text \<open>The secret or the token, the target, and the wake request fired for it. \<^verbatim>\<open>run\<close> goes on in the same way
  whatever became of the wake request and of the packets punched.\<close>

definition cli_credentials ::
  "('src, 'j) cli_env \<Rightarrow> cli_runOpts \<Rightarrow> cli_err + (bytes \<times> string \<times> string \<times> (string \<times> string \<times> string) option)" where
  "cli_credentials e r =
     (if ru_UseFirebase r then
       (case buildCLIFirebaseTokenSource (ce_defaultPath e) (ce_source e) (ru_Firebase r) of
          Inl x \<Rightarrow> Inl (CFirebase x)
        | Inr src \<Rightarrow>
           (case ce_token e src of
              None \<Rightarrow> Inl CToken
            | Some idToken \<Rightarrow>
               (case (if ru_Target r \<noteq> [] then Inr (ru_Target r)
                      else
                       (case listFirebaseHosts (ce_token e src) (ce_uid e src) (ce_env e) (ce_get e) (ce_json e)
                               (fo_ProjectID (ru_Firebase r)) (fo_RtdbRegion (ru_Firebase r)) of
                          Inl x \<Rightarrow> Inl (CHosts x)
                        | Inr hosts \<Rightarrow>
                           (case pickFirebaseHost hosts (ce_lines e) of Inl x \<Rightarrow> Inl (CPick x) | Inr t \<Rightarrow> Inr t))) of
                  Inl x \<Rightarrow> Inl x
                | Inr target \<Rightarrow>
                    Inr ([], idToken, target,
                         fireWakeRequest (ce_token e src) (ce_uid e src) (ce_env e) (fo_ProjectID (ru_Firebase r))
                           (fo_RtdbRegion (ru_Firebase r)) target))))
      else if ru_UserID r = [] \<or> ru_PskFile r = [] then Inl CNeedUserAndPsk
      else
       (case cli_readPSKFile (ce_readFile e) (ru_PskFile r) of
          Inl x \<Rightarrow> Inl (CReadPsk x)
        | Inr secret \<Rightarrow> Inr (secret, [], ru_Target r, None)))"

datatype cli_out = LoginDone string | Connected udp_addr "bytes list"

definition cli_run ::
  "('src, 'j) cli_env \<Rightarrow> (string, bytes) gomap \<Rightarrow> cli_runOpts \<Rightarrow> (string, bytes) gomap \<times> (cli_err + cli_out)" where
  "cli_run e files r =
     (let env = ce_open e
      in if ru_UseFirebase r \<and> ru_FirebaseLoginOnly r then
          (files,
           case buildCLIFirebaseTokenSource (ce_defaultPath e) (ce_source e) (ru_Firebase r) of
             Inl x \<Rightarrow> Inl (CFirebase x)
           | Inr src \<Rightarrow> (case ce_token e src of None \<Rightarrow> Inl CToken | Some _ \<Rightarrow> Inr (LoginDone (ce_uid e src))))
         else
          (case oe_listen env of
             None \<Rightarrow> (files, Inl CListen)
           | Some local \<Rightarrow>
               let srflx = (if ru_SignalingURL r \<noteq> [] \<and> ru_StunServer r \<noteq> []
                            then (case oe_discover env (ru_StunServer r) of Inl _ \<Rightarrow> None | Inr a \<Rightarrow> Some a) else None)
               in (case cli_loadOrGenerateKey env files (ru_KeyDir r) of
                     (files', Inl x) \<Rightarrow> (files', Inl (CKey x))
                   | (files', Inr priv) \<Rightarrow>
                       let pub = oe_public env priv; deviceID = Derive (oe_sha256 env) pub
                       in (files',
                           if \<not> oe_cert env priv then Inl CCert
                           else
                            (case (if ru_SignalingURL r \<noteq> []
                                   then
                                    (case cli_credentials e r of
                                       Inl x \<Rightarrow> Inl x
                                     | Inr (secret, idToken, target, wake) \<Rightarrow>
                                         if target = [] then Inl CNeedTarget
                                         else snd (rendezvousAndDial env (ClientTLSConfig (oe_sha256 env) (oe_parseCert env) target)
                                                (cli_dial_opts (ru_UserID r) secret idToken deviceID pub) target local srflx))
                                   else
                                    (case oe_resolve env (ru_Addr r) of
                                       None \<Rightarrow> Inl CResolve
                                     | Some a \<Rightarrow>
                                        (case tr_Dial (ClientTLSConfig (oe_sha256 env) (oe_parseCert env) (ru_HostDevice r)) (oe_answer env) a of
                                           Inl x \<Rightarrow> Inl (CDial x)
                                         | Inr certs \<Rightarrow> Inr (a, certs)))) of
                               Inl x \<Rightarrow> Inl x
                             | Inr (a, certs) \<Rightarrow>
                                (case cli_doHandshake env a of Some x \<Rightarrow> Inl (CHandshake x) | None \<Rightarrow> Inr (Connected a certs)))))))"

section \<open>Properties\<close>

lemma rendezvous_dialled:
  assumes "snd (rendezvousAndDial env cfg opts target local srflx) = Inr (a, certs)"
  shows "tc_Verify cfg certs = None"
  using assms
  by (auto simp: rendezvousAndDial_def Let_def dest!: dial_first_Some split: prod.splits option.splits if_splits)

lemma selection_less: "selection s n = Some i \<Longrightarrow> i < n"
  by (auto simp: selection_def split: option.splits if_splits)

lemma pick_loop_listed: "pick_loop hosts ls = Inr d \<Longrightarrow> d \<in> dh_DeviceID ` set hosts"
  by (induction hosts ls rule: pick_loop.induct)
    (auto simp: Let_def selection_def split: if_splits option.splits)

lemma pick_listed: "pickFirebaseHost hosts ls = Inr d \<Longrightarrow> d \<in> dh_DeviceID ` set hosts"
  by (auto simp: pickFirebaseHost_def pick_loop_listed split: if_splits)

lemma hosts_of_user:
  assumes "listFirebaseHosts token uid env get jc pid region = Inr hosts" and "h \<in> set hosts"
  shows "\<exists>c tok raw blob. get c (''/users/'' @ uid @ ''/devices'') tok = Inr raw \<and> (dh_DeviceID h, blob) \<in> set raw
    \<and> h \<in> set (host_entry jc (dh_DeviceID h, blob))"
proof -
  obtain c tok raw where g: "get c (''/users/'' @ uid @ ''/devices'') tok = Inr raw"
    and "h \<in> set (concat (map (host_entry jc) raw))"
    using assms by (auto simp: listFirebaseHosts_def split: option.splits if_splits sum.splits)
  then obtain d blob where "(d, blob) \<in> set raw" "h \<in> set (host_entry jc (d, blob))" by auto
  moreover from this(2) have "dh_DeviceID h = d"
    by (auto simp: host_entry_def Let_def split: option.splits if_splits)
  ultimately show ?thesis using g by blast
qed


definition demo_fb :: firebaseOpts where
  "demo_fb = \<lparr>fo_ProjectID = [], fo_APIKey = [], fo_Region = [], fo_RtdbRegion = [], fo_TokenFile = [], fo_Login = False, fo_PairCode = [],
     fo_Credentials = [], fo_Email = [], fo_UID = [], fo_GoogleClientID = [], fo_GoogleClientSecret = []\<rparr>"

definition demo_run_opts :: cli_runOpts where
  "demo_run_opts = \<lparr>ru_Addr = ''h:1'', ru_HostDevice = demo_target, ru_SignalingURL = [], ru_UserID = [], ru_PskFile = [], ru_Target = [],
     ru_StunServer = [], ru_KeyDir = [], ru_PtyMode = False,
     ru_Pty = \<lparr>pd_Command = [], pd_New = False, pd_Reattach = [], pd_ListOnly = False\<rparr>, ru_UseFirebase = False,
     ru_Firebase = demo_fb, ru_FirebaseLoginOnly = False\<rparr>"

definition demo_cli_env :: "(unit, unit) cli_env" where
  "demo_cli_env = \<lparr>ce_open = demo_open_env, ce_readFile = Inl, ce_defaultPath = [], ce_source = (\<lambda>c. None), ce_token = (\<lambda>s. None),
     ce_uid = (\<lambda>s. []), ce_env = (\<lambda>v. []), ce_get = (\<lambda>c p t. Inr []),
     ce_json = \<lparr>as_map = (\<lambda>j. None), as_string = (\<lambda>j. None), as_int = (\<lambda>j. None)\<rparr>, ce_lines = []\<rparr>"


text \<open>The loop runs, in order, the complete lines before the first that says to leave, without the empty
  ones; a last line without its newline is never run.\<close>

lemma repl_runs_lines:
  "repl ls = filter (\<lambda>c. c \<noteq> []) (takeWhile (\<lambda>c. c \<noteq> ''exit'' \<and> c \<noteq> ''quit'') (map trim_crlf ls))"
  by (induction ls) (auto simp: Let_def)

lemma unterminated_line_dropped: "repl (complete_lines ''ls'') = []"
  by (simp add: complete_lines_def)

text \<open>The frames of the size watcher: each differs from the one before, and the last is the last valid
  size sampled.\<close>

lemma watchResize_last:
  "szs = xs @ [Some (c, r)] \<Longrightarrow> 0 < c \<Longrightarrow> 0 < r
    \<Longrightarrow> last (PfResize (of_int (fst l)) (of_int (snd l)) # watchResize l szs) = PfResize (of_int c) (of_int r)"
proof (induction l szs arbitrary: xs rule: watchResize.induct)
  case (2 l szs)
  then show ?case by (cases xs) auto
next
  case (3 l c' r' szs)
  then show ?case by (cases xs) auto
qed simp

definition shown :: "(string list option) list \<Rightarrow> string set" where
  "shown offers = set (concat (map (\<lambda>x. case x of None \<Rightarrow> [] | Some ptys \<Rightarrow> ptys) offers))"

lemma shown_simps: "shown (None # offers) = shown offers" "shown (Some ptys # offers) = set ptys \<union> shown offers"
  by (simp_all add: shown_def)

text \<open>The picker attaches to and kills only terminals that the host listed.\<close>

lemma runPicker_listed:
  "runPicker offers ls = (ks, res) \<Longrightarrow> set ks \<subseteq> shown offers \<and> (\<forall>h. res = Inr (PickHandle h) \<longrightarrow> h \<in> shown offers)"
proof (induction ls arbitrary: offers ks)
  case Nil
  then show ?case by (induction offers "[] :: string list" rule: runPicker.induct) auto
next
  case (Cons l ls)
  show ?case
  proof (cases offers)
    case Nil
    then show ?thesis using Cons.prems by auto
  next
    case offer: (Cons p offers')
    show ?thesis
    proof (cases p)
      case None
      then show ?thesis using Cons.prems offer by auto
    next
      case (Some ptys)
      show ?thesis
        using Cons.prems Cons.IH [of offers'] offer Some
        by (auto simp: Let_def shown_simps split: if_splits option.splits prod.splits dest!: selection_less)
    qed
  qed
qed

section \<open>Flag defaults and the list of terminals\<close>

text \<open>The values \<^verbatim>\<open>-ldflags\<close> may embed, and the flags before any is given.\<close>

record cli_embedded =
  ce_SignalingURL :: string
  ce_FirebaseProjectID :: string
  ce_FirebaseAPIKey :: string
  ce_FirebaseRegion :: string
  ce_FirebaseRtdbRegion :: string
  ce_GoogleClientID :: string
  ce_GoogleClientSecret :: string

definition cli_flag_defaults :: "cli_embedded \<Rightarrow> cli_runOpts" where
  "cli_flag_defaults b =
     \<lparr>ru_Addr = [], ru_HostDevice = [], ru_SignalingURL = [], ru_UserID = [], ru_PskFile = [], ru_Target = [],
      ru_StunServer = DefaultSTUNServer, ru_KeyDir = [], ru_PtyMode = False,
      ru_Pty = \<lparr>pd_Command = [], pd_New = False, pd_Reattach = [], pd_ListOnly = False\<rparr>, ru_UseFirebase = False,
      ru_Firebase = \<lparr>fo_ProjectID = ce_FirebaseProjectID b, fo_APIKey = ce_FirebaseAPIKey b, fo_Region = ce_FirebaseRegion b,
        fo_RtdbRegion = ce_FirebaseRtdbRegion b, fo_TokenFile = [], fo_Login = False, fo_PairCode = [], fo_Credentials = [],
        fo_Email = [], fo_UID = [], fo_GoogleClientID = ce_GoogleClientID b, fo_GoogleClientSecret = ce_GoogleClientSecret b\<rparr>,
      ru_FirebaseLoginOnly = False\<rparr>"

text \<open>Without any flag a build with an embedded server and Firebase project signs in with Firebase, and a build
  with nothing embedded asks for a server.\<close>

lemma cli_no_flags:
  "ce_SignalingURL b = [] \<Longrightarrow> cli_main (ce_SignalingURL b) (cli_flag_defaults b) = Inl AddrXorSignaling"
  "ce_SignalingURL b \<noteq> [] \<Longrightarrow> \<exists>r. cli_main (ce_SignalingURL b) (cli_flag_defaults b) = Inr r \<and> ru_SignalingURL r = ce_SignalingURL b
     \<and> (ru_UseFirebase r \<longleftrightarrow> ce_FirebaseProjectID b \<noteq> [] \<or> ce_FirebaseAPIKey b \<noteq> [])"
  by (auto simp: cli_main_def cli_flag_defaults_def fb_requested_def Let_def)

text \<open>\<open>itoa\<close> prints a number; the code's detour over \<^verbatim>\<open>float64\<close> is left out.\<close>

definition relativeTime :: "(int \<Rightarrow> string) \<Rightarrow> time \<Rightarrow> int \<Rightarrow> string" where
  "relativeTime itoa now unixMs =
     (if unixMs = 0 then []
      else
        let d0 = time_sub now (unixMs * 1000000);
            d = (if d0 < 0 then 0 else d0)
        in if d < minute then itoa (d div second) @ ''s ago''
           else if d < hour then itoa (d div minute) @ ''m ago''
           else if d < 24 * hour then itoa (d div hour) @ ''h ago''
           else itoa (d div hour div 24) @ ''d ago'')"

text \<open>The columns of a line of the list: number, handle, command, clients, directory and age.\<close>

definition pty_row :: "(int \<Rightarrow> string) \<Rightarrow> time \<Rightarrow> nat \<times> PTYHandle \<Rightarrow> int \<times> string \<times> string \<times> string \<times> string \<times> string" where
  "pty_row itoa now x =
     (case x of (i, p) \<Rightarrow>
       (int i + 1,
        (if length (ph_Handle p) > 8 then take 8 (ph_Handle p) else ph_Handle p),
        ph_Command p,
        (if ph_AttachedCount p = 0 then ''detached'' else if ph_AttachedCount p = 1 then ''1 client''
         else itoa (uint (ph_AttachedCount p)) @ '' clients''),
        (if ph_Cwd p = [] then ''(no cwd yet)'' else ph_Cwd p),
        relativeTime itoa now (ph_LastSeenUnixMs p)))"

definition renderPTYList :: "(int \<Rightarrow> string) \<Rightarrow> time \<Rightarrow> PTYHandle list \<Rightarrow> (int \<times> string \<times> string \<times> string \<times> string \<times> string) list" where
  "renderPTYList itoa now ptys = map (pty_row itoa now) (enumerate 0 ptys)"

text \<open>The number in front of a line is the one the picker takes for it.\<close>

lemma listed_number_selects:
  assumes "i < length ptys" "selection line (length ptys) = Some i"
  shows "fst (renderPTYList itoa now ptys ! i) = int i + 1 \<and> Atoi line = Some (fst (renderPTYList itoa now ptys ! i))"
  using assms by (auto simp: renderPTYList_def pty_row_def nth_enumerate_eq selection_def split: option.splits if_splits)

end
