(* ===== verification/Firestore.thy ===== *)
theory Firestore
  imports Store
begin

text \<open>
  \<^verbatim>\<open>core/store/firestore\<close>: the store in Cloud Firestore. A record is a document below its user's document,
  its fields are values of the database, and a device or session is found without its user by a query
  over every collection of that name. The database is an argument: its operations return an error or a
  result, and the named hypothesis \<open>firestore_laws\<close> states what its documentation promises of the calls
  that succeed (times are kept to the microsecond, deleting an absent document succeeds).
\<close>

section \<open>The database\<close>

datatype fs_value = FInt int | FFloat int | FStr string | FBytes bytes | FTime time | FOtherValue

type_synonym fs_path = "string list"
type_synonym fs_data = "string \<rightharpoonup> fs_value"

datatype fs_err = FsNotFound | FsFailure

record 'db fs_ops =
  fs_Set :: "'db \<Rightarrow> fs_path \<Rightarrow> (string \<times> fs_value) list \<Rightarrow> fs_err + 'db"
  fs_Get :: "'db \<Rightarrow> fs_path \<Rightarrow> fs_err + fs_data"
  fs_Delete :: "'db \<Rightarrow> fs_path \<Rightarrow> fs_err + 'db"
  fs_Documents :: "'db \<Rightarrow> fs_path \<Rightarrow> fs_err + (string \<times> fs_data) list"
  fs_Group :: "'db \<Rightarrow> string \<Rightarrow> (fs_err + (string \<times> string \<times> fs_data)) list"

text \<open>The iterator over a collection group gives, until it is done, an error or the ID of the document above
  the collection, the document's own ID and its data. An error other than an absent document is passed on.\<close>

definition store_err_of :: "fs_err \<Rightarrow> store_err" where
  "store_err_of e = StoreFailure"

definition isNotFound :: "fs_err option \<Rightarrow> bool" where
  "isNotFound e \<longleftrightarrow> (case e of None \<Rightarrow> False | Some x \<Rightarrow> x = FsNotFound)"

definition userDoc :: "string \<Rightarrow> fs_path" where
  "userDoc userID = [''users'', userID]"

section \<open>Coercions\<close>

definition asInt :: "fs_value option \<Rightarrow> int" where
  "asInt v = (case v of Some (FInt n) \<Rightarrow> n | Some (FFloat n) \<Rightarrow> n | _ \<Rightarrow> 0)"

definition asString :: "fs_value option \<Rightarrow> string" where
  "asString v = (case v of Some (FStr s) \<Rightarrow> s | _ \<Rightarrow> [])"

definition asBytes :: "fs_value option \<Rightarrow> bytes" where
  "asBytes v = (case v of Some (FBytes b) \<Rightarrow> b | _ \<Rightarrow> [])"

definition asTime :: "fs_value option \<Rightarrow> time" where
  "asTime v = (case v of Some (FTime t) \<Rightarrow> t | _ \<Rightarrow> 0)"

text \<open>The enumerations as the numbers they are stored as; a number outside of them reads as unknown.\<close>

fun provider_int :: "AuthProvider \<Rightarrow> int" where
  "provider_int AuthProviderUnknown = 0"
| "provider_int AuthProviderNone = 1"
| "provider_int AuthProviderPSK = 2"
| "provider_int AuthProviderFirebase = 3"

definition provider_of :: "int \<Rightarrow> AuthProvider" where
  "provider_of n = (if n = 1 then AuthProviderNone else if n = 2 then AuthProviderPSK
     else if n = 3 then AuthProviderFirebase else AuthProviderUnknown)"

fun kind_int :: "DeviceKind \<Rightarrow> int" where
  "kind_int DeviceKindUnknown = 0"
| "kind_int DeviceKindWindowsHost = 1"
| "kind_int DeviceKindMobileClient = 2"
| "kind_int DeviceKindCLI = 3"

definition kind_of :: "int \<Rightarrow> DeviceKind" where
  "kind_of n = (if n = 1 then DeviceKindWindowsHost else if n = 2 then DeviceKindMobileClient
     else if n = 3 then DeviceKindCLI else DeviceKindUnknown)"

fun state_int :: "SessionState \<Rightarrow> int" where
  "state_int SessionStateUnknown = 0"
| "state_int SessionStateSettingUp = 1"
| "state_int SessionStateConnected = 2"
| "state_int SessionStateDisconnected = 3"
| "state_int SessionStateExpired = 4"
| "state_int SessionStateClosed = 5"

definition state_of :: "int \<Rightarrow> SessionState" where
  "state_of n = (if n = 1 then SessionStateSettingUp else if n = 2 then SessionStateConnected
     else if n = 3 then SessionStateDisconnected else if n = 4 then SessionStateExpired
     else if n = 5 then SessionStateClosed else SessionStateUnknown)"

lemma enums_inverse [simp]: "provider_of (provider_int p) = p" "kind_of (kind_int k) = k" "state_of (state_int s) = s"
  by (cases p; cases k; cases s; simp add: provider_of_def kind_of_def state_of_def)+

definition lift_err :: "fs_err + 'a \<Rightarrow> store_err + 'a" where
  "lift_err r = (case r of Inl e \<Rightarrow> Inl (store_err_of e) | Inr x \<Rightarrow> Inr x)"

section \<open>Users\<close>

definition fs_PutUser :: "'db fs_ops \<Rightarrow> 'db \<Rightarrow> User \<Rightarrow> store_err + 'db" where
  "fs_PutUser ops db u =
     lift_err (fs_Set ops db (userDoc (u_ID u))
       [(''auth_provider'', FInt (provider_int (u_AuthProvider u))), (''created_at'', FTime (u_CreatedAt u))])"

definition fs_GetUser :: "'db fs_ops \<Rightarrow> 'db \<Rightarrow> string \<Rightarrow> store_err + User" where
  "fs_GetUser ops db i =
     (case fs_Get ops db (userDoc i) of
        Inl e \<Rightarrow> if isNotFound (Some e) then Inl ErrNotFound else Inl (store_err_of e)
      | Inr d \<Rightarrow> Inr \<lparr>u_ID = i, u_AuthProvider = provider_of (asInt (d ''auth_provider'')), u_CreatedAt = asTime (d ''created_at'')\<rparr>)"

section \<open>Devices\<close>

definition fs_PutDevice :: "'db fs_ops \<Rightarrow> 'db \<Rightarrow> Device \<Rightarrow> store_err + 'db" where
  "fs_PutDevice ops db d =
     lift_err (fs_Set ops db (userDoc (d_OwnerUserID d) @ [''devices'', d_ID d])
       [(''public_key'', FBytes (d_PublicKey d)), (''kind'', FInt (kind_int (d_Kind d))),
        (''display_name'', FStr (d_DisplayName d)), (''created_at'', FTime (d_CreatedAt d)),
        (''last_seen_at'', FTime (d_LastSeenAt d))])"

definition fs_scanDevice :: "string \<Rightarrow> string \<Rightarrow> fs_data \<Rightarrow> Device" where
  "fs_scanDevice i ownerID d =
     \<lparr>d_ID = i, d_PublicKey = asBytes (d ''public_key''), d_OwnerUserID = ownerID, d_Kind = kind_of (asInt (d ''kind'')),
      d_DisplayName = asString (d ''display_name''), d_CreatedAt = asTime (d ''created_at''),
      d_LastSeenAt = asTime (d ''last_seen_at'')\<rparr>"

text \<open>The loop over the documents of a group: the first with the ID, unless an error comes before it.\<close>

fun first_with_id :: "string \<Rightarrow> (fs_err + (string \<times> string \<times> fs_data)) list \<Rightarrow> store_err + (string \<times> fs_data)" where
  "first_with_id i [] = Inl ErrNotFound"
| "first_with_id i (Inl e # ds) = Inl (store_err_of e)"
| "first_with_id i (Inr (parent, i', d) # ds) = (if i' \<noteq> i then first_with_id i ds else Inr (parent, d))"

definition fs_GetDevice :: "'db fs_ops \<Rightarrow> 'db \<Rightarrow> string \<Rightarrow> store_err + Device" where
  "fs_GetDevice ops db i =
     (case first_with_id i (fs_Group ops db ''devices'') of Inl e \<Rightarrow> Inl e | Inr (own, d) \<Rightarrow> Inr (fs_scanDevice i own d))"

definition fs_ListDevicesByOwner :: "'db fs_ops \<Rightarrow> 'db \<Rightarrow> string \<Rightarrow> store_err + Device list" where
  "fs_ListDevicesByOwner ops db userID =
     (case fs_Documents ops db (userDoc userID @ [''devices'']) of
        Inl e \<Rightarrow> Inl (store_err_of e)
      | Inr ds \<Rightarrow> Inr (map (\<lambda>(i, d). fs_scanDevice i userID d) ds))"

definition fs_DeleteDevice :: "'db fs_ops \<Rightarrow> 'db \<Rightarrow> string \<Rightarrow> store_err + 'db" where
  "fs_DeleteDevice ops db i =
     (case fs_GetDevice ops db i of
        Inl e \<Rightarrow> Inl e
      | Inr d \<Rightarrow> lift_err (fs_Delete ops db (userDoc (d_OwnerUserID d) @ [''devices'', i])))"

section \<open>Sessions\<close>

definition fs_PutSession :: "'db fs_ops \<Rightarrow> 'db \<Rightarrow> Session \<Rightarrow> store_err + 'db" where
  "fs_PutSession ops db s =
     lift_err (fs_Set ops db (userDoc (s_UserID s) @ [''sessions'', s_ID s])
       [(''mobile_device_id'', FStr (s_MobileDeviceID s)), (''host_device_id'', FStr (s_HostDeviceID s)),
        (''state'', FInt (state_int (s_State s))), (''created_at'', FTime (s_CreatedAt s)),
        (''last_active_at'', FTime (s_LastActiveAt s)), (''idle_deadline_at'', FTime (s_IdleDeadlineAt s))])"

definition fs_GetSession :: "'db fs_ops \<Rightarrow> 'db \<Rightarrow> string \<Rightarrow> store_err + Session" where
  "fs_GetSession ops db i =
     (case first_with_id i (fs_Group ops db ''sessions'') of
        Inl e \<Rightarrow> Inl e
      | Inr (userID, d) \<Rightarrow>
          Inr \<lparr>s_ID = i, s_UserID = userID, s_MobileDeviceID = asString (d ''mobile_device_id''),
               s_HostDeviceID = asString (d ''host_device_id''), s_State = state_of (asInt (d ''state'')),
               s_CreatedAt = asTime (d ''created_at''), s_LastActiveAt = asTime (d ''last_active_at''),
               s_IdleDeadlineAt = asTime (d ''idle_deadline_at'')\<rparr>)"

definition fs_DeleteSession :: "'db fs_ops \<Rightarrow> 'db \<Rightarrow> string \<Rightarrow> store_err + 'db" where
  "fs_DeleteSession ops db i =
     (case fs_GetSession ops db i of
        Inl e \<Rightarrow> Inl e
      | Inr s \<Rightarrow> lift_err (fs_Delete ops db (userDoc (s_UserID s) @ [''sessions'', i])))"

section \<open>Keys and pairings\<close>

definition fs_PutPSKRecord :: "'db \<Rightarrow> PSKRecord \<Rightarrow> store_err + 'db" where
  "fs_PutPSKRecord db r = Inl StoreFailure"

definition fs_GetPSKRecord :: "'db \<Rightarrow> string \<Rightarrow> store_err + PSKRecord" where
  "fs_GetPSKRecord db i = Inl ErrNotFound"

definition fs_ListPSKRecords :: "'db \<Rightarrow> store_err + PSKRecord list" where
  "fs_ListPSKRecords db = Inr []"

definition fs_DeletePSKRecord :: "'db \<Rightarrow> string \<Rightarrow> store_err + 'db" where
  "fs_DeletePSKRecord db i = Inl ErrNotFound"

definition pairingID :: "string \<Rightarrow> string \<Rightarrow> string" where
  "pairingID mobile h = mobile @ ''__'' @ h"

definition fs_PutPairing :: "'db fs_ops \<Rightarrow> 'db \<Rightarrow> Pairing \<Rightarrow> store_err + 'db" where
  "fs_PutPairing ops db p =
     lift_err (fs_Set ops db (userDoc (p_UserID p) @ [''pairings'', pairingID (p_MobileDeviceID p) (p_HostDeviceID p)])
       [(''mobile_device_id'', FStr (p_MobileDeviceID p)), (''host_device_id'', FStr (p_HostDeviceID p)),
        (''created_at'', FTime (p_CreatedAt p)), (''last_used_at'', FTime (p_LastUsedAt p))])"

definition fs_scanPairing :: "string \<Rightarrow> fs_data \<Rightarrow> Pairing" where
  "fs_scanPairing userID d =
     \<lparr>p_UserID = userID, p_MobileDeviceID = asString (d ''mobile_device_id''), p_HostDeviceID = asString (d ''host_device_id''),
      p_CreatedAt = asTime (d ''created_at''), p_LastUsedAt = asTime (d ''last_used_at'')\<rparr>"

definition fs_GetPairing :: "'db fs_ops \<Rightarrow> 'db \<Rightarrow> string \<Rightarrow> string \<Rightarrow> string \<Rightarrow> store_err + Pairing" where
  "fs_GetPairing ops db userID mobile h =
     (case fs_Get ops db (userDoc userID @ [''pairings'', pairingID mobile h]) of
        Inl e \<Rightarrow> if isNotFound (Some e) then Inl ErrNotFound else Inl (store_err_of e)
      | Inr d \<Rightarrow> Inr (fs_scanPairing userID d))"

definition fs_ListPairingsByUser :: "'db fs_ops \<Rightarrow> 'db \<Rightarrow> string \<Rightarrow> store_err + Pairing list" where
  "fs_ListPairingsByUser ops db userID =
     (case fs_Documents ops db (userDoc userID @ [''pairings'']) of
        Inl e \<Rightarrow> Inl (store_err_of e)
      | Inr ds \<Rightarrow> Inr (map (\<lambda>(i, d). fs_scanPairing userID d) ds))"

definition fs_DeletePairing :: "'db fs_ops \<Rightarrow> 'db \<Rightarrow> string \<Rightarrow> string \<Rightarrow> string \<Rightarrow> store_err + 'db" where
  "fs_DeletePairing ops db userID mobile h =
     (case fs_Delete ops db (userDoc userID @ [''pairings'', pairingID mobile h]) of
        Inl e \<Rightarrow> if isNotFound (Some e) then Inl ErrNotFound else Inl (store_err_of e)
      | Inr db' \<Rightarrow> Inr db')"

section \<open>What the database promises\<close>

definition micro :: "time \<Rightarrow> time" where
  "micro t = t - t mod 1000"

definition fs_stored :: "fs_value \<Rightarrow> fs_value" where
  "fs_stored v = (case v of FTime t \<Rightarrow> FTime (micro t) | _ \<Rightarrow> v)"

definition merged :: "fs_data option \<Rightarrow> (string \<times> fs_value) list \<Rightarrow> fs_data" where
  "merged old fds k =
     (case map_of fds k of Some v \<Rightarrow> Some (fs_stored v) | None \<Rightarrow> (case old of None \<Rightarrow> None | Some d \<Rightarrow> d k))"

text \<open>\<open>docs db\<close> are the documents \<open>db\<close> holds. The laws speak of the calls that return, and of no other.\<close>

definition firestore_laws :: "'db fs_ops \<Rightarrow> ('db \<Rightarrow> fs_path \<rightharpoonup> fs_data) \<Rightarrow> bool" where
  "firestore_laws ops docs \<longleftrightarrow>
     (\<forall>db p f db'. fs_Set ops db p f = Inr db' \<longrightarrow> docs db' = (docs db)(p \<mapsto> merged (docs db p) f))
   \<and> (\<forall>db p d. fs_Get ops db p = Inr d \<longrightarrow> docs db p = Some d)
   \<and> (\<forall>db p. fs_Get ops db p = Inl FsNotFound \<longrightarrow> docs db p = None)
   \<and> (\<forall>db p db'. fs_Delete ops db p = Inr db' \<longrightarrow> docs db' = (docs db)(p := None))
   \<and> (\<forall>db p. fs_Delete ops db p \<noteq> Inl FsNotFound)
   \<and> (\<forall>db c l. fs_Documents ops db c = Inr l \<longrightarrow> (\<forall>i d. (i, d) \<in> set l \<longleftrightarrow> docs db (c @ [i]) = Some d))
   \<and> (\<forall>db n. let l = fs_Group ops db n in
        (\<forall>par i d. Inr (par, i, d) \<in> set l \<longrightarrow> (\<exists>pre. docs db (pre @ [par, n, i]) = Some d))
      \<and> ((\<forall>e. Inl e \<notin> set l) \<longrightarrow> (\<forall>pre par i d. docs db (pre @ [par, n, i]) = Some d \<longrightarrow> Inr (par, i, d) \<in> set l)))"

lemma laws_documents:
  "firestore_laws ops docs \<Longrightarrow> fs_Documents ops db c = Inr l \<Longrightarrow> (i, d) \<in> set l \<longleftrightarrow> docs db (c @ [i]) = Some d"
  unfolding firestore_laws_def by blast

text \<open>The store's own documents are users and the documents in their collections.\<close>

definition paths_ok :: "(fs_path \<rightharpoonup> fs_data) \<Rightarrow> bool" where
  "paths_ok docs \<longleftrightarrow> (\<forall>p \<in> dom docs. (\<exists>u. p = [''users'', u]) \<or> (\<exists>u c i. p = [''users'', u, c, i]))"

lemma paths_ok_upd: "paths_ok docs \<Longrightarrow> paths_ok (docs([''users'', u] \<mapsto> d))" "paths_ok docs \<Longrightarrow> paths_ok (docs([''users'', u, c, i] \<mapsto> d))"
  by (auto simp: paths_ok_def)

lemma paths_ok_del: "paths_ok docs \<Longrightarrow> paths_ok (docs(p := None))"
  by (auto simp: paths_ok_def)

lemma group_doc:
  assumes "paths_ok docs" "docs (pre @ [par, n, i]) = Some d"
  shows "pre = [''users'']"
proof -
  have "pre @ [par, n, i] \<in> dom docs" using assms(2) by auto
  then obtain u c j where "pre @ [par, n, i] = [''users'', u] \<or> pre @ [par, n, i] = [''users'', u, c, j]"
    using assms(1) unfolding paths_ok_def by blast
  then show ?thesis
  proof
    assume e: "pre @ [par, n, i] = [''users'', u, c, j]"
    from arg_cong [OF e, of length] have "length pre = Suc 0" by simp
    then obtain x where "pre = [x]" by (auto simp: length_Suc_conv)
    with e show ?thesis by simp
  qed (auto dest: arg_cong [of _ _ length])
qed

lemma first_with_id_Inr: "first_with_id i ds = Inr (par, d) \<Longrightarrow> Inr (par, i, d) \<in> set ds"
  by (induction i ds rule: first_with_id.induct) (auto split: if_splits)

lemma first_with_id_Inl:
  "first_with_id i ds = Inl e \<Longrightarrow> e = StoreFailure \<or> (\<forall>e. Inl e \<notin> set ds) \<and> (\<forall>par d. Inr (par, i, d) \<notin> set ds)"
  by (induction i ds rule: first_with_id.induct) (auto simp: store_err_of_def split: if_splits)

lemma group_first:
  assumes "firestore_laws ops docs" "paths_ok (docs db)"
  shows "first_with_id i (fs_Group ops db n) = Inr (u, d) \<Longrightarrow> docs db [''users'', u, n, i] = Some d"
    and "first_with_id i (fs_Group ops db n) = Inl e \<Longrightarrow> e \<noteq> StoreFailure \<Longrightarrow> docs db [''users'', u, n, i] = None"
proof -
  let ?l = "fs_Group ops db n"
  have sound: "Inr (par, i, d) \<in> set ?l \<Longrightarrow> \<exists>pre. docs db (pre @ [par, n, i]) = Some d"
    and complete: "\<forall>e. Inl e \<notin> set ?l \<Longrightarrow> docs db (pre @ [par, n, i]) = Some d \<Longrightarrow> Inr (par, i, d) \<in> set ?l" for pre par i d
    using assms(1) unfolding firestore_laws_def Let_def by blast+
  show "docs db [''users'', u, n, i] = Some d" if "first_with_id i ?l = Inr (u, d)"
  proof -
    from first_with_id_Inr [OF that] obtain pre where "docs db (pre @ [u, n, i]) = Some d" using sound by blast
    with group_doc [OF assms(2)] show ?thesis by fastforce
  qed
  show "docs db [''users'', u, n, i] = None" if "first_with_id i ?l = Inl e" "e \<noteq> StoreFailure"
  proof (rule ccontr)
    assume "docs db [''users'', u, n, i] \<noteq> None"
    then obtain d where "docs db ([''users''] @ [u, n, i]) = Some d" by auto
    then show False using complete first_with_id_Inl [OF that(1)] that(2) by blast
  qed
qed

section \<open>What was put is read back\<close>

lemma put_docs: "firestore_laws ops docs \<Longrightarrow> lift_err (fs_Set ops db p f) = Inr db' \<Longrightarrow> docs db' = (docs db)(p \<mapsto> merged (docs db p) f)"
  by (auto simp: firestore_laws_def lift_err_def split: sum.splits)

lemma get_doc:
  assumes "firestore_laws ops docs" "docs db p = Some d"
  shows "fs_Get ops db p = Inr d \<or> fs_Get ops db p = Inl FsFailure"
proof (cases "fs_Get ops db p")
  case (Inl e)
  then show ?thesis using assms by (cases e) (auto simp: firestore_laws_def)
next
  case (Inr d')
  then show ?thesis using assms by (auto simp: firestore_laws_def)
qed

lemma fs_user_back:
  assumes "firestore_laws ops docs" "fs_PutUser ops db u = Inr db'"
  shows "fs_GetUser ops db' (u_ID u) \<in> {Inr (u\<lparr>u_CreatedAt := micro (u_CreatedAt u)\<rparr>), Inl StoreFailure}"
  using get_doc [OF assms(1), of db' "userDoc (u_ID u)"] put_docs [OF assms(1) assms(2) [unfolded fs_PutUser_def]]
  by (auto simp: fs_GetUser_def merged_def fs_stored_def asInt_def asTime_def isNotFound_def store_err_of_def)

lemma fs_pairing_back:
  assumes "firestore_laws ops docs" "fs_PutPairing ops db x = Inr db'"
  shows "fs_GetPairing ops db' (p_UserID x) (p_MobileDeviceID x) (p_HostDeviceID x)
    \<in> {Inr (x\<lparr>p_CreatedAt := micro (p_CreatedAt x), p_LastUsedAt := micro (p_LastUsedAt x)\<rparr>), Inl StoreFailure}"
  using get_doc [OF assms(1), of db' "userDoc (p_UserID x) @ [''pairings'', pairingID (p_MobileDeviceID x) (p_HostDeviceID x)]"]
    put_docs [OF assms(1) assms(2) [unfolded fs_PutPairing_def]]
  by (auto simp: fs_GetPairing_def fs_scanPairing_def merged_def fs_stored_def asString_def asTime_def isNotFound_def store_err_of_def)

lemma sole_owner:
  assumes laws: "firestore_laws ops docs" and paths: "paths_ok (docs db)" and "docs db [''users'', u, n, i] = Some d"
    and "\<forall>v. v \<noteq> u \<longrightarrow> docs db [''users'', v, n, i] = None"
  shows "first_with_id i (fs_Group ops db n) \<in> {Inr (u, d), Inl StoreFailure}"
proof (cases "first_with_id i (fs_Group ops db n)")
  case (Inl e)
  then show ?thesis using group_first(2) [OF laws paths Inl, of u] assms(3) by auto
next
  case (Inr vd)
  obtain v d' where v: "vd = (v, d')" by fastforce
  then have "docs db [''users'', v, n, i] = Some d'" using group_first(1) [OF laws paths] Inr by simp
  then show ?thesis using assms(3,4) Inr v by (cases "v = u") auto
qed

lemma fs_device_back:
  assumes laws: "firestore_laws ops docs" and paths: "paths_ok (docs db)" and put: "fs_PutDevice ops db x = Inr db'"
    and sole: "\<forall>v. v \<noteq> d_OwnerUserID x \<longrightarrow> docs db [''users'', v, ''devices'', d_ID x] = None"
  shows "fs_GetDevice ops db' (d_ID x)
    \<in> {Inr (x\<lparr>d_CreatedAt := micro (d_CreatedAt x), d_LastSeenAt := micro (d_LastSeenAt x)\<rparr>), Inl StoreFailure}"
proof -
  let ?p = "[''users'', d_OwnerUserID x, ''devices'', d_ID x]"
  obtain d where d: "docs db' = (docs db)(?p \<mapsto> d)" and dx: "d = merged (docs db ?p)
      [(''public_key'', FBytes (d_PublicKey x)), (''kind'', FInt (kind_int (d_Kind x))), (''display_name'', FStr (d_DisplayName x)),
       (''created_at'', FTime (d_CreatedAt x)), (''last_seen_at'', FTime (d_LastSeenAt x))]"
    using put_docs [OF laws put [unfolded fs_PutDevice_def]] by (simp add: userDoc_def)
  have "first_with_id (d_ID x) (fs_Group ops db' ''devices'') \<in> {Inr (d_OwnerUserID x, d), Inl StoreFailure}"
    by (rule sole_owner [OF laws]) (use d sole paths paths_ok_upd in auto)
  then show ?thesis
    by (auto simp: fs_GetDevice_def fs_scanDevice_def dx merged_def fs_stored_def asInt_def asTime_def asString_def asBytes_def)
qed

lemma fs_session_back:
  assumes laws: "firestore_laws ops docs" and paths: "paths_ok (docs db)" and put: "fs_PutSession ops db x = Inr db'"
    and sole: "\<forall>v. v \<noteq> s_UserID x \<longrightarrow> docs db [''users'', v, ''sessions'', s_ID x] = None"
  shows "fs_GetSession ops db' (s_ID x)
    \<in> {Inr (x\<lparr>s_CreatedAt := micro (s_CreatedAt x), s_LastActiveAt := micro (s_LastActiveAt x),
              s_IdleDeadlineAt := micro (s_IdleDeadlineAt x)\<rparr>), Inl StoreFailure}"
proof -
  let ?p = "[''users'', s_UserID x, ''sessions'', s_ID x]"
  obtain d where d: "docs db' = (docs db)(?p \<mapsto> d)" and dx: "d = merged (docs db ?p)
       [(''mobile_device_id'', FStr (s_MobileDeviceID x)), (''host_device_id'', FStr (s_HostDeviceID x)),
        (''state'', FInt (state_int (s_State x))), (''created_at'', FTime (s_CreatedAt x)),
        (''last_active_at'', FTime (s_LastActiveAt x)), (''idle_deadline_at'', FTime (s_IdleDeadlineAt x))]"
    using put_docs [OF laws put [unfolded fs_PutSession_def]] by (simp add: userDoc_def)
  have "first_with_id (s_ID x) (fs_Group ops db' ''sessions'') \<in> {Inr (s_UserID x, d), Inl StoreFailure}"
    by (rule sole_owner [OF laws]) (use d sole paths paths_ok_upd in auto)
  then show ?thesis
    by (auto simp: fs_GetSession_def dx merged_def fs_stored_def asInt_def asTime_def asString_def)
qed

text \<open>A record that Firestore accepted reads back as it was written, its times to the microsecond, when the
  database answers at all: users and pairings by their keys, devices and sessions by their ID alone as
  long as no other user has a document with that ID.\<close>

theorem firestore_roundtrip:
  assumes laws: "firestore_laws ops docs" and paths: "paths_ok (docs db)"
  shows "(\<forall>u db'. fs_PutUser ops db u = Inr db' \<longrightarrow>
        fs_GetUser ops db' (u_ID u) \<in> {Inr (u\<lparr>u_CreatedAt := micro (u_CreatedAt u)\<rparr>), Inl StoreFailure})
    \<and> (\<forall>x db'. fs_PutDevice ops db x = Inr db' \<and> (\<forall>v. v \<noteq> d_OwnerUserID x \<longrightarrow> docs db [''users'', v, ''devices'', d_ID x] = None) \<longrightarrow>
        fs_GetDevice ops db' (d_ID x)
          \<in> {Inr (x\<lparr>d_CreatedAt := micro (d_CreatedAt x), d_LastSeenAt := micro (d_LastSeenAt x)\<rparr>), Inl StoreFailure})
    \<and> (\<forall>x db'. fs_PutSession ops db x = Inr db' \<and> (\<forall>v. v \<noteq> s_UserID x \<longrightarrow> docs db [''users'', v, ''sessions'', s_ID x] = None) \<longrightarrow>
        fs_GetSession ops db' (s_ID x)
          \<in> {Inr (x\<lparr>s_CreatedAt := micro (s_CreatedAt x), s_LastActiveAt := micro (s_LastActiveAt x),
                    s_IdleDeadlineAt := micro (s_IdleDeadlineAt x)\<rparr>), Inl StoreFailure})
    \<and> (\<forall>x db'. fs_PutPairing ops db x = Inr db' \<longrightarrow>
        fs_GetPairing ops db' (p_UserID x) (p_MobileDeviceID x) (p_HostDeviceID x)
          \<in> {Inr (x\<lparr>p_CreatedAt := micro (p_CreatedAt x), p_LastUsedAt := micro (p_LastUsedAt x)\<rparr>), Inl StoreFailure})"
  using fs_user_back [OF laws] fs_device_back [OF laws paths] fs_session_back [OF laws paths] fs_pairing_back [OF laws] by blast

section \<open>Every document is well typed\<close>

definition is_int :: "fs_value option \<Rightarrow> bool" where
  "is_int v \<longleftrightarrow> (case v of Some (FInt _) \<Rightarrow> True | _ \<Rightarrow> False)"

definition is_str :: "fs_value option \<Rightarrow> bool" where
  "is_str v \<longleftrightarrow> (case v of Some (FStr _) \<Rightarrow> True | _ \<Rightarrow> False)"

definition is_bytes :: "fs_value option \<Rightarrow> bool" where
  "is_bytes v \<longleftrightarrow> (case v of Some (FBytes _) \<Rightarrow> True | _ \<Rightarrow> False)"

definition is_time :: "fs_value option \<Rightarrow> bool" where
  "is_time v \<longleftrightarrow> (case v of Some (FTime _) \<Rightarrow> True | _ \<Rightarrow> False)"

text \<open>The types of the fields the readers expect of a document at a place, and of a pairing that its place
  follows from its fields.\<close>

definition typed_doc :: "fs_path \<Rightarrow> fs_data \<Rightarrow> bool" where
  "typed_doc p d \<longleftrightarrow>
     (case p of
        [c, u] \<Rightarrow> c = ''users'' \<and> is_int (d ''auth_provider'') \<and> is_time (d ''created_at'')
      | [c, u, sub, i] \<Rightarrow>
          c = ''users'' \<and>
          (sub = ''devices'' \<and> is_bytes (d ''public_key'') \<and> is_int (d ''kind'') \<and> is_str (d ''display_name'')
             \<and> is_time (d ''created_at'') \<and> is_time (d ''last_seen_at'')
           \<or> sub = ''sessions'' \<and> is_str (d ''mobile_device_id'') \<and> is_str (d ''host_device_id'') \<and> is_int (d ''state'')
             \<and> is_time (d ''created_at'') \<and> is_time (d ''last_active_at'') \<and> is_time (d ''idle_deadline_at'')
           \<or> sub = ''pairings'' \<and> is_str (d ''mobile_device_id'') \<and> is_str (d ''host_device_id'')
             \<and> is_time (d ''created_at'') \<and> is_time (d ''last_used_at'')
             \<and> i = pairingID (asString (d ''mobile_device_id'')) (asString (d ''host_device_id'')))
      | _ \<Rightarrow> False)"

definition typed_docs :: "(fs_path \<rightharpoonup> fs_data) \<Rightarrow> bool" where
  "typed_docs docs \<longleftrightarrow> (\<forall>p d. docs p = Some d \<longrightarrow> typed_doc p d)"

text \<open>One operation of the interface; after an error the database is as it was.\<close>

fun fs_exec :: "'db fs_ops \<Rightarrow> 'db \<Rightarrow> store_op \<Rightarrow> 'db \<times> store_res" where
  "fs_exec ops db (OPutDevice d) = updated db (fs_PutDevice ops db d)"
| "fs_exec ops db (OGetDevice i) = answered db RDevice (fs_GetDevice ops db i)"
| "fs_exec ops db (OListDevicesByOwner u) = answered db (RDevices \<circ> set) (fs_ListDevicesByOwner ops db u)"
| "fs_exec ops db (ODeleteDevice i) = updated db (fs_DeleteDevice ops db i)"
| "fs_exec ops db (OPutSession x) = updated db (fs_PutSession ops db x)"
| "fs_exec ops db (OGetSession i) = answered db RSession (fs_GetSession ops db i)"
| "fs_exec ops db (ODeleteSession i) = updated db (fs_DeleteSession ops db i)"
| "fs_exec ops db (OPutUser u) = updated db (fs_PutUser ops db u)"
| "fs_exec ops db (OGetUser i) = answered db RUser (fs_GetUser ops db i)"
| "fs_exec ops db (OPutPSKRecord r) = updated db (fs_PutPSKRecord db r)"
| "fs_exec ops db (OGetPSKRecord u) = answered db RPSK (fs_GetPSKRecord db u)"
| "fs_exec ops db OListPSKRecords = answered db (RPSKs \<circ> set) (fs_ListPSKRecords db)"
| "fs_exec ops db (ODeletePSKRecord u) = updated db (fs_DeletePSKRecord db u)"
| "fs_exec ops db (OPutPairing p) = updated db (fs_PutPairing ops db p)"
| "fs_exec ops db (OGetPairing k) = answered db RPairing (case k of (u, m, h) \<Rightarrow> fs_GetPairing ops db u m h)"
| "fs_exec ops db (OListPairingsByUser u) = answered db (RPairings \<circ> set) (fs_ListPairingsByUser ops db u)"
| "fs_exec ops db (ODeletePairing k) = updated db (case k of (u, m, h) \<Rightarrow> fs_DeletePairing ops db u m h)"

fun fs_run :: "'db fs_ops \<Rightarrow> 'db \<Rightarrow> store_op list \<Rightarrow> 'db" where
  "fs_run ops db [] = db"
| "fs_run ops db (x # xs) = fs_run ops (fst (fs_exec ops db x)) xs"

lemma typed_put: "typed_docs docs \<Longrightarrow> typed_doc p d \<Longrightarrow> typed_docs (docs(p \<mapsto> d))"
  by (simp add: typed_docs_def)

lemma typed_del: "typed_docs docs \<Longrightarrow> typed_docs (docs(p := None))"
  by (simp add: typed_docs_def)

lemma del_docs: "firestore_laws ops docs \<Longrightarrow> fs_Delete ops db p = Inr db' \<Longrightarrow> docs db' = (docs db)(p := None)"
  by (simp add: firestore_laws_def)

lemmas typed_defs = typed_doc_def merged_def fs_stored_def is_int_def is_str_def is_bytes_def is_time_def userDoc_def asString_def

lemma typed_fields:
  "typed_doc (userDoc u) (merged old [(''auth_provider'', FInt n), (''created_at'', FTime t)])"
  "typed_doc (userDoc u @ [''devices'', i]) (merged old [(''public_key'', FBytes b), (''kind'', FInt n), (''display_name'', FStr x),
     (''created_at'', FTime t), (''last_seen_at'', FTime t')])"
  "typed_doc (userDoc u @ [''sessions'', i]) (merged old [(''mobile_device_id'', FStr m), (''host_device_id'', FStr h), (''state'', FInt n),
     (''created_at'', FTime t), (''last_active_at'', FTime t'), (''idle_deadline_at'', FTime t'')])"
  "typed_doc (userDoc u @ [''pairings'', pairingID m h]) (merged old [(''mobile_device_id'', FStr m), (''host_device_id'', FStr h),
     (''created_at'', FTime t), (''last_used_at'', FTime t')])"
  by (simp_all add: typed_defs)

lemma fs_put_typed:
  assumes "firestore_laws ops docs" "typed_docs (docs db)" "fs_Set ops db p f = Inr db'" "typed_doc p (merged (docs db p) f)"
  shows "typed_docs (docs db')"
  using assms(1,3) typed_put [OF assms(2,4)] by (simp add: firestore_laws_def)

lemma fs_exec_typed:
  assumes laws: "firestore_laws ops docs" and typed: "typed_docs (docs db)"
  shows "typed_docs (docs (fst (fs_exec ops db x)))"
proof -
  note put = fs_put_typed [OF laws typed]
  have del: "typed_docs (docs db')" if "fs_Delete ops db p = Inr db'" for p db'
    using del_docs [OF laws that] typed_del [OF typed] by simp
  have upd: "typed_docs (docs (fst (updated db r)))" if "\<And>db'. r = Inr db' \<Longrightarrow> typed_docs (docs db')" for r
    using that typed by (auto simp: updated_def split: sum.splits)
  have ans: "fst (answered db f r) = db" for f r by (simp add: answered_def)
  show ?thesis
    by (cases x) (auto simp: ans typed fs_PutPSKRecord_def fs_DeletePSKRecord_def intro!: upd,
      auto simp: fs_PutDevice_def fs_PutSession_def fs_PutUser_def fs_PutPairing_def fs_DeleteDevice_def fs_DeleteSession_def
        fs_DeletePairing_def lift_err_def split: sum.splits if_splits prod.splits
        dest: del put [OF _ typed_fields(1)] put [OF _ typed_fields(2)] put [OF _ typed_fields(3)] put [OF _ typed_fields(4)])
qed


text \<open>An instance of the laws: the documents in an association list.\<close>

definition demo_ops :: "(fs_path, fs_data) gomap fs_ops" where
  "demo_ops = \<lparr>fs_Set = (\<lambda>db p f. Inr (gm_put p (merged (gm_get db p) f) db)),
     fs_Get = (\<lambda>db p. case gm_get db p of None \<Rightarrow> Inl FsNotFound | Some d \<Rightarrow> Inr d),
     fs_Delete = (\<lambda>db p. Inr (gm_del p db)),
     fs_Documents = (\<lambda>db c. Inr [(last p, d). (p, d) \<leftarrow> AList.clearjunk db, p \<noteq> [] \<and> butlast p = c]),
     fs_Group = (\<lambda>db n. [Inr (p ! (length p - 3), last p, d). (p, d) \<leftarrow> AList.clearjunk db,
        3 \<le> length p \<and> p ! (length p - 2) = n])\<rparr>"

lemma in_clearjunk: "(p, d) \<in> set (AList.clearjunk db) \<longleftrightarrow> gm_get db p = Some d"
  by (metis distinct_clearjunk map_of_clearjunk map_of_eq_Some_iff)

lemma path_of_three: "3 \<le> length p \<Longrightarrow> p = take (length p - 3) p @ [p ! (length p - 3), p ! (length p - 2), last p]"
proof (induction p)
  case (Cons a p)
  show ?case
  proof (cases "length p = 2")
    case True
    then obtain x y where "p = [x, y]" by (auto simp: length_Suc_conv numeral_2_eq_2)
    then show ?thesis by simp
  next
    case False
    then have "3 \<le> length p" using Cons.prems by simp
    then have "length (a # p) - 3 = Suc (length p - 3)" "length (a # p) - 2 = Suc (length p - 2)" "last (a # p) = last p" by auto
    then show ?thesis using Cons.IH [OF \<open>3 \<le> length p\<close>] by simp
  qed
qed simp

lemma demo_laws: "firestore_laws demo_ops map_of"
proof -
  have docs: "(i, d) \<in> set [(last p, d). (p, d) \<leftarrow> AList.clearjunk db, p \<noteq> [] \<and> butlast p = c] \<longleftrightarrow> gm_get db (c @ [i]) = Some d"
    for db :: "(fs_path, fs_data) gomap" and c i d
  proof -
    have "(i, d) \<in> set [(last p, d). (p, d) \<leftarrow> AList.clearjunk db, p \<noteq> [] \<and> butlast p = c]
        \<longleftrightarrow> (\<exists>p. gm_get db p = Some d \<and> p \<noteq> [] \<and> butlast p = c \<and> i = last p)"
      by (auto simp: in_clearjunk)
    also have "\<dots> \<longleftrightarrow> gm_get db (c @ [i]) = Some d"
      by (metis append_butlast_last_id butlast_snoc last_snoc snoc_eq_iff_butlast)
    finally show ?thesis .
  qed
  have grp: "Inr (par, i, d) \<in> set (fs_Group demo_ops db n) \<longleftrightarrow> (\<exists>pre. gm_get db (pre @ [par, n, i]) = Some d)" (is "?l \<longleftrightarrow> ?r")
    for db :: "(fs_path, fs_data) gomap" and n par i d
  proof
    assume ?l
    then obtain p where "gm_get db p = Some d" "3 \<le> length p" "p ! (length p - 2) = n" "par = p ! (length p - 3)" "i = last p"
      by (auto simp: demo_ops_def in_clearjunk)
    then show ?r using path_of_three [of p] by metis
  next
    assume ?r
    then obtain pre where "gm_get db (pre @ [par, n, i]) = Some d" ..
    then show ?l by (auto simp: demo_ops_def in_clearjunk nth_append intro!: bexI [of _ "(pre @ [par, n, i], d)"])
  qed
  show ?thesis unfolding firestore_laws_def Let_def
  proof (intro conjI)
    show "\<forall>db n. (\<forall>par i d. Inr (par, i, d) \<in> set (fs_Group demo_ops db n) \<longrightarrow> (\<exists>pre. gm_get db (pre @ [par, n, i]) = Some d))
      \<and> ((\<forall>e. Inl e \<notin> set (fs_Group demo_ops db n)) \<longrightarrow>
         (\<forall>pre par i d. gm_get db (pre @ [par, n, i]) = Some d \<longrightarrow> Inr (par, i, d) \<in> set (fs_Group demo_ops db n)))"
      using grp by blast
  qed (use docs in \<open>auto simp: demo_ops_def update_conv' delete_conv' split: option.splits\<close>)
qed

lemma firestore_roundtrip_witness:
  "fs_GetUser demo_ops [([''users'', ''u''], merged None [(''auth_provider'', FInt 2), (''created_at'', FTime 5001)])] ''u''
    \<in> {Inr \<lparr>u_ID = ''u'', u_AuthProvider = AuthProviderPSK, u_CreatedAt = 5000\<rparr>, Inl StoreFailure}"
proof -
  let ?u = "\<lparr>u_ID = ''u'', u_AuthProvider = AuthProviderPSK, u_CreatedAt = 5001\<rparr>"
  have "fs_PutUser demo_ops [] ?u = Inr [([''users'', ''u''], merged None [(''auth_provider'', FInt 2), (''created_at'', FTime 5001)])]"
    by (simp add: fs_PutUser_def demo_ops_def lift_err_def userDoc_def)
  moreover have "paths_ok (map_of [])" by (simp add: paths_ok_def)
  ultimately show ?thesis using firestore_roundtrip [OF demo_laws, of "[]"] by (fastforce simp: micro_def)
qed


section \<open>Where it differs from the other stores\<close>

text \<open>A device that another user registers again does not change hands: the first owner's list keeps it.\<close>

lemma second_owner_keeps_first:
  assumes "firestore_laws ops docs" "docs db [''users'', a, ''devices'', d_ID x] = Some d" "d_OwnerUserID x \<noteq> a"
    and "fs_PutDevice ops db x = Inr db'" "fs_ListDevicesByOwner ops db' a = Inr ds"
  shows "\<exists>y \<in> set ds. d_ID y = d_ID x \<and> d_OwnerUserID y = a"
proof -
  have "docs db' [''users'', a, ''devices'', d_ID x] = Some d"
    using put_docs [OF assms(1) assms(4) [unfolded fs_PutDevice_def]] assms(2,3) by (simp add: userDoc_def)
  moreover obtain l where l: "fs_Documents ops db' [''users'', a, ''devices''] = Inr l" "ds = map (\<lambda>(i, d). fs_scanDevice i a d) l"
    using assms(5) by (auto simp: fs_ListDevicesByOwner_def userDoc_def split: sum.splits)
  ultimately have "(d_ID x, d) \<in> set l"
    using laws_documents [OF assms(1) l(1), of "d_ID x" d] by simp
  then show ?thesis using l(2) by (force simp: fs_scanDevice_def)
qed

text \<open>Deleting a pairing that does not exist succeeds, or fails for another reason; it never reports that
  the pairing was not found.\<close>

lemma delete_absent_pairing: "firestore_laws ops docs \<Longrightarrow> fs_DeletePairing ops db u m h \<noteq> Inl ErrNotFound"
  by (auto simp: fs_DeletePairing_def firestore_laws_def isNotFound_def store_err_of_def split: sum.splits)

text \<open>The ID of a pairing determines the devices when the first name has no underscore, as device IDs do not;
  other names may collide.\<close>

lemma pairingID_inj:
  assumes "CHR ''_'' \<notin> set m" "CHR ''_'' \<notin> set m'" "pairingID m h = pairingID m' h'"
  shows "m = m' \<and> h = h'"
proof -
  have tw: "takeWhile (\<lambda>c. c \<noteq> CHR ''_'') (pairingID n k) = n" if "CHR ''_'' \<notin> set n" for n k
    using that by (simp add: pairingID_def takeWhile_append)
  then have "m = m'" using assms by metis
  with assms(3) show ?thesis by (simp add: pairingID_def)
qed

lemma pairingID_collides: "pairingID ''a__b'' ''c'' = pairingID ''a'' ''b__c''"
  by (simp add: pairingID_def)

end
