(* ===== verification/Base64.thy ===== *)
theory Base64
  imports Peersh_Prelude
begin

text \<open>
  Go's \<^verbatim>\<open>encoding/base64\<close>, as far as the program uses it: the unpadded encoding with the alphabet for
  URLs and the padded encoding with the standard one, both over groups of three bytes. No
  definition here models a line of the repository.
\<close>

section \<open>Groups of six bits\<close>

fun base64_digits :: "nat list \<Rightarrow> nat list" where
  "base64_digits [] = []"
| "base64_digits [a] = [a div 4, (a mod 4) * 16]"
| "base64_digits [a, b] = [a div 4, (a mod 4) * 16 + b div 16, (b mod 16) * 4]"
| "base64_digits (a # b # c # r) = [a div 4, (a mod 4) * 16 + b div 16, (b mod 16) * 4 + c div 64, c mod 64] @ base64_digits r"

fun base64_bytes :: "nat list \<Rightarrow> nat list option" where
  "base64_bytes [] = Some []"
| "base64_bytes [w] = None"
| "base64_bytes [w, x] = Some [w * 4 + x div 16]"
| "base64_bytes [w, x, y] = Some [w * 4 + x div 16, (x mod 16) * 16 + y div 4]"
| "base64_bytes (w # x # y # z # r) =
     map_option ((@) [w * 4 + x div 16, (x mod 16) * 16 + y div 4, (y mod 4) * 64 + z]) (base64_bytes r)"

lemma base64_digits_less: "\<forall>x \<in> set xs. x < 256 \<Longrightarrow> \<forall>d \<in> set (base64_digits xs). d < 64"
  by (induction xs rule: base64_digits.induct) (auto simp: less_mult_imp_div_less)

lemma base64_bytes_digits: "\<forall>x \<in> set xs. x < 256 \<Longrightarrow> base64_bytes (base64_digits xs) = Some xs"
  by (induction xs rule: base64_digits.induct) (auto simp: less_mult_imp_div_less)

section \<open>Alphabets\<close>

text \<open>An alphabet is given by its last two characters.\<close>

definition base64_alphabet :: "char \<times> char \<Rightarrow> string" where
  "base64_alphabet e = ''ABCDEFGHIJKLMNOPQRSTUVWXYZabcdefghijklmnopqrstuvwxyz0123456789'' @ [fst e, snd e]"

definition base64_value :: "char \<times> char \<Rightarrow> char \<Rightarrow> nat option" where
  "base64_value e c =
     (let n = of_char c :: nat
      in if 65 \<le> n \<and> n \<le> 90 then Some (n - 65)
         else if 97 \<le> n \<and> n \<le> 122 then Some (n - 71)
         else if 48 \<le> n \<and> n \<le> 57 then Some (n + 4)
         else if c = fst e then Some 62 else if c = snd e then Some 63 else None)"

abbreviation url_chars :: "char \<times> char" where
  "url_chars \<equiv> (CHR ''-'', CHR ''_'')"

abbreviation std_chars :: "char \<times> char" where
  "std_chars \<equiv> (CHR ''+'', CHR ''/'')"

definition base64_text :: "char \<times> char \<Rightarrow> bytes \<Rightarrow> string" where
  "base64_text e bs = map (\<lambda>n. base64_alphabet e ! n) (base64_digits (map unat bs))"

text \<open>The decoder skips line ends and ignores the unused bits of the last group.\<close>

definition base64_parse :: "char \<times> char \<Rightarrow> string \<Rightarrow> bytes option" where
  "base64_parse e s =
     (let vs = map (base64_value e) (filter (\<lambda>c. c \<noteq> char_of (10 :: nat) \<and> c \<noteq> char_of (13 :: nat)) s)
      in if None \<in> set vs then None else map_option (map of_nat) (base64_bytes (map the vs)))"

lemma base64_alphabet_list:
  assumes "e = url_chars \<or> e = std_chars"
  shows "map (base64_value e) (base64_alphabet e) = map Some [0..<64]"
    and "list_all (\<lambda>c. visible c \<and> c \<noteq> CHR ''.'' \<and> c \<noteq> CHR ''='') (base64_alphabet e)"
  using assms by (auto simp: base64_alphabet_def base64_value_def visible_def upt_rec)

lemma length_base64_alphabet [simp]: "length (base64_alphabet e) = 64"
  by (simp add: base64_alphabet_def)

lemma base64_value_alphabet:
  assumes "e = url_chars \<or> e = std_chars" and "n < 64"
  shows "base64_value e (base64_alphabet e ! n) = Some n"
  using arg_cong [OF base64_alphabet_list(1) [OF assms(1)], of "\<lambda>l. l ! n"] assms(2) by simp

lemma base64_text_chars:
  assumes "e = url_chars \<or> e = std_chars"
  shows "list_all (\<lambda>c. visible c \<and> c \<noteq> CHR ''.'' \<and> c \<noteq> CHR ''='') (base64_text e bs)"
proof -
  have "\<forall>d \<in> set (base64_digits (map unat bs)). d < 64" by (rule base64_digits_less) auto
  then show ?thesis
    using base64_alphabet_list(2) [OF assms, unfolded list_all_length] by (auto simp: base64_text_def list_all_iff)
qed

lemma line_ends_not_visible: "visible c \<Longrightarrow> c \<noteq> char_of (10 :: nat) \<and> c \<noteq> char_of (13 :: nat)"
  by (auto simp: visible_def)

lemma base64_round_trip:
  assumes "e = url_chars \<or> e = std_chars"
  shows "base64_parse e (base64_text e bs) = Some bs"
proof -
  let ?ds = "base64_digits (map unat bs)"
  have d: "\<forall>d \<in> set ?ds. d < 64" by (rule base64_digits_less) auto
  have "filter (\<lambda>c. c \<noteq> char_of (10 :: nat) \<and> c \<noteq> char_of (13 :: nat)) (base64_text e bs) = base64_text e bs"
    using base64_text_chars [OF assms, of bs] line_ends_not_visible by (intro filter_True) (auto simp: list_all_iff)
  moreover have "map (base64_value e) (base64_text e bs) = map Some ?ds"
    using d base64_value_alphabet [OF assms] by (simp add: base64_text_def)
  moreover have "base64_bytes ?ds = Some (map unat bs)" by (rule base64_bytes_digits) auto
  moreover have "map the (map Some ?ds) = ?ds" and "None \<notin> set (map Some ?ds)" by (simp_all add: comp_def image_iff)
  moreover have "map of_nat (map unat bs) = bs" by (simp add: comp_def)
  ultimately show ?thesis unfolding base64_parse_def Let_def by (simp only: if_False option.map)
qed

section \<open>The encodings\<close>

definition RawURL_EncodeToString :: "bytes \<Rightarrow> string" where
  "RawURL_EncodeToString = base64_text url_chars"

definition RawURL_DecodeString :: "string \<Rightarrow> bytes option" where
  "RawURL_DecodeString = base64_parse url_chars"

definition Std_EncodeToString :: "bytes \<Rightarrow> string" where
  "Std_EncodeToString bs =
     (let s = base64_text std_chars bs in s @ replicate ((4 - length s mod 4) mod 4) (CHR ''=''))"

lemma RawURL_round_trip [simp]: "RawURL_DecodeString (RawURL_EncodeToString bs) = Some bs"
  by (simp add: RawURL_DecodeString_def RawURL_EncodeToString_def base64_round_trip)

lemma Std_round_trip: "base64_parse std_chars (filter (\<lambda>c. c \<noteq> CHR ''='') (Std_EncodeToString bs)) = Some bs"
proof -
  have "filter (\<lambda>c. c \<noteq> CHR ''='') (base64_text std_chars bs) = base64_text std_chars bs"
    using base64_text_chars [of std_chars bs] by (intro filter_True) (auto simp: list_all_iff)
  then show ?thesis by (simp add: Std_EncodeToString_def Let_def base64_round_trip)
qed

end
