(* ===== verification/Shell.thy ===== *)
theory Shell
  imports Files Base64
begin

text \<open>
  \<^verbatim>\<open>windows/shell/shell.go\<close>: which executable a shell name stands for and the arguments that make its
  prompt announce the working directory; and the part of \<^verbatim>\<open>ptyhost.Open\<close> that decides what to start.
  The search path, the file system and the environment are a record of functions.
\<close>

section \<open>Arguments\<close>

text \<open>\<^verbatim>\<open>utf16.Encode\<close> on code points.\<close>

definition utf16_Encode :: "nat list \<Rightarrow> u16 list" where
  "utf16_Encode rs = concat (map (\<lambda>r. if scalar r then utf16_units r else [0xFFFD]) rs)"

fun unix_line_ends :: "nat list \<Rightarrow> nat list" where
  "unix_line_ends (a # b # rs) = (if a = 13 \<and> b = 10 then 10 # unix_line_ends rs else a # unix_line_ends (b # rs))"
| "unix_line_ends rs = rs"

text \<open>The script is given by its code points.\<close>

definition encodePwshScript :: "nat list \<Rightarrow> string" where
  "encodePwshScript script =
     Std_EncodeToString (concat (map (unit_bytes False) (utf16_Encode (unix_line_ends script))))"

definition line_feed :: string where
  "line_feed = [char_of (10 :: nat)]"

definition powerShellWrapperScript :: string where
  "powerShellWrapperScript =
     concat (map (\<lambda>l. l @ line_feed)
       [''$global:_PeershPriorPrompt = (Get-Item function:prompt).ScriptBlock'',
        ''function global:prompt {'',
        ''  $base = & $global:_PeershPriorPrompt'',
        ''  if ($PWD.Provider.Name -eq '' @ [CHR 0x27] @ ''FileSystem'' @ [CHR 0x27] @ '') {'',
        ''    '' @ [CHR 0x22] @ ''$([char]27)]9;9;$($PWD.ProviderPath)$([char]7)$base'' @ [CHR 0x22],
        ''  } else {'',
        ''    $base'',
        ''  }'',
        ''}''])"

definition powerShellArgs :: "string list" where
  "powerShellArgs = [''-NoLogo'', ''-NoExit'', ''-EncodedCommand'', encodePwshScript (map of_char powerShellWrapperScript)]"

definition cmdArgs :: "string list" where
  "cmdArgs = [''/D'', ''/K'', ''prompt $E]9;9;$P$E'' @ [CHR 0x5C] @ ''$P$G '']"

section \<open>Resolution\<close>

record Resolved =
  sr_Path :: string
  sr_Args :: "string list"
  sr_Env :: "string list"

text \<open>\<open>sh_hook\<close> is the directory the hook files could be written to, and \<open>sh_candidate\<close> the full name of
  a program below the system root (by its path components).\<close>

record shell_env =
  sh_windows :: bool
  sh_Getenv :: "string \<Rightarrow> string"
  sh_LookPath :: "string \<Rightarrow> string option"
  sh_Stat :: "string \<Rightarrow> bool"
  sh_candidate :: "string list \<Rightarrow> string"
  sh_hook :: "string option"

datatype shell_err = NotFound string | NeedsPosix string | NeedsWindows | UnknownShell string

definition posixResolved :: "shell_env \<Rightarrow> string \<Rightarrow> Resolved" where
  "posixResolved e path =
     (if Base path = ''zsh'' then
        (case sh_hook e of
           Some dir \<Rightarrow> \<lparr>sr_Path = path, sr_Args = [''-l'', ''-i''], sr_Env = [''ZDOTDIR='' @ dir]\<rparr>
         | None \<Rightarrow> \<lparr>sr_Path = path, sr_Args = [''-l'', ''-i''], sr_Env = []\<rparr>)
      else if Base path = ''bash'' then
        (case sh_hook e of
           Some dir \<Rightarrow> \<lparr>sr_Path = path, sr_Args = [''--rcfile'', Join2 dir ''bashrc'', ''-i''], sr_Env = []\<rparr>
         | None \<Rightarrow> \<lparr>sr_Path = path, sr_Args = [''-l'', ''-i''], sr_Env = []\<rparr>)
      else \<lparr>sr_Path = path, sr_Args = [''-i''], sr_Env = []\<rparr>)"

fun first_on_path :: "shell_env \<Rightarrow> string list \<Rightarrow> shell_err + Resolved" where
  "first_on_path e [] = Inl (NotFound ''POSIX shell'')"
| "first_on_path e (n # ns) = (case sh_LookPath e n of Some p \<Rightarrow> Inr (posixResolved e p) | None \<Rightarrow> first_on_path e ns)"

definition posixLoginShell :: "shell_env \<Rightarrow> shell_err + Resolved" where
  "posixLoginShell e =
     (case (if sh_Getenv e ''SHELL'' \<noteq> [] then sh_LookPath e (sh_Getenv e ''SHELL'') else None) of
        Some p \<Rightarrow> Inr (posixResolved e p)
      | None \<Rightarrow> first_on_path e [''zsh'', ''bash'', ''sh''])"

definition power_shell :: "string \<Rightarrow> Resolved" where
  "power_shell p = \<lparr>sr_Path = p, sr_Args = powerShellArgs, sr_Env = []\<rparr>"

definition system_powershell :: "shell_env \<Rightarrow> string" where
  "system_powershell e = sh_candidate e [''System32'', ''WindowsPowerShell'', ''v1.0'', ''powershell.exe'']"

definition Resolve :: "shell_env \<Rightarrow> string \<Rightarrow> shell_err + Resolved" where
  "Resolve e name =
     (if name = [] \<or> name = ''auto'' then
        (if \<not> sh_windows e then posixLoginShell e
         else (case sh_LookPath e ''pwsh'' of
                 Some p \<Rightarrow> Inr (power_shell p)
               | None \<Rightarrow>
                  (case sh_LookPath e ''powershell'' of
                     Some p \<Rightarrow> Inr (power_shell p)
                   | None \<Rightarrow> if sh_Stat e (system_powershell e) then Inr (power_shell (system_powershell e))
                             else Inl (NotFound ''PowerShell''))))
      else if name \<in> set [''zsh'', ''bash'', ''sh''] then
        (if sh_windows e then Inl (NeedsPosix name)
         else (case sh_LookPath e name of Some p \<Rightarrow> Inr (posixResolved e p) | None \<Rightarrow> Inl (NotFound name)))
      else if name = ''pwsh'' then
        (case sh_LookPath e ''pwsh'' of Some p \<Rightarrow> Inr (power_shell p) | None \<Rightarrow> Inl (NotFound name))
      else if name = ''powershell'' then
        (case sh_LookPath e ''powershell'' of
           Some p \<Rightarrow> Inr (power_shell p)
         | None \<Rightarrow> if sh_windows e \<and> sh_Stat e (system_powershell e) then Inr (power_shell (system_powershell e))
                   else Inl (NotFound name))
      else if name = ''cmd'' then
        (if \<not> sh_windows e then Inl NeedsWindows
         else let candidate = sh_candidate e [''System32'', ''cmd.exe'']
              in if sh_Stat e candidate then Inr \<lparr>sr_Path = candidate, sr_Args = cmdArgs, sr_Env = []\<rparr> else Inl (NotFound name))
      else Inl (UnknownShell name))"

section \<open>What a terminal starts\<close>

definition shell_names :: "string list" where
  "shell_names = [[], ''auto'', ''pwsh'', ''powershell'', ''cmd'', ''zsh'', ''bash'', ''sh'']"

text \<open>The part of \<^verbatim>\<open>ptyhost.Open\<close> before the spawn: program, arguments and additional environment.\<close>

definition spawn_target :: "shell_env \<Rightarrow> string \<Rightarrow> string list \<Rightarrow> shell_err + (string \<times> string list \<times> string list)" where
  "spawn_target e cmd args =
     (if cmd \<in> set shell_names then
        (case Resolve e cmd of
           Inl err \<Rightarrow> Inl err
         | Inr r \<Rightarrow> Inr (sr_Path r, sr_Args r @ (if length args > 0 then args else []), sr_Env r))
      else Inr (cmd, args, []))"

section \<open>Properties\<close>

text \<open>The executables a shell name may stand for.\<close>

definition allowed_shell :: "shell_env \<Rightarrow> string \<Rightarrow> bool" where
  "allowed_shell e p \<longleftrightarrow>
     (\<exists>n \<in> set [''pwsh'', ''powershell'', ''zsh'', ''bash'', ''sh'']. sh_LookPath e n = Some p)
     \<or> sh_windows e \<and> sh_Stat e p \<and> p \<in> {system_powershell e, sh_candidate e [''System32'', ''cmd.exe'']}
     \<or> \<not> sh_windows e \<and> sh_Getenv e ''SHELL'' \<noteq> [] \<and> sh_LookPath e (sh_Getenv e ''SHELL'') = Some p"

lemma sr_Path_posixResolved [simp]: "sr_Path (posixResolved e p) = p"
  by (simp add: posixResolved_def split: option.splits)

lemma posixLoginShell_allowed: "posixLoginShell e = Inr r \<Longrightarrow> \<not> sh_windows e \<Longrightarrow> allowed_shell e (sr_Path r)"
  by (auto simp: posixLoginShell_def allowed_shell_def split: option.splits if_splits)

lemma Resolve_allowed: "Resolve e name = Inr r \<Longrightarrow> allowed_shell e (sr_Path r)"
  using posixLoginShell_allowed [of e r]
  by (auto simp: Resolve_def power_shell_def Let_def allowed_shell_def split: option.splits if_splits)

lemma Resolve_known: "name \<in> set shell_names \<Longrightarrow> Resolve e name \<noteq> Inl (UnknownShell n)"
  by (auto simp: Resolve_def posixLoginShell_def shell_names_def Let_def split: option.splits if_splits)

text \<open>A terminal request that names a shell starts one of the allowed shells of the system with the wrapper's
  arguments first and the caller's arguments after them; any other command is started verbatim. The
  error for unknown names, which is meant to keep the host from launching arbitrary programs, is
  never raised by a terminal request.\<close>

theorem terminal_program:
  shows "spawn_target e cmd args \<noteq> Inl (UnknownShell n)
    \<and> (spawn_target e cmd args = Inr (exe, as, env) \<longrightarrow>
        (cmd \<in> set shell_names \<longrightarrow> allowed_shell e exe \<and> (\<exists>r. Resolve e cmd = Inr r \<and> as = sr_Args r @ args))
      \<and> (cmd \<notin> set shell_names \<longrightarrow> exe = cmd \<and> as = args \<and> env = []))"
  using Resolve_allowed [of e cmd] Resolve_known [of cmd e n]
  by (auto simp: spawn_target_def split: sum.splits)

definition demo_shell_env :: shell_env where
  "demo_shell_env = \<lparr>sh_windows = False, sh_Getenv = (\<lambda>v. []), sh_LookPath = (\<lambda>n. if n = ''bash'' then Some ''/bin/bash'' else None),
     sh_Stat = (\<lambda>p. False), sh_candidate = (\<lambda>cs. []), sh_hook = Some ''/tmp/h''\<rparr>"

theorem terminal_program_witness:
  "\<exists>exe as env. spawn_target demo_shell_env [] [''-x''] = Inr (exe, as, env) \<and> allowed_shell demo_shell_env exe
     \<and> spawn_target demo_shell_env ''calc'' [] = Inr (''calc'', [], [])"
proof -
  obtain exe as env where s: "spawn_target demo_shell_env [] [''-x''] = Inr (exe, as, env)"
    by (simp add: spawn_target_def shell_names_def Resolve_def posixLoginShell_def demo_shell_env_def)
  moreover have "([] :: string) \<in> set shell_names" by (simp add: shell_names_def)
  moreover have "spawn_target demo_shell_env ''calc'' [] = Inr (''calc'', [], [])"
    by (simp add: spawn_target_def shell_names_def)
  ultimately show ?thesis
    using terminal_program [of demo_shell_env "[]" "[''-x'']" "[]" exe as env] by blast
qed

text \<open>PowerShell decodes \<^verbatim>\<open>-EncodedCommand\<close> as the base64 text of UTF-16 in little-endian order; this gives
  back the script, with line feeds for its line ends.\<close>

theorem encoded_command_roundtrip:
  assumes "list_all scalar script"
  shows "\<exists>bs. base64_parse std_chars (filter (\<lambda>c. c \<noteq> CHR ''='') (encodePwshScript script)) = Some bs
    \<and> utf16_Decode (units_of False bs) = unix_line_ends script"
proof -
  have s: "list_all scalar (unix_line_ends script)"
    using assms by (induction script rule: unix_line_ends.induct) (auto simp: scalar_def)
  then have "utf16_Encode (unix_line_ends script) = concat (map utf16_units (unix_line_ends script))"
    by (auto simp: utf16_Encode_def list_all_iff intro!: arg_cong [where f = concat] map_cong)
  then show ?thesis
    using utf16_Decode_units [OF s] by (simp add: encodePwshScript_def Std_round_trip units_of_bytes)
qed

theorem encoded_command_roundtrip_witness:
  "\<exists>bs. base64_parse std_chars (filter (\<lambda>c. c \<noteq> CHR ''='') (powerShellArgs ! 3)) = Some bs
    \<and> utf16_Decode (units_of False bs) = unix_line_ends (map of_char powerShellWrapperScript)"
proof -
  have "scalar (of_char c)" for c
  proof -
    have "(of_char c :: nat) < 256" by simp
    then show ?thesis unfolding scalar_def by linarith
  qed
  then have "list_all scalar (map of_char powerShellWrapperScript)" by (simp add: list_all_iff)
  then show ?thesis using encoded_command_roundtrip by (simp add: powerShellArgs_def)
qed

end
