(* ===== verification/Service.thy ===== *)
theory Service
  imports Shell Config Client_Open
begin

text \<open>
  \<^verbatim>\<open>windows/cmd/peershd/service.go\<close>, \<^verbatim>\<open>logon_task.go\<close> and the dispatch in \<^verbatim>\<open>main\<close>: installing the host as a
  service or a logon task, and the arguments it is started with later; and the command line
  \<^verbatim>\<open>windows/pty\<close> starts a terminal's program with. The service manager, \<^verbatim>\<open>schtasks.exe\<close> and the
  file system are a record of functions.
\<close>

section \<open>Flags\<close>

text \<open>\<^verbatim>\<open>flag.FlagSet.Parse\<close>: the assignments made before it ends or meets an error; both callers ignore the
  error.\<close>

datatype flag_kind = BoolFlag | StringFlag
datatype flag_value = FBool bool | FString string

definition ParseBool :: "string \<Rightarrow> bool option" where
  "ParseBool s =
     (if s \<in> set [''1'', ''t'', ''T'', ''TRUE'', ''true'', ''True''] then Some True
      else if s \<in> set [''0'', ''f'', ''F'', ''FALSE'', ''false'', ''False''] then Some False
      else None)"

definition flag_body :: "string \<Rightarrow> string option" where
  "flag_body s =
     (case s of
        c # d # r \<Rightarrow>
          if c \<noteq> CHR ''-'' then None
          else let b = (if d = CHR ''-'' then r else d # r)
               in (if b = [] \<or> hd b = CHR ''-'' \<or> hd b = CHR ''='' then None else Some b)
      | _ \<Rightarrow> None)"

definition flag_split :: "string \<Rightarrow> string \<times> string option" where
  "flag_split b =
     (let n = takeWhile (\<lambda>c. c \<noteq> CHR ''='') b
      in (n, if length n < length b then Some (drop (Suc (length n)) b) else None))"

fun flag_Parse :: "(string \<Rightarrow> flag_kind option) \<Rightarrow> string list \<Rightarrow> (string \<times> flag_value) list" where
  "flag_Parse fs [] = []"
| "flag_Parse fs (s # args) =
     (case flag_body s of
        None \<Rightarrow> []
      | Some b \<Rightarrow>
         (case flag_split b of (n, v) \<Rightarrow>
           (case fs n of
              None \<Rightarrow> []
            | Some BoolFlag \<Rightarrow>
                (case v of
                   None \<Rightarrow> (n, FBool True) # flag_Parse fs args
                 | Some x \<Rightarrow> (case ParseBool x of None \<Rightarrow> [] | Some t \<Rightarrow> (n, FBool t) # flag_Parse fs args))
            | Some StringFlag \<Rightarrow>
                (case v of
                   Some x \<Rightarrow> (n, FString x) # flag_Parse fs args
                 | None \<Rightarrow> (case args of [] \<Rightarrow> [] | x # rest \<Rightarrow> (n, FString x) # flag_Parse fs rest)))))"

definition flag_bool :: "string \<Rightarrow> (string \<times> flag_value) list \<Rightarrow> bool" where
  "flag_bool n as = (case map_of (rev as) n of Some (FBool t) \<Rightarrow> t | _ \<Rightarrow> False)"

definition flag_string :: "string \<Rightarrow> (string \<times> flag_value) list \<Rightarrow> string" where
  "flag_string n as = (case map_of (rev as) n of Some (FString t) \<Rightarrow> t | _ \<Rightarrow> [])"

section \<open>The service\<close>

definition service_names :: "string list" where
  "service_names = [''install'', ''uninstall'', ''start'', ''stop'', ''service-status'']"

definition service_flags :: "string \<Rightarrow> flag_kind option" where
  "service_flags n = (if n \<in> set service_names then Some BoolFlag else None)"

fun stripServiceFlags :: "string list \<Rightarrow> string list" where
  "stripServiceFlags [] = []"
| "stripServiceFlags (a # args) =
     (if a \<in> set [''-install'', ''--install'', ''-uninstall'', ''--uninstall'', ''-start'', ''--start'', ''-stop'', ''--stop'',
                 ''-service-status'', ''--service-status'']
      then stripServiceFlags args
      else a # stripServiceFlags args)"

record service_Config =
  sc_Name :: string
  sc_Arguments :: "string list"
  sc_UserService :: bool
  sc_RunAtLoad :: bool
  sc_KeepAlive :: bool

definition serviceConfig :: "bool \<Rightarrow> string list \<Rightarrow> service_Config" where
  "serviceConfig darwin args =
     \<lparr>sc_Name = ''peershd'', sc_Arguments = args, sc_UserService = darwin, sc_RunAtLoad = darwin, sc_KeepAlive = darwin\<rparr>"

text \<open>\<^verbatim>\<open>program\<close>: \<open>pr_doneCh\<close> is whether it was started, and \<^verbatim>\<open>Stop\<close> gets what the daemon returned when
  it did so within eight seconds.\<close>

record 'e program =
  pr_args :: "string list"
  pr_doneCh :: bool
  pr_cancelled :: bool
  pr_exitErr :: "'e option"

datatype 'e stop_result = StopTimedOut | StopExit "'e option"

definition program_Start :: "'e program \<Rightarrow> 'e program \<times> string list" where
  "program_Start p = (p\<lparr>pr_doneCh := True, pr_cancelled := False\<rparr>, pr_args p)"

definition program_Stop :: "'e program \<Rightarrow> 'e option option \<Rightarrow> 'e program \<times> 'e stop_result" where
  "program_Stop p fin =
     (if pr_doneCh p then
        (case fin of
           None \<Rightarrow> (p\<lparr>pr_cancelled := True\<rparr>, StopTimedOut)
         | Some r \<Rightarrow> (p\<lparr>pr_cancelled := True, pr_exitErr := r\<rparr>, StopExit r))
      else (p, StopExit (pr_exitErr p)))"

datatype svc_call = SvcInstall | SvcUninstall | SvcStart | SvcStop | SvcStatus | SvcRun

datatype svc_err = SvcNew | SvcExecutable | SvcMissing string | SvcTempDir | SvcFailed svc_call
  | TaskExecutable | TaskMissing string | TaskFailed

record os_env =
  os_Interactive :: bool
  os_darwin :: bool
  os_New :: "service_Config \<Rightarrow> bool"
  os_Svc :: "service_Config \<Rightarrow> svc_call \<Rightarrow> bool"
  os_Executable :: "string option"
  os_Abs :: "string \<Rightarrow> string option"
  os_Stat :: "string \<Rightarrow> bool"
  os_Schtasks :: "string list \<Rightarrow> bool \<times> string"

text \<open>The functions report success as \<open>True\<close>.\<close>

definition ensureRunnableExePath :: "os_env \<Rightarrow> svc_err option" where
  "ensureRunnableExePath e =
     (case os_Executable e of
        None \<Rightarrow> Some SvcExecutable
      | Some exe \<Rightarrow>
         (case os_Abs e exe of
            None \<Rightarrow> Some SvcExecutable
          | Some path \<Rightarrow>
              if \<not> os_Stat e path then Some (SvcMissing path)
              else if Contains (ToLower path) ([CHR 0x5C] @ ''temp'' @ [CHR 0x5C]) then Some SvcTempDir
              else None))"

datatype svc_Status = StatusRunning | StatusStopped | StatusUnknown

fun svcStatusString :: "svc_Status \<Rightarrow> string" where
  "svcStatusString StatusRunning = ''running''"
| "svcStatusString StatusStopped = ''stopped''"
| "svcStatusString StatusUnknown = ''unknown''"

definition svc_action :: "(string \<times> flag_value) list \<Rightarrow> svc_call" where
  "svc_action as =
     (if flag_bool ''install'' as then SvcInstall
      else if flag_bool ''uninstall'' as then SvcUninstall
      else if flag_bool ''start'' as then SvcStart
      else if flag_bool ''stop'' as then SvcStop
      else if flag_bool ''service-status'' as then SvcStatus
      else SvcRun)"

text \<open>The result is whether the call was handled, the error, and the call made of the service with its
  configuration.\<close>

definition runService :: "os_env \<Rightarrow> string list \<Rightarrow> bool \<times> svc_err option \<times> (service_Config \<times> svc_call) option" where
  "runService e argv =
     (let act = svc_action (flag_Parse service_flags (tl argv));
          cfg = serviceConfig (os_darwin e) (stripServiceFlags (tl argv));
          perform = (True, if os_Svc e cfg act then None else Some (SvcFailed act), Some (cfg, act))
      in if act = SvcRun \<and> os_Interactive e then (False, None, None)
         else if \<not> os_New e cfg then (True, Some SvcNew, None)
         else if act = SvcInstall then
           (case ensureRunnableExePath e of Some err \<Rightarrow> (True, Some err, None) | None \<Rightarrow> perform)
         else perform)"

section \<open>The logon task\<close>

definition task_flags :: "string \<Rightarrow> flag_kind option" where
  "task_flags n =
     (if n \<in> set [''install-logon-task'', ''uninstall-logon-task''] then Some BoolFlag
      else if n = ''logon-task-user'' then Some StringFlag else None)"

fun stripLogonTaskFlags :: "string list \<Rightarrow> string list" where
  "stripLogonTaskFlags [] = []"
| "stripLogonTaskFlags (a # args) =
     (if a \<in> set [''-install-logon-task'', ''--install-logon-task'', ''-uninstall-logon-task'', ''--uninstall-logon-task'']
      then stripLogonTaskFlags args
      else if a \<in> set [''-logon-task-user'', ''--logon-task-user''] then
        (case args of [] \<Rightarrow> [] | v # rest \<Rightarrow> stripLogonTaskFlags rest)
      else if HasPrefix a ''-logon-task-user='' \<or> HasPrefix a ''--logon-task-user='' then stripLogonTaskFlags args
      else a # stripLogonTaskFlags args)"

definition blank :: "char \<Rightarrow> bool" where
  "blank c \<longleftrightarrow> c = CHR '' '' \<or> c = CHR 0x09"

definition escape_quotes :: "string \<Rightarrow> string" where
  "escape_quotes s = concat (map (\<lambda>c. if c = CHR 0x22 then [CHR 0x5C, c] else [c]) s)"

definition quoteForSchtasks :: "string \<Rightarrow> string" where
  "quoteForSchtasks s = (if \<not> list_ex blank s then s else [CHR 0x22] @ escape_quotes s @ [CHR 0x22])"

definition quoteAll :: "string list \<Rightarrow> string list" where
  "quoteAll args = map quoteForSchtasks args"

definition Join_blank :: "string list \<Rightarrow> string" where
  "Join_blank ws = concat (case ws of [] \<Rightarrow> [] | w # r \<Rightarrow> w # map (\<lambda>x. '' '' @ x) r)"

definition task_action :: "string \<Rightarrow> string list \<Rightarrow> string" where
  "task_action exe taskArgs =
     quoteForSchtasks exe @ (if length taskArgs > 0 then '' '' @ Join_blank (quoteAll taskArgs) else [])"

definition installLogonTask :: "os_env \<Rightarrow> string list \<Rightarrow> string \<Rightarrow> svc_err option \<times> string list option" where
  "installLogonTask e argv user =
     (case os_Executable e of
        None \<Rightarrow> (Some TaskExecutable, None)
      | Some exe0 \<Rightarrow>
         (case os_Abs e exe0 of
            None \<Rightarrow> (Some TaskExecutable, None)
          | Some exe \<Rightarrow>
              if \<not> os_Stat e exe then (Some (TaskMissing exe), None)
              else
                let tr = task_action exe (stripLogonTaskFlags (stripServiceFlags (tl argv)));
                    cmd = [''/Create'', ''/TN'', ''peershd'', ''/SC'', ''ONLOGON'', ''/RL'', ''HIGHEST'', ''/F'', ''/TR'', tr]
                      @ (if user \<noteq> [] then [''/RU'', user] else [])
                in (if fst (os_Schtasks e cmd) then None else Some TaskFailed, Some cmd)))"

text \<open>The Japanese message in UTF-8.\<close>

definition not_found_ja :: string where
  "not_found_ja = chars [0xE8, 0xA6, 0x8B, 0xE3, 0x81, 0xA4, 0xE3, 0x81, 0x8B, 0xE3, 0x82, 0x8A, 0xE3, 0x81, 0xBE,
     0xE3, 0x81, 0x9B, 0xE3, 0x82, 0x93]"

definition uninstallLogonTask :: "os_env \<Rightarrow> svc_err option \<times> string list option" where
  "uninstallLogonTask e =
     (let cmd = [''/Delete'', ''/TN'', ''peershd'', ''/F''];
          r = os_Schtasks e cmd
      in (if fst r \<or> Contains (snd r) ''cannot find'' \<or> Contains (snd r) not_found_ja then None else Some TaskFailed, Some cmd))"

definition runLogonTask :: "os_env \<Rightarrow> string list \<Rightarrow> bool \<times> svc_err option \<times> string list option" where
  "runLogonTask e argv =
     (let as = flag_Parse task_flags (tl argv)
      in if \<not> flag_bool ''install-logon-task'' as \<and> \<not> flag_bool ''uninstall-logon-task'' as then (False, None, None)
         else (True, if flag_bool ''install-logon-task'' as then installLogonTask e argv (flag_string ''logon-task-user'' as)
                     else uninstallLogonTask e))"

section \<open>The program\<close>

text \<open>Which part of \<^verbatim>\<open>main\<close> a start reaches.\<close>

datatype main_action = MainExit "svc_err option" | MainVersion | MainUpdate "string list" | MainDaemon "string list"

definition peershd_main :: "os_env \<Rightarrow> string list \<Rightarrow> main_action" where
  "peershd_main e argv =
     (case runService e argv of (handled, err, _) \<Rightarrow>
        if err \<noteq> None then MainExit err
        else if handled then MainExit None
        else (case runLogonTask e argv of (handled, err, _) \<Rightarrow>
          if err \<noteq> None then MainExit err
          else if handled then MainExit None
          else if length argv \<ge> 2 \<and> argv ! 1 \<in> set [''version'', ''-version'', ''--version''] then MainVersion
          else if length argv \<ge> 2 \<and> argv ! 1 = ''update'' then MainUpdate (drop 2 argv)
          else MainDaemon (tl argv)))"

section \<open>The command line of a terminal\<close>

definition quoteArg :: "string \<Rightarrow> string" where
  "quoteArg s =
     (if s = [] then [CHR 0x22, CHR 0x22]
      else if \<not> list_ex (\<lambda>c. blank c \<or> c = CHR 0x22) s then s
      else [CHR 0x22] @ escape_quotes s @ [CHR 0x22])"

definition buildCmdline :: "string \<Rightarrow> string list \<Rightarrow> string" where
  "buildCmdline executable args = Join_blank (quoteArg executable # map quoteArg args)"

text \<open>The macOS variant passes an argument vector; an exit with a code, which may be -1 for a signal, is no
  error.\<close>

datatype wait_err = ExitError int | WaitFailed

definition unix_env :: "string list \<Rightarrow> string list \<Rightarrow> string list" where
  "unix_env environ env = environ @ [''TERM=xterm-256color''] @ env"

definition unix_Wait :: "wait_err option \<Rightarrow> int \<times> bool" where
  "unix_Wait r = (case r of None \<Rightarrow> (0, True) | Some (ExitError c) \<Rightarrow> (c, True) | Some WaitFailed \<Rightarrow> (-1, False))"

section \<open>What a stripped argument list can do\<close>

lemma flag_Parse_stops:
  "(\<And>b. flag_body (hd args) = Some b \<Longrightarrow> fs (fst (flag_split b)) = None) \<Longrightarrow> flag_Parse fs args = []"
  by (cases args) (auto split: option.splits prod.splits)

lemma flag_body_form: "flag_body s = Some b \<Longrightarrow> s = CHR ''-'' # b \<or> s = ''--'' @ b"
  by (auto simp: flag_body_def Let_def split: list.splits if_splits)

lemma flag_split_form: "flag_split b = (n, v) \<Longrightarrow> b = (case v of None \<Rightarrow> n | Some x \<Rightarrow> n @ CHR ''='' # x)"
proof -
  assume a: "flag_split b = (n, v)"
  let ?n = "takeWhile (\<lambda>c. c \<noteq> CHR ''='') b"
  have n: "n = ?n" and v: "v = (if length ?n < length b then Some (drop (Suc (length ?n)) b) else None)"
    using a by (auto simp: flag_split_def Let_def)
  show ?thesis
  proof (cases "length ?n < length b")
    case True
    then have "b ! length ?n = CHR ''=''" using nth_length_takeWhile by fastforce
    then have "b = ?n @ CHR ''='' # drop (Suc (length ?n)) b"
      by (metis True append_take_drop_id Cons_nth_drop_Suc takeWhile_eq_take)
    with True show ?thesis using n v by simp
  next
    case False
    then show ?thesis using n v by (metis length_takeWhile_le le_neq_implies_less takeWhile_eq_take option.simps(4) take_all order_refl)
  qed
qed

text \<open>The forms of an argument that sets a flag.\<close>

definition flag_forms :: "string \<Rightarrow> string set" where
  "flag_forms n = {CHR ''-'' # n, ''--'' @ n} \<union> {CHR ''-'' # n @ CHR ''='' # v |v. True} \<union> {''--'' @ n @ CHR ''='' # v |v. True}"

lemma flag_body_forms: "flag_body s = Some b \<Longrightarrow> s \<in> flag_forms (fst (flag_split b))"
  using flag_body_form [of s b] flag_split_form [of b "fst (flag_split b)" "snd (flag_split b)"]
  by (auto simp: flag_forms_def split: option.splits)

lemma no_forms_no_flags:
  assumes "\<And>a n. a \<in> set args \<Longrightarrow> fs n \<noteq> None \<Longrightarrow> a \<notin> flag_forms n"
  shows "flag_Parse fs args = []"
proof (cases args)
  case (Cons a r)
  then show ?thesis using assms [of a] flag_body_forms [of a] by (intro flag_Parse_stops) force
qed simp

definition task_names :: "string list" where
  "task_names = [''install-logon-task'', ''uninstall-logon-task'']"

text \<open>An argument list is plain when no control flag is written with a value after an equals sign.\<close>

definition plain_args :: "string list \<Rightarrow> bool" where
  "plain_args args \<longleftrightarrow>
     (\<forall>a \<in> set args. \<forall>n \<in> set (service_names @ task_names).
        \<not> HasPrefix a (CHR ''-'' # n @ ''='') \<and> \<not> HasPrefix a (''--'' @ n @ ''=''))"

definition switched :: "string list \<Rightarrow> string \<Rightarrow> bool" where
  "switched ns a \<longleftrightarrow> (\<exists>n \<in> set ns. a = CHR ''-'' # n \<or> a = ''--'' @ n)"

lemma service_switch:
  "(a \<in> set [''-install'', ''--install'', ''-uninstall'', ''--uninstall'', ''-start'', ''--start'', ''-stop'', ''--stop'',
     ''-service-status'', ''--service-status'']) = switched service_names a"
  unfolding service_names_def switched_def
  by (simp only: list.set bex_simps insert_iff empty_iff append.simps simp_thms disj_assoc)

lemma task_switch:
  "(a \<in> set [''-install-logon-task'', ''--install-logon-task'', ''-uninstall-logon-task'', ''--uninstall-logon-task''])
    = switched task_names a"
  unfolding task_names_def switched_def
  by (simp only: list.set bex_simps insert_iff empty_iff append.simps simp_thms disj_assoc)

lemma user_switch: "(a \<in> set [''-logon-task-user'', ''--logon-task-user'']) = switched [''logon-task-user''] a"
  unfolding switched_def by (simp only: list.set bex_simps insert_iff empty_iff append.simps simp_thms)

lemma stripServiceFlags_filter: "stripServiceFlags args = filter (\<lambda>a. \<not> switched service_names a) args"
proof (induction args)
  case (Cons a args)
  then show ?case unfolding stripServiceFlags.simps service_switch by simp
qed simp

lemma set_stripServiceFlags: "a \<in> set (stripServiceFlags args) \<Longrightarrow> a \<in> set args \<and> \<not> switched service_names a"
  by (simp add: stripServiceFlags_filter)

definition user_valued :: "string \<Rightarrow> bool" where
  "user_valued a \<longleftrightarrow> HasPrefix a ''-logon-task-user='' \<or> HasPrefix a ''--logon-task-user=''"

definition task_left :: "string \<Rightarrow> bool" where
  "task_left a \<longleftrightarrow> \<not> switched task_names a \<and> \<not> switched [''logon-task-user''] a \<and> \<not> user_valued a"

lemma stripLogonTaskFlags_step:
  "stripLogonTaskFlags (a # args) =
     (if switched task_names a then stripLogonTaskFlags args
      else if switched [''logon-task-user''] a then stripLogonTaskFlags (drop 1 args)
      else if user_valued a then stripLogonTaskFlags args
      else a # stripLogonTaskFlags args)"
  unfolding stripLogonTaskFlags.simps task_switch user_switch user_valued_def [symmetric]
  by (cases args) simp_all

declare stripLogonTaskFlags.simps [simp del]

lemma set_stripLogonTaskFlags: "a \<in> set (stripLogonTaskFlags args) \<Longrightarrow> a \<in> set args \<and> task_left a"
proof (induction args rule: length_induct)
  case (1 args)
  show ?case
  proof (cases args)
    case (Cons x r)
    have "a \<in> set r \<and> task_left a" if "a \<in> set (stripLogonTaskFlags r)" using 1(1) [rule_format, of r] Cons that by simp
    moreover have "a \<in> set r \<and> task_left a" if "a \<in> set (stripLogonTaskFlags (drop 1 r))"
      using 1(1) [rule_format, of "drop 1 r"] Cons that in_set_dropD [of a 1 r] by simp
    ultimately show ?thesis using 1(2) Cons by (auto simp: stripLogonTaskFlags_step task_left_def split: if_splits)
  qed (use 1(2) in \<open>simp add: stripLogonTaskFlags.simps\<close>)
qed

lemma plain_forms:
  assumes "\<not> HasPrefix a (CHR ''-'' # n @ ''='')" "\<not> HasPrefix a (''--'' @ n @ ''='')" "a \<noteq> CHR ''-'' # n" "a \<noteq> ''--'' @ n"
  shows "a \<notin> flag_forms n"
  using assms by (auto simp: flag_forms_def HasPrefix_iff)

lemma service_flags_inert:
  assumes "plain_args args" "set xs \<subseteq> set (stripServiceFlags args)"
  shows "flag_Parse service_flags xs = []"
proof (rule no_forms_no_flags)
  fix a n assume a: "a \<in> set xs" and "service_flags n \<noteq> None"
  then have n: "n \<in> set service_names" by (simp add: service_flags_def split: if_splits)
  from a assms(2) have s: "a \<in> set (stripServiceFlags args)" by blast
  note st = set_stripServiceFlags [OF s]
  show "a \<notin> flag_forms n"
    using st n assms(1) unfolding plain_args_def switched_def by (intro plain_forms) auto
qed

lemma task_flags_inert:
  assumes "plain_args args"
  shows "flag_Parse task_flags (stripLogonTaskFlags (stripServiceFlags args)) = []"
proof (rule no_forms_no_flags)
  fix a n assume s: "a \<in> set (stripLogonTaskFlags (stripServiceFlags args))" and "task_flags n \<noteq> None"
  then have n: "n \<in> set task_names \<or> n = ''logon-task-user''"
    by (auto simp: task_flags_def task_names_def split: if_splits)
  note st = set_stripLogonTaskFlags [OF s]
  have a: "a \<in> set args" using st set_stripServiceFlags by blast
  have left: "task_left a" using st by blast
  from n show "a \<notin> flag_forms n"
  proof
    assume "n \<in> set task_names"
    then show ?thesis using left a assms unfolding plain_args_def task_left_def switched_def by (intro plain_forms) auto
  next
    assume "n = ''logon-task-user''"
    then show ?thesis using left unfolding task_left_def switched_def user_valued_def by (intro plain_forms) simp_all
  qed
qed

lemma svc_action_Nil: "svc_action [] = SvcRun"
  by (simp add: svc_action_def flag_bool_def)

lemma strip_idem: "stripServiceFlags (stripServiceFlags args) = stripServiceFlags args"
  by (simp add: stripServiceFlags_filter)

section \<open>How a command line is taken apart\<close>

text \<open>The rules a Windows program splits its command line by. The program's name ends at the next quotation
  mark or blank. In the arguments a quotation mark switches quoting unless an odd number of backslashes
  precedes it; backslashes stand for themselves except before a quotation mark, where two stand for
  one. \<open>n\<close> counts the backslashes just read, \<open>cur\<close> is the argument read so far.\<close>

fun win_args :: "bool \<Rightarrow> nat \<Rightarrow> string option \<Rightarrow> string \<Rightarrow> string list" where
  "win_args q n cur [] = (case cur of None \<Rightarrow> [] | Some a \<Rightarrow> [a @ replicate n (CHR 0x5C)])"
| "win_args q n cur (c # cs) =
     (let a = (case cur of None \<Rightarrow> [] | Some a \<Rightarrow> a)
      in if c = CHR 0x5C then win_args q (Suc n) (Some a) cs
         else if c = CHR 0x22 then
           (if even n then win_args (\<not> q) 0 (Some (a @ replicate (n div 2) (CHR 0x5C))) cs
            else win_args q 0 (Some (a @ replicate (n div 2) (CHR 0x5C) @ [c])) cs)
         else if blank c \<and> \<not> q then
           (case cur of None \<Rightarrow> win_args q 0 None cs | Some b \<Rightarrow> (b @ replicate n (CHR 0x5C)) # win_args q 0 None cs)
         else win_args q 0 (Some (a @ replicate n (CHR 0x5C) @ [c])) cs)"

definition win_split :: "string \<Rightarrow> string list" where
  "win_split l =
     (case l of
        [] \<Rightarrow> []
      | c # r \<Rightarrow>
          if c = CHR 0x22 then
            takeWhile (\<lambda>c. c \<noteq> CHR 0x22) r # win_args False 0 None (drop 1 (dropWhile (\<lambda>c. c \<noteq> CHR 0x22) r))
          else takeWhile (\<lambda>c. \<not> blank c) l # win_args False 0 None (dropWhile (\<lambda>c. \<not> blank c) l))"

text \<open>No backslash stands before a quotation mark or at the end; \<open>p\<close> tells whether one was just read.\<close>

fun backslash_free_quotes :: "bool \<Rightarrow> string \<Rightarrow> bool" where
  "backslash_free_quotes p [] \<longleftrightarrow> \<not> p"
| "backslash_free_quotes p (c # cs) \<longleftrightarrow> (c = CHR 0x22 \<longrightarrow> \<not> p) \<and> backslash_free_quotes (c = CHR 0x5C) cs"

definition bare :: "string \<Rightarrow> bool" where
  "bare s \<longleftrightarrow> s \<noteq> [] \<and> \<not> list_ex (\<lambda>c. blank c \<or> c = CHR 0x22) s"

definition safe_arg :: "string \<Rightarrow> bool" where
  "safe_arg s \<longleftrightarrow> bare s \<or> backslash_free_quotes False s"

lemma escape_quotes_simps [simp]:
  "escape_quotes [] = []"
  "escape_quotes (c # s) = (if c = CHR 0x22 then CHR 0x5C # c # escape_quotes s else c # escape_quotes s)"
  by (simp_all add: escape_quotes_def)

lemma win_args_quoted:
  "backslash_free_quotes (n > 0) s \<Longrightarrow>
   win_args True n (Some a) (escape_quotes s @ CHR 0x22 # r) = win_args False 0 (Some (a @ replicate n (CHR 0x5C) @ s)) r"
proof (induction s arbitrary: n a)
  case (Cons c s)
  show ?case
  proof (cases "c = CHR 0x5C")
    case True
    then show ?thesis using Cons.IH [of "Suc n" a] Cons.prems by (simp add: replicate_app_Cons_same)
  next
    case False
    then show ?thesis using Cons.IH [of 0] Cons.prems by auto
  qed
qed simp

lemma win_args_bare:
  assumes "\<not> list_ex (\<lambda>c. blank c \<or> c = CHR 0x22) s" "r = [] \<or> blank (hd r)"
  shows "win_args False n (Some a) (s @ r) = (a @ replicate n (CHR 0x5C) @ s) # win_args False 0 None r"
  using assms(1)
proof (induction s arbitrary: n a)
  case Nil
  show ?case using assms(2) by (cases r) (auto simp: blank_def)
next
  case (Cons c s)
  show ?case
  proof (cases "c = CHR 0x5C")
    case True
    then show ?thesis using Cons.IH [of "Suc n" a] Cons.prems by (simp add: replicate_app_Cons_same)
  next
    case False
    then show ?thesis using Cons.IH [of 0] Cons.prems by auto
  qed
qed

lemma blank_not_special [simp]: "blank c \<Longrightarrow> c \<noteq> CHR 0x22 \<and> c \<noteq> CHR 0x5C"
  by (auto simp: blank_def)

lemma win_args_start: "s \<noteq> [] \<Longrightarrow> \<not> blank (hd s) \<Longrightarrow> win_args False 0 None s = win_args False 0 (Some []) s"
  by (cases s) (simp_all add: Let_def)

lemma win_args_quoteArg:
  assumes "safe_arg s" "r = [] \<or> blank (hd r)"
  shows "win_args False 0 None (quoteArg s @ r) = s # win_args False 0 None r"
proof -
  have rest: "win_args False 0 (Some a) r = a # win_args False 0 None r" for a
    using win_args_bare [of "[]" r 0 a] assms(2) by simp
  consider "s = []" | "bare s" | "s \<noteq> []" "\<not> bare s" "backslash_free_quotes False s"
    using assms(1) by (auto simp: safe_arg_def)
  then show ?thesis
  proof cases
    case 1
    then show ?thesis using rest [of "[]"] by (simp add: quoteArg_def Let_def blank_def)
  next
    case 2
    then have "quoteArg s = s" "s @ r \<noteq> []" "\<not> blank (hd (s @ r))"
      by (auto simp: quoteArg_def bare_def hd_append list_ex_iff)
    then show ?thesis using 2 win_args_start [of "s @ r"] win_args_bare [of s r 0 "[]"] assms(2)
      by (simp add: bare_def)
  next
    case 3
    then have "quoteArg s @ r = CHR 0x22 # escape_quotes s @ CHR 0x22 # r" by (simp add: quoteArg_def bare_def)
    then show ?thesis using win_args_quoted [of 0 s "[]" r] 3 rest [of s] by (simp add: Let_def blank_def)
  qed
qed

lemma win_args_Join:
  assumes "\<forall>s \<in> set as. safe_arg s"
  shows "win_args False 0 None (concat (map (\<lambda>x. '' '' @ quoteArg x) as)) = as"
  using assms
proof (induction as)
  case (Cons s as)
  let ?r = "concat (map (\<lambda>x. '' '' @ quoteArg x) as)"
  have "?r = [] \<or> blank (hd ?r)" by (cases as) (simp_all add: blank_def)
  from win_args_quoteArg [OF _ this, of s] show ?case using Cons by (simp add: Let_def blank_def)
qed simp

lemma span_mark:
  assumes "c \<notin> set s"
  shows "takeWhile (\<lambda>x. x \<noteq> c) (s @ c # r) = s" "dropWhile (\<lambda>x. x \<noteq> c) (s @ c # r) = c # r"
  using assms by (induction s) auto

lemma win_split_program:
  assumes "exe \<noteq> []" "CHR 0x22 \<notin> set exe" "r = [] \<or> blank (hd r)"
  shows "win_split (quoteArg exe @ r) = exe # win_args False 0 None r"
proof (cases "list_ex blank exe")
  case True
  have esc: "escape_quotes exe = exe"
    using assms(2) unfolding escape_quotes_def by (induction exe) auto
  have "quoteArg exe @ r = CHR 0x22 # exe @ CHR 0x22 # r"
    using True assms(1) esc by (auto simp: quoteArg_def list_ex_iff)
  moreover have "takeWhile (\<lambda>c. c \<noteq> CHR 0x22) (exe @ CHR 0x22 # r) = exe" "dropWhile (\<lambda>c. c \<noteq> CHR 0x22) (exe @ CHR 0x22 # r) = CHR 0x22 # r"
    using span_mark [OF assms(2)] by blast+
  ultimately show ?thesis by (simp add: win_split_def)
next
  case False
  then have "quoteArg exe = exe" using assms by (auto simp: quoteArg_def list_ex_iff)
  moreover have "takeWhile (\<lambda>c. \<not> blank c) (exe @ r) = exe" "dropWhile (\<lambda>c. \<not> blank c) (exe @ r) = r"
    using False assms(3) by (cases r; auto simp: list_ex_iff takeWhile_append2 dropWhile_append2)+
  moreover obtain c x where "exe = c # x" "c \<noteq> CHR 0x22" using assms(1,2) by (cases exe) auto
  ultimately show ?thesis by (simp add: win_split_def)
qed

lemma Join_blank_Cons: "Join_blank (w # ws) = w @ concat (map (\<lambda>x. '' '' @ x) ws)"
  unfolding Join_blank_def by (simp only: list.case concat.simps)

lemma win_split_line:
  assumes "exe \<noteq> []" "CHR 0x22 \<notin> set exe" "\<forall>s \<in> set as. safe_arg s"
  shows "win_split (quoteArg exe @ concat (map (\<lambda>x. '' '' @ quoteArg x) as)) = exe # as"
proof -
  let ?r = "concat (map (\<lambda>x. '' '' @ quoteArg x) as)"
  have "?r = [] \<or> blank (hd ?r)" by (cases as) (simp_all add: blank_def)
  then show ?thesis using win_split_program [OF assms(1,2)] win_args_Join [OF assms(3)] by simp
qed

section \<open>Properties\<close>

lemma Join_quoteArg: "buildCmdline exe as = quoteArg exe @ concat (map (\<lambda>x. '' '' @ quoteArg x) as)"
  unfolding buildCmdline_def Join_blank_Cons by (simp add: comp_def)

lemma no_special_safe: "CHR 0x22 \<notin> set s \<Longrightarrow> CHR 0x5C \<notin> set s \<Longrightarrow> safe_arg s"
proof -
  assume "CHR 0x22 \<notin> set s" "CHR 0x5C \<notin> set s"
  then have "backslash_free_quotes False s" by (induction s) auto
  then show ?thesis by (simp add: safe_arg_def)
qed

lemma base64_text_no_special: "c \<in> {CHR 0x22, CHR 0x5C} \<Longrightarrow> c \<notin> set (base64_text std_chars bs)"
proof -
  assume c: "c \<in> {CHR 0x22, CHR 0x5C}"
  have "\<forall>d \<in> set (base64_digits (map unat bs)). d < 64" by (rule base64_digits_less) auto
  then have "set (base64_text std_chars bs) \<subseteq> set (base64_alphabet std_chars)" by (auto simp: base64_text_def)
  moreover have "list_all (\<lambda>c. c \<noteq> CHR 0x22 \<and> c \<noteq> CHR 0x5C) (base64_alphabet std_chars)"
    by (simp add: base64_alphabet_def upt_rec)
  ultimately show ?thesis using c by (auto simp: list_all_iff)
qed

lemma wrapper_args_safe: "\<forall>s \<in> set powerShellArgs. safe_arg s" "\<forall>s \<in> set cmdArgs. safe_arg s"
proof -
  have "safe_arg (Std_EncodeToString bs)" for bs
    by (rule no_special_safe) (simp_all add: Std_EncodeToString_def Let_def base64_text_no_special)
  then show "\<forall>s \<in> set powerShellArgs. safe_arg s"
    by (auto simp: powerShellArgs_def encodePwshScript_def intro!: no_special_safe)
  show "\<forall>s \<in> set cmdArgs. safe_arg s"
    by (auto simp: cmdArgs_def safe_arg_def)
qed

lemma windows_wrapper: "Resolve e cmd = Inr r \<Longrightarrow> sh_windows e \<Longrightarrow> sr_Args r = powerShellArgs \<or> sr_Args r = cmdArgs"
  by (auto simp: Resolve_def power_shell_def Let_def split: option.splits if_splits)

text \<open>C33: The command line a terminal's program is started with splits into the program and exactly its
  arguments, as long as no argument of the caller that needs quoting has a backslash before a quotation
  mark or at its end. The wrapper's own arguments for PowerShell and cmd are always of that kind, so the
  shell gets them whole, with the caller's arguments after them.\<close>

theorem terminal_command_line:
  assumes "spawn_target e cmd args = Inr (exe, as, env)" "sh_windows e" "exe \<noteq> []" "CHR 0x22 \<notin> set exe"
    and "\<forall>s \<in> set args. safe_arg s"
  shows "win_split (buildCmdline exe as) = exe # as
    \<and> (cmd \<in> set shell_names \<longrightarrow> as = powerShellArgs @ args \<or> as = cmdArgs @ args)"
proof -
  have form: "if cmd \<in> set shell_names then as = powerShellArgs @ args \<or> as = cmdArgs @ args else as = args"
    using assms(1,2) windows_wrapper [of e cmd] by (auto simp: spawn_target_def split: if_splits sum.splits)
  then have "\<forall>s \<in> set as. safe_arg s" using assms(5) wrapper_args_safe by (auto split: if_splits)
  then show ?thesis using win_split_line [OF assms(3,4)] form by (simp add: Join_quoteArg split: if_splits)
qed

definition demo_windows :: shell_env where
  "demo_windows = \<lparr>sh_windows = True, sh_Getenv = (\<lambda>v. []), sh_LookPath = (\<lambda>n. if n = ''pwsh'' then Some ''C:/Program Files/pwsh.exe'' else None),
     sh_Stat = (\<lambda>p. False), sh_candidate = (\<lambda>cs. []), sh_hook = None\<rparr>"

theorem terminal_command_line_witness:
  "win_split (buildCmdline ''C:/Program Files/pwsh.exe'' (powerShellArgs @ [''a b'', []]))
   = ''C:/Program Files/pwsh.exe'' # powerShellArgs @ [''a b'', []]"
proof -
  have "spawn_target demo_windows ''pwsh'' [''a b'', []] = Inr (''C:/Program Files/pwsh.exe'', powerShellArgs @ [''a b'', []], [])"
    by (simp add: spawn_target_def shell_names_def Resolve_def demo_windows_def power_shell_def)
  moreover have "\<forall>s \<in> set [''a b'', []]. safe_arg s" by (simp add: safe_arg_def)
  ultimately show ?thesis
    using terminal_command_line [of demo_windows "''pwsh''" "[''a b'', []]"] by (auto simp: demo_windows_def)
qed

text \<open>A backslash at the end of an argument that is quoted joins it to the next.\<close>

lemma trailing_backslash_joins:
  "win_split (buildCmdline ''p'' [''a b'' @ [CHR 0x5C], ''c'']) = [''p'', ''a b'' @ [CHR 0x22] @ '' c'']"
  by (simp add: buildCmdline_def Join_blank_def quoteArg_def escape_quotes_def blank_def win_split_def Let_def)

section \<open>Starts by the system\<close>

lemma start_not_handled:
  assumes "plain_args args" "os_Interactive e" "xs = stripLogonTaskFlags (stripServiceFlags args)"
  shows "runService e (exe # xs) = (False, None, None) \<and> runLogonTask e (exe # xs) = (False, None, None)"
proof -
  have "set xs \<subseteq> set (stripServiceFlags args)" using set_stripLogonTaskFlags assms(3) by blast
  then show ?thesis
    using assms(2,3) service_flags_inert [OF assms(1)] task_flags_inert [OF assms(1)]
    by (simp add: runService_def runLogonTask_def svc_action_Nil flag_bool_def Let_def)
qed

text \<open>What an installation registers starts the daemon and never installs again. The service manager starts
  the program with the arguments of the installing call without the control flags, and that start runs
  the daemon with them; a second installation would forward the same arguments. The condition is that no control
  flag was written with an equals sign.\<close>

theorem installed_service_runs_daemon:
  assumes "plain_args args" "runService e (exe # args) = (True, None, Some (cfg, SvcInstall))"
    and "\<not> os_Interactive e'" "os_New e' (serviceConfig (os_darwin e') (sc_Arguments cfg))"
  shows "sc_Arguments cfg = stripServiceFlags args
    \<and> runService e' (exe' # sc_Arguments cfg)
      = (True, if os_Svc e' (serviceConfig (os_darwin e') (sc_Arguments cfg)) SvcRun then None else Some (SvcFailed SvcRun),
         Some (serviceConfig (os_darwin e') (sc_Arguments cfg), SvcRun))"
proof -
  have cfg: "sc_Arguments cfg = stripServiceFlags args"
    using assms(2) by (auto simp: runService_def serviceConfig_def Let_def split: if_splits option.splits)
  have "flag_Parse service_flags (stripServiceFlags args) = []"
    by (rule service_flags_inert [OF assms(1)]) simp
  then show ?thesis using cfg assms(3,4) by (simp add: runService_def svc_action_Nil strip_idem Let_def)
qed

definition task_safe :: "string \<Rightarrow> bool" where
  "task_safe s \<longleftrightarrow> bare s \<or> list_ex blank s \<and> backslash_free_quotes False s"

lemma quoteForSchtasks_quoteArg: "task_safe s \<Longrightarrow> quoteForSchtasks s = quoteArg s \<and> safe_arg s"
  by (auto simp: task_safe_def bare_def quoteForSchtasks_def quoteArg_def safe_arg_def list_ex_iff)

lemma task_action_line:
  assumes "exe \<noteq> []" "CHR 0x22 \<notin> set exe" "\<forall>s \<in> set as. task_safe s"
  shows "win_split (task_action exe as) = exe # as"
proof -
  have "quoteForSchtasks exe = quoteArg exe" using assms(1,2) by (auto simp: quoteForSchtasks_def quoteArg_def list_ex_iff)
  moreover have "map quoteForSchtasks as = map quoteArg as" using assms(3) quoteForSchtasks_quoteArg by simp
  ultimately have "task_action exe as = quoteArg exe @ concat (map (\<lambda>x. '' '' @ quoteArg x) as)"
    by (cases as) (simp_all add: task_action_def quoteAll_def Join_blank_Cons comp_def cong: map_cong)
  then show ?thesis using win_split_line [OF assms(1,2)] assms(3) quoteForSchtasks_quoteArg by simp
qed


definition demo_os :: os_env where
  "demo_os = \<lparr>os_Interactive = True, os_darwin = False, os_New = (\<lambda>c. True), os_Svc = (\<lambda>c x. True), os_Executable = Some ''peershd.exe'',
     os_Abs = (\<lambda>p. Some (''C:/a b/'' @ p)), os_Stat = (\<lambda>p. True), os_Schtasks = (\<lambda>c. (True, []))\<rparr>"

lemma demo_plain: "plain_args [''-install'', ''-listen'', ''x'']" "plain_args [''-install-logon-task'', ''-logon-task-user'', ''me'', ''-listen'', ''x y'']"
  by (simp_all add: plain_args_def service_names_def task_names_def HasPrefix_def)

theorem installed_service_runs_daemon_witness:
  "runService demo_os [''p'', ''-install'', ''-listen'', ''x''] = (True, None, Some (serviceConfig False [''-listen'', ''x''], SvcInstall))
   \<and> runService (demo_os\<lparr>os_Interactive := False\<rparr>) [''p'', ''-listen'', ''x''] = (True, None, Some (serviceConfig False [''-listen'', ''x''], SvcRun))"
proof -
  have r: "runService demo_os [''p'', ''-install'', ''-listen'', ''x''] = (True, None, Some (serviceConfig False [''-listen'', ''x''], SvcInstall))"
    by (simp add: runService_def demo_os_def flag_body_def flag_split_def service_flags_def service_names_def svc_action_def flag_bool_def
        ensureRunnableExePath_def HasPrefix_def ParseBool_def Let_def)
  show ?thesis
    using installed_service_runs_daemon [OF demo_plain(1) r, of "demo_os\<lparr>os_Interactive := False\<rparr>" "''p''"] r
    by (simp add: demo_os_def serviceConfig_def)
qed


text \<open>A control flag with an equals sign is registered with the service, which then installs itself again at
  every start instead of running; and one after a flag of the daemon has no effect at all.\<close>

lemma equals_form_installs_again:
  "svc_action (flag_Parse service_flags (stripServiceFlags [''-install=true''])) = SvcInstall"
  by (simp add: flag_body_def flag_split_def service_flags_def service_names_def svc_action_def flag_bool_def ParseBool_def Let_def)

lemma flag_after_daemon_flag_ignored:
  "os_Interactive e \<Longrightarrow> runService e (exe # ''-listen'' # args) = (False, None, None)"
  by (simp add: runService_def flag_body_def flag_split_def service_flags_def service_names_def svc_action_Nil Let_def)

end
