(* ===== verification/Wake_Pump.thy ===== *)
theory Wake_Pump
  imports Host_Main Rtdb Pty_Manager
begin

text \<open>
  The host's background loops: \<^verbatim>\<open>runWakePump\<close>, \<^verbatim>\<open>runHeartbeat\<close> and \<^verbatim>\<open>runPTYSweeper\<close> of
  \<^verbatim>\<open>windows/cmd/peershd/main.go\<close>, \<^verbatim>\<open>runIdleTicker\<close> of \<^verbatim>\<open>notify.go\<close>, and the life of the wake listener
  (\<^verbatim>\<open>windows/firebase/wakelistener.go\<close>) that feeds the pump. What a \<^verbatim>\<open>select\<close> takes arrives as a list of
  steps; a channel is the list of the values that wait in it.
\<close>

section \<open>Tickers\<close>

datatype tick = TickAt time | CtxDone

fun ticker_loop :: "('s \<Rightarrow> time \<Rightarrow> 's) \<Rightarrow> 's \<Rightarrow> tick list \<Rightarrow> 's" where
  "ticker_loop f s [] = s"
| "ticker_loop f s (CtxDone # ts) = s"
| "ticker_loop f s (TickAt now # ts) = ticker_loop f (f s now) ts"

definition heartbeatEvery :: duration where
  "heartbeatEvery = 5 * minute"

text \<open>\<open>hb\<close> is the heartbeat's result at a time; the loop keeps the results.\<close>

definition runHeartbeat :: "(time \<Rightarrow> rt_err option) \<Rightarrow> tick list \<Rightarrow> rt_err option list" where
  "runHeartbeat hb ts = ticker_loop (\<lambda>rs now. rs @ [hb now]) [] ts"

definition runPTYSweeper :: "'k Manager \<Rightarrow> tick list \<Rightarrow> 'k Manager" where
  "runPTYSweeper mgr ts = ticker_loop (\<lambda>m now. fst (Sweep m now)) mgr ts"

definition runIdleTicker :: "ptyNotifyState \<Rightarrow> tick list \<Rightarrow> ptyNotifyState \<times> fire list" where
  "runIdleTicker s ts =
     ticker_loop (\<lambda>(s, out) now. case maybeFire s Idle now of (s', r) \<Rightarrow> (s', case r of None \<Rightarrow> out | Some f \<Rightarrow> out @ [f]))
       (s, []) ts"

section \<open>The listener's life\<close>

definition rt_Listen ::
  "((string \<times> string) list \<Rightarrow> string) \<Rightarrow> http_do \<Rightarrow> Client_rt \<Rightarrow> string \<Rightarrow> string \<Rightarrow> rt_err + string" where
  "rt_Listen encode do c path idToken =
     exchange do \<lparr>rq_method = ''GET'', rq_url = client_url encode c path (auth_query idToken), rq_body = []\<rparr>"

text \<open>\<open>wl_done\<close> tells whether the channel a finished run closes is closed. \<^verbatim>\<open>Close\<close> waits for it.\<close>

record wl_state =
  wl_running :: bool
  wl_cancelled :: bool
  wl_loops :: nat
  wl_done :: bool

definition NewWakeListener :: wl_state where
  "NewWakeListener = \<lparr>wl_running = False, wl_cancelled = False, wl_loops = 0, wl_done = False\<rparr>"

definition wl_Start :: "wl_state \<Rightarrow> wl_state" where
  "wl_Start w = (if wl_running w then w else w\<lparr>wl_running := True, wl_cancelled := False, wl_loops := Suc (wl_loops w)\<rparr>)"

text \<open>The end of a run; closing a channel twice panics.\<close>

definition wl_run_ends :: "wl_state \<Rightarrow> wl_state option" where
  "wl_run_ends w = (if wl_done w then None else Some (w\<lparr>wl_loops := wl_loops w - 1, wl_done := True\<rparr>))"

definition wl_Close :: "wl_state \<Rightarrow> wl_state option" where
  "wl_Close w =
     (if \<not> wl_running w then Some w
      else
        let w' = w\<lparr>wl_running := False, wl_cancelled := True\<rparr>
        in if wl_loops w' > 0 then wl_run_ends w' else Some w')"

section \<open>The pump\<close>

text \<open>A batch: whether the token and the connection were there, when it began, the rounds of its loop,
  whether the wake request could be deleted, and the events that arrived until the channel was drained.\<close>

record wake_batch =
  wb_token :: bool
  wb_dial :: bool
  wb_start :: time
  wb_rounds :: "(time \<times> host_recv \<times> time \<times> bool) list"
  wb_delete :: bool
  wb_arrivals :: "WakeEvent list"

record wake_pump =
  pm_chan :: "WakeEvent list"
  pm_authz :: "Authz option"
  pm_first :: "WakeEvent list"
  pm_drained :: "WakeEvent list"
  pm_deleted :: "string list"

text \<open>\<^verbatim>\<open>drainWakeChannel\<close>: what it takes and what stays.\<close>

fun drainWakeChannel :: "WakeEvent list \<Rightarrow> WakeEvent list \<times> WakeEvent list" where
  "drainWakeChannel [] = ([], [])"
| "drainWakeChannel (e # ch) = (case drainWakeChannel ch of (gone, rest) \<Rightarrow> (e # gone, rest))"

datatype pump_step = Arrives WakeEvent | Wakes wake_batch | PumpDone

definition wake_step :: "(string \<Rightarrow> bytes option) \<Rightarrow> wake_batch \<Rightarrow> wake_pump \<Rightarrow> wake_pump" where
  "wake_step parseIP b p =
     (case pm_chan p of
        [] \<Rightarrow> p
      | ev # rest \<Rightarrow>
         (case handleWakeBatch parseIP (pm_authz p) (wb_token b) (wb_dial b) (wb_start b) (wb_rounds b) of
            (authz', r) \<Rightarrow>
              (case drainWakeChannel (rest @ wb_arrivals b) of
                 (gone, ch) \<Rightarrow>
                   \<lparr>pm_chan = ch, pm_authz = authz', pm_first = pm_first p @ [ev], pm_drained = pm_drained p @ gone,
                    pm_deleted = pm_deleted p @ (case r of Some (True, t) \<Rightarrow> if wb_delete b then [RequestID ev] else [] | _ \<Rightarrow> [])\<rparr>)))"

fun runWakePump :: "(string \<Rightarrow> bytes option) \<Rightarrow> wake_pump \<Rightarrow> pump_step list \<Rightarrow> wake_pump" where
  "runWakePump parseIP p [] = p"
| "runWakePump parseIP p (PumpDone # ss) = p"
| "runWakePump parseIP p (Arrives ev # ss) = runWakePump parseIP (p\<lparr>pm_chan := pm_chan p @ [ev]\<rparr>) ss"
| "runWakePump parseIP p (Wakes b # ss) = runWakePump parseIP (wake_step parseIP b p) ss"

definition new_pump :: "Authz option \<Rightarrow> wake_pump" where
  "new_pump authz = \<lparr>pm_chan = [], pm_authz = authz, pm_first = [], pm_drained = [], pm_deleted = []\<rparr>"

lemma drain_all [simp]: "drainWakeChannel ch = (ch, [])"
  by (induction ch) auto

section \<open>How long the connection stays open\<close>

text \<open>Rounds follow each other, a receive ends by the deadline, and one without a message ends at it.\<close>

fun rounds_ok :: "time \<Rightarrow> time \<Rightarrow> (time \<times> host_recv \<times> time \<times> bool) list \<Rightarrow> bool" where
  "rounds_ok start deadline [] \<longleftrightarrow> True"
| "rounds_ok start deadline ((now, r, after, sent) # rs) \<longleftrightarrow>
     start \<le> now \<and> now \<le> max start deadline \<and> now \<le> after \<and> (r = RecvDeadline \<longrightarrow> now \<ge> deadline)
     \<and> rounds_ok after (if sent \<and> after + wakeDrainTTL > deadline then after + wakeDrainTTL else deadline) rs"

lemma wake_loop_connect:
  assumes "wake_loop parseIP authz start deadline ((now, RecvConnect m, after, sent) # rs) = (a, e, t)" "start < deadline"
  shows "\<exists>authz'. wake_loop parseIP authz' after (if sent \<and> after + wakeDrainTTL > deadline then after + wakeDrainTTL else deadline) rs
    = (a, e, t)"
  using assms by (cases sent) (auto simp: handle_connect_def)

lemma wake_loop_window:
  "wake_loop parseIP authz start deadline rs = (a, WindowClosed, t) \<Longrightarrow> rounds_ok start deadline rs \<Longrightarrow>
   deadline \<le> t \<and> start \<le> t \<and> (t \<le> max start deadline \<or> (\<exists>(now, r, after, sent) \<in> set rs. t \<le> after + wakeDrainTTL))"
proof (induction rs arbitrary: authz start deadline)
  case Nil
  then show ?case by auto
next
  case (Cons x rs)
  obtain now r after sent where x: "x = (now, r, after, sent)" by (cases x)
  let ?d = "if sent \<and> after + wakeDrainTTL > deadline then after + wakeDrainTTL else deadline"
  have ok: "start \<le> now" "now \<le> max start deadline" "now \<le> after" "r = RecvDeadline \<longrightarrow> now \<ge> deadline" "rounds_ok after ?d rs"
    using Cons.prems(2) x by simp_all
  show ?case
  proof (cases "start < deadline")
    case False
    then have "t = start" using Cons.prems(1) x by simp
    with False show ?thesis by simp
  next
    case open_window: True
    show ?thesis
    proof (cases r)
      case (RecvConnect m)
      obtain authz' where "wake_loop parseIP authz' after ?d rs = (a, WindowClosed, t)"
        using wake_loop_connect open_window Cons.prems(1) x RecvConnect by blast
      from Cons.IH [OF this ok(5)]
      have ih: "?d \<le> t" "after \<le> t" "t \<le> max after ?d \<or> (\<exists>(now, r, after, sent) \<in> set rs. t \<le> after + wakeDrainTTL)"
        by simp_all
      have "deadline \<le> ?d" by simp
      moreover have "max after ?d \<le> max deadline (after + wakeDrainTTL)" by (simp add: wakeDrainTTL_def second_def max_def)
      ultimately show ?thesis using ih ok(1,3) x open_window by (simp only: max_def set_simps bex_simps prod.case split: if_splits) force+
    next
      case RecvDeadline
      then have "t = now" using Cons.prems(1) x open_window by simp
      then show ?thesis using ok RecvDeadline open_window by simp
    qed (use Cons.prems(1) x open_window in simp_all)
  qed
qed


definition demo_batch :: wake_batch where
  "demo_batch = \<lparr>wb_token = True, wb_dial = True, wb_start = 0, wb_rounds = [(15 * second, RecvDeadline, 15 * second, False)],
     wb_delete = True, wb_arrivals = [\<lparr>RequestID = ''r2'', MobileDeviceID = ''m'', CreatedAt = 0\<rparr>]\<rparr>"


section \<open>Wake requests\<close>

text \<open>Every event is the first of a batch, dropped, or waiting, and only requests of first events are deleted.\<close>

fun arrivals :: "WakeEvent list \<Rightarrow> pump_step list \<Rightarrow> WakeEvent list" where
  "arrivals ch [] = []"
| "arrivals ch (PumpDone # ss) = []"
| "arrivals ch (Arrives ev # ss) = ev # arrivals (ch @ [ev]) ss"
| "arrivals ch (Wakes b # ss) = (if ch = [] then arrivals [] ss else wb_arrivals b @ arrivals [] ss)"

definition pump_events :: "wake_pump \<Rightarrow> WakeEvent multiset" where
  "pump_events p = mset (pm_first p) + mset (pm_drained p) + mset (pm_chan p)"

lemma wake_step_events:
  "pump_events (wake_step parseIP b p) = pump_events p + (if pm_chan p = [] then {#} else mset (wb_arrivals b))
    \<and> pm_chan (wake_step parseIP b p) = []"
  by (cases "pm_chan p") (auto simp: wake_step_def pump_events_def split: prod.splits)

lemma wake_step_deleted:
  "set (pm_deleted p) \<subseteq> RequestID ` set (pm_first p) \<Longrightarrow>
   set (pm_deleted (wake_step parseIP b p)) \<subseteq> RequestID ` set (pm_first (wake_step parseIP b p))"
  by (auto simp: wake_step_def split: list.splits prod.splits option.splits if_splits bool.splits)

lemma runWakePump_events: "pump_events (runWakePump parseIP p ss) = pump_events p + mset (arrivals (pm_chan p) ss)"
proof (induction ss arbitrary: p)
  case (Cons s ss)
  show ?case
  proof (cases s)
    case (Arrives ev)
    then show ?thesis using Cons by (simp add: pump_events_def)
  next
    case (Wakes b)
    then show ?thesis using Cons.IH [of "wake_step parseIP b p"] wake_step_events [of parseIP b p] by simp
  qed simp
qed simp

lemma runWakePump_deleted:
  "set (pm_deleted p) \<subseteq> RequestID ` set (pm_first p) \<Longrightarrow>
   set (pm_deleted (runWakePump parseIP p ss)) \<subseteq> RequestID ` set (pm_first (runWakePump parseIP p ss))"
proof (induction ss arbitrary: p)
  case (Cons s ss)
  show ?case
  proof (cases s)
    case (Wakes b)
    then show ?thesis using Cons.IH [OF wake_step_deleted [OF Cons.prems]] by simp
  qed (use Cons in simp_all)
qed simp

text \<open>C40: Every wake event is the first of a batch, dropped after one, or still waiting. A request whose event
  was only dropped is never deleted, so the snapshot at the listener's next connection brings the event again,
  although the requests are meant to fire once.\<close>

theorem dropped_wake_fires_again:
  assumes "q = runWakePump parseIP (new_pump authz) ss" "ev \<in> set (pm_drained q)" "RequestID ev \<notin> RequestID ` set (pm_first q)"
    and "(RequestID ev, raw) \<in> set requests"
      "decode raw = Some \<lparr>TargetDeviceID = dev, doc_MobileDeviceID = MobileDeviceID ev, doc_CreatedAt = CreatedAt ev\<rparr>"
    and "subtree data = Some (filter (\<lambda>(rid, raw). rid \<notin> set (pm_deleted q)) requests)" "\<not> isJSONNull data"
  shows "mset (pm_first q) + mset (pm_drained q) + mset (pm_chan q) = mset (arrivals [] ss)
    \<and> ev \<in> set (wl_dispatch decode subtree dev \<lparr>ev_Kind = ''put'', ev_Path = ''/'', ev_Data = data\<rparr>)"
proof -
  have "RequestID ev \<notin> set (pm_deleted q)"
    using runWakePump_deleted [of "new_pump authz" parseIP ss] assms(1,3) by (auto simp: new_pump_def)
  then have "ev \<in> set (wl_dispatch decode subtree dev \<lparr>ev_Kind = ''put'', ev_Path = ''/'', ev_Data = data\<rparr>)"
    using assms(4-7) by (force simp: wl_dispatch_def maybeEmit_def)
  moreover have "pump_events q = mset (arrivals [] ss)"
    using runWakePump_events [of parseIP "new_pump authz" ss] assms(1) by (simp add: new_pump_def pump_events_def)
  ultimately show ?thesis by (simp add: pump_events_def)
qed

definition demo_ss :: "pump_step list" where
  "demo_ss = [Arrives \<lparr>RequestID = ''r1'', MobileDeviceID = ''m'', CreatedAt = 0\<rparr>, Wakes demo_batch]"

theorem dropped_wake_fires_again_witness:
  "\<exists>ev \<in> set (pm_drained (runWakePump (\<lambda>s. None) (new_pump None) demo_ss)). RequestID ev = ''r2''
     \<and> ev \<in> set (wl_dispatch (\<lambda>raw. Some \<lparr>TargetDeviceID = ''d'', doc_MobileDeviceID = ''m'', doc_CreatedAt = 0\<rparr>)
         (\<lambda>s. Some [(''r2'', ''x'')]) ''d'' \<lparr>ev_Kind = ''put'', ev_Path = ''/'', ev_Data = ''x''\<rparr>)"
proof -
  let ?q = "runWakePump (\<lambda>s. None) (new_pump None) demo_ss"
  let ?e = "\<lparr>RequestID = ''r2'', MobileDeviceID = ''m'', CreatedAt = 0\<rparr> :: WakeEvent"
  have q: "pm_drained ?q = [?e]" "RequestID ` set (pm_first ?q) = {''r1''}" "pm_deleted ?q = [''r1'']"
    by (simp_all add: demo_ss_def new_pump_def wake_step_def handleWakeBatch_def demo_batch_def wakeShortTTL_def second_def)
  let ?reqs = "[(''r1'', ''x''), (''r2'', ''x'')]"
  let ?dec = "\<lambda>raw :: string. Some \<lparr>TargetDeviceID = ''d'', doc_MobileDeviceID = ''m'', doc_CreatedAt = 0\<rparr>"
  have f: "filter (\<lambda>(rid, raw). rid \<notin> set (pm_deleted ?q)) ?reqs = [(''r2'', ''x'')]" by (simp add: q(3))
  have "mset (pm_first ?q) + mset (pm_drained ?q) + mset (pm_chan ?q) = mset (arrivals [] demo_ss)
    \<and> ?e \<in> set (wl_dispatch ?dec (\<lambda>s. Some [(''r2'', ''x'')]) ''d'' \<lparr>ev_Kind = ''put'', ev_Path = ''/'', ev_Data = ''x''\<rparr>)"
    by (rule dropped_wake_fires_again [where requests = ?reqs and raw = "''x''", OF refl])
      (simp_all only: f, simp_all add: q isJSONNull_def)
  then show ?thesis using q(1) by simp
qed

text \<open>A listener that is closed and started again panics when it ends.\<close>

lemma restarted_listener_panics:
  "Option.bind (wl_Close (wl_Start NewWakeListener)) (wl_Close \<circ> wl_Start) = None"
  by (simp add: wl_Close_def wl_Start_def NewWakeListener_def wl_run_ends_def Let_def)

end
