(* ===== verification/Admin.thy ===== *)
theory Admin
  imports Auth
begin

text \<open>
  \<^verbatim>\<open>server/admin\<close>: how an operator adds, revokes and deletes a pre-shared key. The functions take
  any \<^verbatim>\<open>store.Store\<close>, so the model takes its operations as arguments; the random secret and the
  clock are arguments too. What the functions achieve is proved once, over the store's laws,
  and instantiated for the memory store.
\<close>

definition SecretLength :: nat where
  "SecretLength = 32"

datatype admin_err = EmptyUser | ErrUserExists | LookupError store_err | SecretError | PutError store_err

record AddResult =
  a_UserID :: string
  a_Secret :: bytes
  a_SecretHex :: string
  a_CreatedAt :: time
  a_Label :: string

definition AddPSK ::
  "('s \<Rightarrow> string \<Rightarrow> store_err + PSKRecord) \<Rightarrow> ('s \<Rightarrow> PSKRecord \<Rightarrow> store_err + 's)
     \<Rightarrow> ('s \<Rightarrow> string \<Rightarrow> store_err + User) \<Rightarrow> ('s \<Rightarrow> User \<Rightarrow> store_err + 's)
     \<Rightarrow> bytes option \<Rightarrow> time \<Rightarrow> 's \<Rightarrow> string \<Rightarrow> string \<Rightarrow> 's \<times> (admin_err + AddResult)" where
  "AddPSK getPSK putPSK getUser putUser rnd now s userID label =
     (if userID = [] then (s, Inl EmptyUser)
      else
       (case getPSK s userID of
          Inr _ \<Rightarrow> (s, Inl ErrUserExists)
        | Inl e \<Rightarrow>
            if e \<noteq> ErrNotFound then (s, Inl (LookupError e))
            else
             (case rnd of
                None \<Rightarrow> (s, Inl SecretError)
              | Some secret \<Rightarrow>
                 (case putPSK s \<lparr>r_UserID = userID, r_Secret = secret, r_DisplayLabel = label,
                                 r_CreatedAt = now, r_RevokedAt = 0\<rparr> of
                    Inl e \<Rightarrow> (s, Inl (PutError e))
                  | Inr s1 \<Rightarrow>
                      let s2 = (if getUser s1 userID = Inl ErrNotFound
                                then (case putUser s1 \<lparr>u_ID = userID, u_AuthProvider = AuthProviderPSK,
                                                       u_CreatedAt = now\<rparr> of
                                        Inl _ \<Rightarrow> s1 | Inr s' \<Rightarrow> s')
                                else s1)
                      in (s2, Inr \<lparr>a_UserID = userID, a_Secret = secret, a_SecretHex = hex_encode secret,
                                   a_CreatedAt = now, a_Label = label\<rparr>)))))"

definition ListPSKs :: "('s \<Rightarrow> store_err + PSKRecord list) \<Rightarrow> 's \<Rightarrow> store_err + PSKRecord list" where
  "ListPSKs listPSK s = listPSK s"

definition RevokePSK ::
  "('s \<Rightarrow> string \<Rightarrow> store_err + PSKRecord) \<Rightarrow> ('s \<Rightarrow> PSKRecord \<Rightarrow> store_err + 's) \<Rightarrow> time \<Rightarrow> 's \<Rightarrow> string
     \<Rightarrow> 's \<times> admin_err option" where
  "RevokePSK getPSK putPSK now s userID =
     (case getPSK s userID of
        Inl e \<Rightarrow> (s, Some (LookupError e))
      | Inr rec \<Rightarrow>
          if IsRevoked rec then (s, None)
          else (case putPSK s (rec\<lparr>r_RevokedAt := now\<rparr>) of
                  Inl e \<Rightarrow> (s, Some (PutError e))
                | Inr s' \<Rightarrow> (s', None)))"

definition DeletePSK :: "('s \<Rightarrow> string \<Rightarrow> store_err + 's) \<Rightarrow> 's \<Rightarrow> string \<Rightarrow> store_err + 's" where
  "DeletePSK delPSK s userID = delPSK s userID"

section \<open>Over any store\<close>

locale psk_backend =
  keys: del_table getPSK putPSK r_UserID ok delPSK + people: table getUser putUser u_ID ok
  for getPSK :: "'s \<Rightarrow> string \<Rightarrow> store_err + PSKRecord" and putPSK and delPSK
    and getUser :: "'s \<Rightarrow> string \<Rightarrow> store_err + User" and putUser and ok +
  assumes putUser_keys: "ok s \<Longrightarrow> putUser s u = Inr s' \<Longrightarrow> getPSK s' k = getPSK s k"
    and putPSK_people: "ok s \<Longrightarrow> putPSK s r = Inr s' \<Longrightarrow> getUser s' k = getUser s k"
begin

lemma AddPSK_new:
  assumes "ok s" and "userID \<noteq> []" and "getPSK s userID = Inl ErrNotFound"
  shows "\<exists>s' r. AddPSK getPSK putPSK getUser putUser (Some secret) now s userID label = (s', Inr r)
    \<and> ok s' \<and> a_Secret r = secret \<and> (\<exists>u. getUser s' userID = Inr u)
    \<and> getPSK s' k = (if k = userID
         then Inr \<lparr>r_UserID = userID, r_Secret = secret, r_DisplayLabel = label, r_CreatedAt = now, r_RevokedAt = 0\<rparr>
         else getPSK s k)"
proof -
  let ?rec = "\<lparr>r_UserID = userID, r_Secret = secret, r_DisplayLabel = label, r_CreatedAt = now, r_RevokedAt = 0\<rparr>"
  let ?u = "\<lparr>u_ID = userID, u_AuthProvider = AuthProviderPSK, u_CreatedAt = now\<rparr>"
  obtain s1 where s1: "putPSK s ?rec = Inr s1" using keys.put_total [OF assms(1)] by blast
  have ok1: "ok s1" using keys.put_ok [OF assms(1) s1] .
  obtain s2 where s2: "putUser s1 ?u = Inr s2" using people.put_total [OF ok1] by blast
  have ok2: "ok s2" using people.put_ok [OF ok1 s2] .
  have k1: "getPSK s1 k = (if k = userID then Inr ?rec else getPSK s k)"
    using keys.get_put [OF assms(1) s1] by simp
  show ?thesis
    using assms s1 ok1 s2 ok2 k1 putUser_keys [OF ok1 s2] people.get_put [OF ok1 s2, of userID]
      people.get_err [OF ok1, of userID]
    by (cases "getUser s1 userID") (auto simp: AddPSK_def Let_def)
qed

lemma AddPSK_exists:
  "getPSK s userID = Inr r \<Longrightarrow> userID \<noteq> [] \<Longrightarrow>
     AddPSK getPSK putPSK getUser putUser rnd now s userID label = (s, Inl ErrUserExists)"
  by (simp add: AddPSK_def)

lemma RevokePSK_revokes:
  assumes "ok s" and "getPSK s userID = Inr r" and "now \<noteq> 0"
  shows "\<exists>s' r'. RevokePSK getPSK putPSK now s userID = (s', None) \<and> ok s'
    \<and> getPSK s' userID = Inr r' \<and> IsRevoked r' \<and> r_Secret r' = r_Secret r
    \<and> (k \<noteq> userID \<longrightarrow> getPSK s' k = getPSK s k)"
proof (cases "IsRevoked r")
  case True
  with assms show ?thesis by (simp add: RevokePSK_def)
next
  case False
  obtain s1 where s1: "putPSK s (r\<lparr>r_RevokedAt := now\<rparr>) = Inr s1" using keys.put_total [OF assms(1)] by blast
  have "r_UserID r = userID" using keys.get_key [OF assms(1,2)] .
  then show ?thesis
    using False assms s1 keys.put_ok [OF assms(1) s1] keys.get_put [OF assms(1) s1]
    by (simp add: RevokePSK_def IsRevoked_def)
qed

end

interpretation mem: psk_backend GetPSKRecord PutPSKRecord DeletePSKRecord GetUser PutUser mem_ok
  by unfold_locales (auto simp: mem_defs)

abbreviation mem_AddPSK :: "bytes option \<Rightarrow> time \<Rightarrow> mem_store \<Rightarrow> string \<Rightarrow> string \<Rightarrow> mem_store \<times> (admin_err + AddResult)" where
  "mem_AddPSK \<equiv> AddPSK GetPSKRecord PutPSKRecord GetUser PutUser"

abbreviation mem_RevokePSK :: "time \<Rightarrow> mem_store \<Rightarrow> string \<Rightarrow> mem_store \<times> admin_err option" where
  "mem_RevokePSK \<equiv> RevokePSK GetPSKRecord PutPSKRecord"

text \<open>The life of a key. Adding a key for a new user stores the generated secret, not
  revoked, creates the user, and touches nobody else's key; adding it again is refused and
  changes nothing, so a secret is never silently replaced. Revoking marks the record and keeps the
  secret; deleting makes the user unknown.\<close>

theorem psk_lifecycle:
  assumes "mem_ok s" and "u \<noteq> []" and "GetPSKRecord s u = Inl ErrNotFound" and "t2 \<noteq> 0"
  shows "\<exists>s1 r1 s2 rec. mem_AddPSK (Some secret) t1 s u label = (s1, Inr r1) \<and> a_Secret r1 = secret
    \<and> GetPSKRecord s1 u = Inr \<lparr>r_UserID = u, r_Secret = secret, r_DisplayLabel = label, r_CreatedAt = t1, r_RevokedAt = 0\<rparr>
    \<and> (\<exists>usr. GetUser s1 u = Inr usr)
    \<and> mem_AddPSK rnd t1' s1 u label' = (s1, Inl ErrUserExists)
    \<and> mem_RevokePSK t2 s1 u = (s2, None) \<and> GetPSKRecord s2 u = Inr rec \<and> IsRevoked rec \<and> r_Secret rec = secret
    \<and> (k \<noteq> u \<longrightarrow> GetPSKRecord s2 k = GetPSKRecord s k)
    \<and> (\<exists>s3. DeletePSK DeletePSKRecord s2 u = Inr s3 \<and> GetPSKRecord s3 u = Inl ErrNotFound)"
proof -
  let ?rec = "\<lparr>r_UserID = u, r_Secret = secret, r_DisplayLabel = label, r_CreatedAt = t1, r_RevokedAt = 0\<rparr>"
  obtain s1 r1 where s1: "mem_AddPSK (Some secret) t1 s u label = (s1, Inr r1)" "mem_ok s1" "a_Secret r1 = secret"
      "\<exists>usr. GetUser s1 u = Inr usr" "GetPSKRecord s1 u = Inr ?rec"
    using mem.AddPSK_new [OF assms(1-3), of secret t1 label u] by auto
  have other: "k \<noteq> u \<longrightarrow> GetPSKRecord s1 k = GetPSKRecord s k"
    using mem.AddPSK_new [OF assms(1-3), of secret t1 label k] s1(1) by auto
  obtain s2 rec where s2: "mem_RevokePSK t2 s1 u = (s2, None)" "mem_ok s2" "GetPSKRecord s2 u = Inr rec" "IsRevoked rec"
      "r_Secret rec = secret" "k \<noteq> u \<longrightarrow> GetPSKRecord s2 k = GetPSKRecord s1 k"
    using mem.RevokePSK_revokes [OF s1(2,5) assms(4), of k] by auto
  have "\<exists>s3. DeletePSK DeletePSKRecord s2 u = Inr s3 \<and> GetPSKRecord s3 u = Inl ErrNotFound"
    using psk.del_present [OF s2(2,3)] by (auto simp: DeletePSK_def)
  with s1 s2 other mem.AddPSK_exists [OF s1(5) assms(2), of rnd t1' label'] show ?thesis by auto
qed

lemma psk_lifecycle_witness:
  "\<exists>s1 r1. mem_AddPSK (Some [1, 2]) 5 mem_New ''bob'' [] = (s1, Inr r1)
     \<and> mem_AddPSK (Some [3]) 6 s1 ''bob'' [] = (s1, Inl ErrUserExists)"
  using psk_lifecycle [OF mem_ok_New, of "''bob''" 9 "[1, 2]" 5 "[]" "Some [3]" 6 "[]" "''k''"]
  by (auto simp: GetPSKRecord_def mem_New_def)

text \<open>Revoking a key takes effect at once: from then on no credentials of that user are
  accepted, whatever the secret, the nonce and the clock.\<close>

theorem revoked_rejected:
  assumes "mem_ok s" and "GetPSKRecord s u = Inr r" and "t \<noteq> 0" and "mem_RevokePSK t s u = (s', err)"
    and "c_UserID pc = u"
  shows "err = None \<and> (\<exists>e. snd (psk_Authenticate hmac (GetPSKRecord s') p (Some (PskCreds pc)) now) = Inl e
    \<and> e \<in> {ErrNonceShape, ErrTimestampSkew, ErrRevoked})"
proof -
  obtain r' where "err = None" "GetPSKRecord s' u = Inr r'" "IsRevoked r'"
    using mem.RevokePSK_revokes [OF assms(1-3)] assms(4) by auto
  then show ?thesis using assms(5) by (auto simp: psk_Authenticate_def)
qed

lemma revoked_rejected_witness:
  "\<exists>s' e. mem_RevokePSK 9 (fst (mem_AddPSK (Some [1]) 5 mem_New ''u'' [])) ''u'' = (s', None)
     \<and> snd (psk_Authenticate (\<lambda>k b. []) (GetPSKRecord s') psk_New (Some (PskCreds (demo_creds 1800000000))) demo_now) = Inl e"
proof -
  let ?s = "fst (mem_AddPSK (Some [1]) 5 mem_New ''u'' [])"
  have "mem_ok ?s \<and> (\<exists>r. GetPSKRecord ?s ''u'' = Inr r)"
    using mem.AddPSK_new [OF mem_ok_New, of "''u''" "[1]" 5 "[]" "''u''"] by (auto simp: GetPSKRecord_def mem_New_def)
  then obtain r where r: "mem_ok ?s" "GetPSKRecord ?s ''u'' = Inr r" by blast
  obtain s' err where s': "mem_RevokePSK 9 ?s ''u'' = (s', err)" by fastforce
  from revoked_rejected [OF r _ s', of "demo_creds 1800000000" "\<lambda>k b. []" psk_New demo_now] s' show ?thesis by (auto simp: demo_creds_def)
qed

end
