(* ===== verification/Ratelimit.thy ===== *)
theory Ratelimit
  imports Complex_Main Peersh_Prelude
begin

text \<open>
  \<^verbatim>\<open>server/ratelimit\<close>: a token bucket per key, refilled by elapsed time and pruned when idle.

  The token counts are \<^verbatim>\<open>float64\<close> in the code. The model computes them as rationals with
  the rounding of each operation as the parameter \<open>fl\<close>; \<open>fl = id\<close> is exact arithmetic. The
  bounds on the counts hold for every monotone rounding that represents the capacity and zero,
  the rate bound is stated for exact arithmetic.
\<close>

record bucket_entry =
  tokens :: rat
  last_check :: time

record Bucket =
  rate :: rat
  capacity :: rat
  idleTTL :: duration
  buckets :: "(string, bucket_entry) gomap"

definition bucket_New :: "rat \<Rightarrow> rat \<Rightarrow> Bucket" where
  "bucket_New r c = \<lparr>rate = r, capacity = c, idleTTL = 10 * minute, buckets = []\<rparr>"

definition Seconds :: "(rat \<Rightarrow> rat) \<Rightarrow> duration \<Rightarrow> rat" where
  "Seconds fl d = fl (of_int d / of_int second)"

definition refill :: "(rat \<Rightarrow> rat) \<Rightarrow> Bucket \<Rightarrow> time \<Rightarrow> bucket_entry \<Rightarrow> bucket_entry" where
  "refill fl b now e =
     (let dt = Seconds fl (time_sub now (last_check e));
          t = fl (tokens e + fl (dt * rate b))
      in \<lparr>tokens = (if t > capacity b then capacity b else t), last_check = now\<rparr>)"

definition bucket_Allow :: "(rat \<Rightarrow> rat) \<Rightarrow> Bucket \<Rightarrow> string \<Rightarrow> time \<Rightarrow> Bucket \<times> bool" where
  "bucket_Allow fl b key now =
     (let e = (case gm_get (buckets b) key of
                 None \<Rightarrow> \<lparr>tokens = capacity b, last_check = now\<rparr>
               | Some e \<Rightarrow> refill fl b now e);
          es = gm_put key e (buckets b);
          kept = gm_retain (\<lambda>k ent. \<not> time_sub now (last_check ent) > idleTTL b) es
      in if tokens e < 1 then (b\<lparr>buckets := kept\<rparr>, False)
         else (b\<lparr>buckets :=
                  (if gm_get kept key = None then kept
                   else gm_put key (e\<lparr>tokens := fl (tokens e - 1)\<rparr>) kept)\<rparr>, True))"

definition bucket_Reset :: "Bucket \<Rightarrow> Bucket" where
  "bucket_Reset b = b\<lparr>buckets := []\<rparr>"

section \<open>Invariant\<close>

definition bucket_ok :: "Bucket \<Rightarrow> bool" where
  "bucket_ok b \<longleftrightarrow> gomap_ok (buckets b) \<and> 0 \<le> rate b \<and> 0 \<le> capacity b \<and> 0 \<le> idleTTL b \<and> idleTTL b < maxDuration
     \<and> (\<forall>k e. gm_get (buckets b) k = Some e \<longrightarrow> 0 \<le> tokens e \<and> tokens e \<le> capacity b)"

text \<open>A rounding that can be trusted with the bounds: monotone, and exact on zero and the
  capacity.\<close>

definition rounding :: "(rat \<Rightarrow> rat) \<Rightarrow> rat \<Rightarrow> bool" where
  "rounding fl c \<longleftrightarrow> mono fl \<and> fl 0 = 0 \<and> fl c = c"

lemma rounding_nonneg: "rounding fl c \<Longrightarrow> 0 \<le> x \<Longrightarrow> 0 \<le> fl x"
  unfolding rounding_def by (metis monoD)

lemma rounding_le: "rounding fl c \<Longrightarrow> x \<le> c \<Longrightarrow> fl x \<le> c"
  unfolding rounding_def by (metis monoD)

lemma rounding_id: "rounding id c"
  by (simp add: rounding_def mono_def)

lemma Allow_prune_get:
  assumes "bucket_ok b"
  shows "gm_get (gm_retain (\<lambda>k ent. \<not> time_sub now (last_check ent) > idleTTL b) (gm_put key e (buckets b))) k
    = (if k = key then (if now - last_check e > idleTTL b then None else Some e)
       else (case gm_get (buckets b) k of None \<Rightarrow> None
             | Some ent \<Rightarrow> if now - last_check ent > idleTTL b then None else Some ent))"
  using assms by (simp add: gm_get_retain bucket_ok_def time_sub_gt_iff split: option.splits)

lemma refill_bounds:
  assumes "rounding fl (capacity b)" and "bucket_ok b" and "0 \<le> tokens e" and "last_check e \<le> now"
  shows "0 \<le> tokens (refill fl b now e)" "tokens (refill fl b now e) \<le> capacity b" "last_check (refill fl b now e) = now"
proof -
  have "0 \<le> time_sub now (last_check e)" using assms(4) by (auto simp: time_sub_def maxDuration_def)
  then have "0 \<le> Seconds fl (time_sub now (last_check e))"
    using assms(1) by (simp add: Seconds_def rounding_nonneg second_def)
  then have "0 \<le> fl (tokens e + fl (Seconds fl (time_sub now (last_check e)) * rate b))"
    using assms by (intro rounding_nonneg [OF assms(1)] add_nonneg_nonneg mult_nonneg_nonneg)
      (simp_all add: bucket_ok_def)
  then show "0 \<le> tokens (refill fl b now e)"
    using assms(2) by (simp add: refill_def Let_def bucket_ok_def)
qed (simp_all add: refill_def Let_def)


definition checked_by :: "Bucket \<Rightarrow> time \<Rightarrow> bool" where
  "checked_by b t \<longleftrightarrow> (\<forall>k e. gm_get (buckets b) k = Some e \<longrightarrow> last_check e \<le> t)"

definition current :: "(rat \<Rightarrow> rat) \<Rightarrow> Bucket \<Rightarrow> string \<Rightarrow> time \<Rightarrow> bucket_entry" where
  "current fl b key now =
     (case gm_get (buckets b) key of
        None \<Rightarrow> \<lparr>tokens = capacity b, last_check = now\<rparr>
      | Some e \<Rightarrow> refill fl b now e)"

lemma current_bounds:
  assumes "rounding fl (capacity b)" and "bucket_ok b" and "checked_by b now"
  shows "0 \<le> tokens (current fl b key now)" "tokens (current fl b key now) \<le> capacity b"
    "last_check (current fl b key now) = now"
  using assms refill_bounds [OF assms(1,2), of _ now]
  by (auto simp: current_def bucket_ok_def checked_by_def split: option.splits simp del: map_of_eq_Some_iff)

text \<open>What one call answers, and the entry it leaves under every key.\<close>

lemma Allow_get:
  assumes "bucket_ok b" and "last_check (current fl b key now) = now"
  shows "snd (bucket_Allow fl b key now) \<longleftrightarrow> 1 \<le> tokens (current fl b key now)"
    and "gm_get (buckets (fst (bucket_Allow fl b key now))) k
      = (if k = key then Some (let e = current fl b key now
                               in if 1 \<le> tokens e then e\<lparr>tokens := fl (tokens e - 1)\<rparr> else e)
         else (case gm_get (buckets b) k of None \<Rightarrow> None
               | Some ent \<Rightarrow> if now - last_check ent > idleTTL b then None else Some ent))"
    and "gomap_ok (buckets (fst (bucket_Allow fl b key now)))"
    and "rate (fst (bucket_Allow fl b key now)) = rate b"
    and "capacity (fst (bucket_Allow fl b key now)) = capacity b"
    and "idleTTL (fst (bucket_Allow fl b key now)) = idleTTL b"
proof -
  define kept where "kept = gm_retain (\<lambda>k ent. \<not> time_sub now (last_check ent) > idleTTL b)
      (gm_put key (current fl b key now) (buckets b))"
  have prune: "gm_get kept k = (if k = key then Some (current fl b key now)
       else (case gm_get (buckets b) k of None \<Rightarrow> None
             | Some ent \<Rightarrow> if now - last_check ent > idleTTL b then None else Some ent))" for k
    unfolding kept_def Allow_prune_get [OF assms(1)] using assms by (simp add: bucket_ok_def)
  have ok: "gomap_ok kept"
    unfolding kept_def using assms(1) by (simp add: bucket_ok_def)
  have A: "bucket_Allow fl b key now =
     (let e = current fl b key now
      in if tokens e < 1 then (b\<lparr>buckets := kept\<rparr>, False)
         else (b\<lparr>buckets := gm_put key (e\<lparr>tokens := fl (tokens e - 1)\<rparr>) kept\<rparr>, True))"
    using prune [of key] unfolding kept_def by (simp add: bucket_Allow_def current_def Let_def)
  show "snd (bucket_Allow fl b key now) \<longleftrightarrow> 1 \<le> tokens (current fl b key now)"
    by (simp add: A Let_def not_less)
  show "gm_get (buckets (fst (bucket_Allow fl b key now))) k
      = (if k = key then Some (let e = current fl b key now
                               in if 1 \<le> tokens e then e\<lparr>tokens := fl (tokens e - 1)\<rparr> else e)
         else (case gm_get (buckets b) k of None \<Rightarrow> None
               | Some ent \<Rightarrow> if now - last_check ent > idleTTL b then None else Some ent))"
    by (simp add: A Let_def prune not_less)
  show "gomap_ok (buckets (fst (bucket_Allow fl b key now)))"
    using ok by (simp add: A Let_def)
qed (simp_all add: bucket_Allow_def Let_def)

lemma Allow_ok:
  assumes "rounding fl (capacity b)" and "bucket_ok b" and "checked_by b now"
  shows "bucket_ok (fst (bucket_Allow fl b key now))" and "checked_by (fst (bucket_Allow fl b key now)) now"
proof -
  note c = current_bounds [OF assms, of key]
  note G = Allow_get [OF assms(2) c(3)]
  have "0 \<le> fl (tokens (current fl b key now) - 1) \<and> fl (tokens (current fl b key now) - 1) \<le> capacity b"
    if "1 \<le> tokens (current fl b key now)"
    using that c by (auto intro!: rounding_nonneg [OF assms(1)] rounding_le [OF assms(1)])
  then show "bucket_ok (fst (bucket_Allow fl b key now))"
    using assms(2) c G(3) unfolding bucket_ok_def G(2,4,5,6)
    by (auto simp: Let_def split: if_splits option.splits simp del: map_of_eq_Some_iff)
  show "checked_by (fst (bucket_Allow fl b key now)) now"
    using assms(3) c unfolding checked_by_def G(2)
    by (auto simp: Let_def split: if_splits option.splits simp del: map_of_eq_Some_iff)
qed


section \<open>The rate bound\<close>

text \<open>The tokens a key would have at a time, whether or not its entry has been pruned.\<close>

definition level :: "Bucket \<Rightarrow> string \<Rightarrow> time \<Rightarrow> rat" where
  "level b k now =
     (case gm_get (buckets b) k of
        None \<Rightarrow> capacity b
      | Some e \<Rightarrow> min (capacity b) (tokens e + of_int (now - last_check e) / of_int second * rate b))"

text \<open>An entry idle long enough to be pruned would be full again: the condition under which
  pruning is unobservable.\<close>

definition prune_safe :: "Bucket \<Rightarrow> bool" where
  "prune_safe b \<longleftrightarrow> capacity b \<le> of_int (idleTTL b) / of_int second * rate b"

lemma refill_time_mono: "d \<le> d' \<Longrightarrow> 0 \<le> rate b \<Longrightarrow> of_int d / of_int second * rate b \<le> of_int d' / of_int second * rate b"
  by (intro mult_right_mono divide_right_mono) (simp_all add: second_def)

lemma refill_time_add:
  "of_int (a - d) / of_int second * rate b
     = of_int (a - c) / of_int second * rate b + of_int (c - d) / of_int second * rate b"
  for a c d :: int
  by (simp add: second_def field_simps)

lemma current_level:
  assumes "bucket_ok b" and "prune_safe b" and "checked_by b now"
  shows "tokens (current id b k now) = level b k now"
proof (cases "gm_get (buckets b) k")
  case None
  then show ?thesis by (simp add: current_def level_def)
next
  case (Some e)
  have e: "0 \<le> tokens e" "last_check e \<le> now" and b: "0 \<le> rate b" "idleTTL b < maxDuration"
    using assms(1,3) Some by (auto simp: bucket_ok_def checked_by_def simp del: map_of_eq_Some_iff)
  show ?thesis
  proof (cases "now - last_check e \<le> maxDuration")
    case True
    then have "time_sub now (last_check e) = now - last_check e"
      using e by (simp add: time_sub_eq minDuration_def)
    then show ?thesis using Some by (simp add: current_def level_def refill_def Let_def Seconds_def min_def)
  next
    case False
    then have t: "time_sub now (last_check e) = maxDuration" by (simp add: time_sub_def minDuration_def maxDuration_def)
    have "capacity b \<le> tokens e + of_int d / of_int second * rate b" if "idleTTL b \<le> d" for d
      using refill_time_mono [OF that b(1)] assms(2) e(1) by (simp add: prune_safe_def)
    from this [of maxDuration] this [of "now - last_check e"] show ?thesis
      using Some False b(2) by (simp add: current_def level_def refill_def Let_def Seconds_def t min_def)
  qed
qed

lemma level_grows:
  assumes "bucket_ok b" and "t \<le> t'"
  shows "level b k t' \<le> level b k t + of_int (t' - t) / of_int second * rate b"
proof (cases "gm_get (buckets b) k")
  case None
  then show ?thesis using refill_time_mono [of 0 "t' - t" b] assms by (simp add: level_def bucket_ok_def)
next
  case (Some e)
  have "0 \<le> of_int (t' - t) / of_int second * rate b"
    using refill_time_mono [of 0 "t' - t" b] assms by (simp add: bucket_ok_def)
  moreover have "of_int (t' - last_check e) / of_int second * rate b
      = of_int (t - last_check e) / of_int second * rate b + of_int (t' - t) / of_int second * rate b"
    using refill_time_add [of "t'" "last_check e" b t] by simp
  ultimately show ?thesis unfolding level_def Some option.case min_def by (simp add: algebra_simps)
qed

lemma Allow_level:
  assumes "bucket_ok b" and "prune_safe b" and "checked_by b now"
  shows "snd (bucket_Allow id b k now) \<longleftrightarrow> 1 \<le> level b k now"
    and "level (fst (bucket_Allow id b key now)) k now
      = level b k now - (if k = key \<and> snd (bucket_Allow id b key now) then 1 else 0)"
proof -
  note r = rounding_id [of "capacity b"]
  note c = current_bounds [OF r assms(1,3)]
  note G = Allow_get [OF assms(1) c(3)]
  show "snd (bucket_Allow id b k now) \<longleftrightarrow> 1 \<le> level b k now"
    by (simp add: G(1) current_level [OF assms])
  show "level (fst (bucket_Allow id b key now)) k now
      = level b k now - (if k = key \<and> snd (bucket_Allow id b key now) then 1 else 0)"
  proof (cases "k = key")
    case True
    have "level (fst (bucket_Allow id b key now)) k now
        = (if 1 \<le> tokens (current id b key now) then tokens (current id b key now) - 1 else tokens (current id b key now))"
      unfolding level_def G(2,4,5) using True c [of key] by (simp add: Let_def min_def)
    then show ?thesis using True by (simp add: G(1) current_level [OF assms])
  next
    case False
    have "capacity b \<le> tokens e + of_int (now - last_check e) / of_int second * rate b"
      if "gm_get (buckets b) k = Some e" "idleTTL b < now - last_check e" for e
    proof -
      have "of_int (idleTTL b) / of_int second * rate b \<le> of_int (now - last_check e) / of_int second * rate b"
        using that(2) assms(1) by (intro refill_time_mono) (simp_all add: bucket_ok_def)
      moreover have "0 \<le> tokens e" using assms(1) that(1) unfolding bucket_ok_def by blast
      ultimately show ?thesis using assms(2) unfolding prune_safe_def by linarith
    qed
    then show ?thesis unfolding level_def G(2,4,5) using False
      by (auto split: option.splits simp: min_def)
  qed
qed

fun allow_run :: "(rat \<Rightarrow> rat) \<Rightarrow> Bucket \<Rightarrow> (string \<times> time) list \<Rightarrow> bool list" where
  "allow_run fl b [] = []"
| "allow_run fl b ((k, t) # cs) = (case bucket_Allow fl b k t of (b', ok) \<Rightarrow> ok # allow_run fl b' cs)"

fun granted :: "string \<Rightarrow> (string \<times> time) list \<Rightarrow> bool list \<Rightarrow> nat" where
  "granted k ((k', t) # cs) (r # rs) = (if k' = k \<and> r then 1 else 0) + granted k cs rs"
| "granted k _ _ = 0"

lemma granted_le_level:
  assumes "bucket_ok b" and "prune_safe b" and "checked_by b t0"
    and "sorted (map snd cs)" and "\<forall>(k', t) \<in> set cs. t0 \<le> t \<and> t \<le> T" and "t0 \<le> T"
  shows "of_nat (granted k cs (allow_run id b cs)) \<le> level b k t0 + of_int (T - t0) / of_int second * rate b"
  using assms
proof (induction cs arbitrary: b t0)
  case Nil
  have "0 \<le> tokens e + of_int (t0 - last_check e) / of_int second * rate b" if "gm_get (buckets b) k = Some e" for e
  proof -
    have "last_check e \<le> t0" "0 \<le> tokens e" "0 \<le> rate b"
      using Nil.prems(1,3) that unfolding bucket_ok_def checked_by_def by blast+
    then show ?thesis using refill_time_mono [of 0 "t0 - last_check e" b] by simp
  qed
  then have "0 \<le> level b k t0"
    using Nil.prems(1) by (simp add: level_def bucket_ok_def split: option.splits)
  moreover have "0 \<le> of_int (T - t0) / of_int second * rate b"
    using Nil.prems refill_time_mono [of 0 "T - t0" b] by (simp add: bucket_ok_def)
  ultimately show ?case by simp
next
  case (Cons c cs)
  obtain k' t where c: "c = (k', t)" by (cases c)
  let ?b = "fst (bucket_Allow id b k' t)" and ?ok = "snd (bucket_Allow id b k' t)"
  have t: "t0 \<le> t" "t \<le> T" using Cons.prems(5) c by auto
  have chk: "checked_by b t" using Cons.prems(3) t unfolding checked_by_def by fastforce
  note A = Allow_ok [OF rounding_id Cons.prems(1) chk]
  have eqs: "rate ?b = rate b" "prune_safe ?b"
    using Allow_get [OF Cons.prems(1) current_bounds(3) [OF rounding_id Cons.prems(1) chk], of k'] Cons.prems(2)
    by (simp_all add: prune_safe_def)
  have "of_nat (granted k cs (allow_run id ?b cs)) \<le> level ?b k t + of_int (T - t) / of_int second * rate ?b"
    using Cons.prems(4,5) t c by (intro Cons.IH A eqs) auto
  moreover have "level ?b k t = level b k t - (if k = k' \<and> ?ok then 1 else 0)"
    by (rule Allow_level [OF Cons.prems(1,2) chk])
  moreover have "level b k t \<le> level b k t0 + of_int (t - t0) / of_int second * rate b"
    by (rule level_grows [OF Cons.prems(1) t(1)])
  moreover have "of_int (t - t0) / of_int second * rate b + of_int (T - t) / of_int second * rate b
      = of_int (T - t0) / of_int second * rate b"
    using refill_time_add [of T t0 b t] by simp
  moreover have "of_nat (granted k (c # cs) (allow_run id b (c # cs)))
      = (if k = k' \<and> ?ok then 1 else 0) + (of_nat (granted k cs (allow_run id ?b cs)) :: rat)"
    by (cases "bucket_Allow id b k' t") (auto simp add: c)
  ultimately show ?case unfolding eqs(1) by linarith
qed


text \<open>C30: However the calls for the different keys interleave, one key is never granted more
  than its burst capacity plus the rate times the elapsed time, provided the idle pruning
  cannot forget an unfilled bucket (\<^verbatim>\<open>capacity\<close> at most ten minutes of refill, as in all the
  server's limits).\<close>

theorem allow_rate_bound:
  assumes "0 \<le> r" and "0 \<le> c" and "c \<le> 600 * r"
    and "sorted (map snd cs)" and "\<forall>(k', t) \<in> set cs. t0 \<le> t \<and> t \<le> T" and "t0 \<le> T"
  shows "of_nat (granted k cs (allow_run id (bucket_New r c) cs)) \<le> c + of_int (T - t0) / of_int second * r"
proof -
  let ?b = "bucket_New r c"
  have "bucket_ok ?b" "checked_by ?b t0" "prune_safe ?b" "level ?b k t0 = c" "rate ?b = r"
    using assms(1-3) by (simp_all add: bucket_ok_def bucket_New_def checked_by_def prune_safe_def level_def
        minute_def second_def maxDuration_def)
  then show ?thesis using granted_le_level [of ?b t0 cs T k] assms(4-6) by simp
qed

lemma allow_rate_bound_witness:
  "granted ''ip'' (replicate 9 (''ip'', 5)) (allow_run id (bucket_New (1/6) 3) (replicate 9 (''ip'', 5))) \<le> 3"
  using allow_rate_bound [of "1/6" 3 "replicate 9 (''ip'', 5)" 5 5 "''ip''"] by simp

text \<open>A request of a key is granted exactly when the key's bucket, refilled up to now and
  capped, holds a token; it then costs one token, and no call for another key changes it. With
  rounding, the token count of every key stays between zero and the capacity.\<close>

theorem allow_token_bucket:
  assumes "bucket_ok b" and "prune_safe b" and "checked_by b now" and "rounding fl (capacity b)"
  shows "(snd (bucket_Allow id b key now) \<longleftrightarrow> 1 \<le> level b key now)
    \<and> level (fst (bucket_Allow id b key now)) k now
        = level b k now - (if k = key \<and> snd (bucket_Allow id b key now) then 1 else 0)
    \<and> bucket_ok (fst (bucket_Allow fl b key now))"
  using Allow_level [OF assms(1-3)] Allow_ok [OF assms(4,1,3)] by blast

lemma allow_token_bucket_witness:
  "snd (bucket_Allow id (bucket_New (1/6) 3) ''ip'' 5)
   \<and> level (fst (bucket_Allow id (bucket_New (1/6) 3) ''ip'' 5)) ''ip'' 5 = 2"
  using allow_token_bucket [of "bucket_New (1/6) 3" 5 id "''ip''" "''ip''"] rounding_id
  by (simp add: bucket_ok_def bucket_New_def checked_by_def prune_safe_def level_def minute_def second_def maxDuration_def)

end
