(* ===== verification/Room.thy ===== *)
theory Room
  imports Signal_Proto
begin

text \<open>
  \<^verbatim>\<open>server/room\<close>: which device of which user is connected, and the delivery of Connect messages
  between two devices of one user. A connection is an object; the model names it by \<open>cid\<close>, so
  that Go's pointer comparison is equality of \<open>cid\<close>. Whether a \<^verbatim>\<open>Send\<close> succeeds is an argument;
  a successful one appears in the result as the connection and the frame.
\<close>

record Conn =
  cid :: nat
  conn_UserID :: string
  conn_DeviceID :: string

type_synonym Registry = "(string, (string, Conn) gomap) gomap"

datatype room_err = ErrTargetUnknown | ErrCrossUserForbidden | ErrSenderEqualsTarget | DeliverError string

definition room_New :: Registry where
  "room_New = []"

definition room_Register :: "Registry \<Rightarrow> Conn \<Rightarrow> Registry \<times> Conn option" where
  "room_Register r c =
     (let devs = (case gm_get r (conn_UserID c) of None \<Rightarrow> [] | Some ds \<Rightarrow> ds)
      in (gm_put (conn_UserID c) (gm_put (conn_DeviceID c) c devs) r, gm_get devs (conn_DeviceID c)))"

definition room_Unregister :: "Registry \<Rightarrow> Conn \<Rightarrow> Registry" where
  "room_Unregister r c =
     (case gm_get r (conn_UserID c) of
        None \<Rightarrow> r
      | Some devs \<Rightarrow>
         (case gm_get devs (conn_DeviceID c) of
            None \<Rightarrow> r
          | Some cur \<Rightarrow>
              if cid cur = cid c then
                let devs' = gm_del (conn_DeviceID c) devs
                in if length devs' = 0 then gm_del (conn_UserID c) r else gm_put (conn_UserID c) devs' r
              else r))"

definition Forward ::
  "(Conn \<Rightarrow> Frame \<Rightarrow> bool) \<Rightarrow> Registry \<Rightarrow> Conn \<Rightarrow> ConnectMsg \<Rightarrow> room_err option \<times> (Conn \<times> Frame) list" where
  "Forward send_ok r from msg =
     (if conn_DeviceID from = TargetDeviceId msg then (Some ErrSenderEqualsTarget, [])
      else
       (case gm_get r (conn_UserID from) of
          None \<Rightarrow> (Some ErrTargetUnknown, [])
        | Some devs \<Rightarrow>
           (case gm_get devs (TargetDeviceId msg) of
              None \<Rightarrow> (Some ErrTargetUnknown, [])
            | Some target \<Rightarrow>
                if conn_UserID target \<noteq> conn_UserID from then (Some ErrCrossUserForbidden, [])
                else
                  let fr = Frame_Connect \<lparr>TargetDeviceId = TargetDeviceId msg, FromDeviceId = conn_DeviceID from,
                                          Candidates = Candidates msg\<rparr>
                  in if send_ok target fr then (None, [(target, fr)])
                     else (Some (DeliverError (TargetDeviceId msg)), []))))"

definition CountByUser :: "Registry \<Rightarrow> string \<Rightarrow> nat" where
  "CountByUser r u = (case gm_get r u of None \<Rightarrow> 0 | Some devs \<Rightarrow> length devs)"

section \<open>Refinement of a flat map\<close>

text \<open>The registry's contract: one connection for each pair of user and device.\<close>

definition registered_at :: "Registry \<Rightarrow> string \<Rightarrow> string \<Rightarrow> Conn option" where
  "registered_at r u d = (case gm_get r u of None \<Rightarrow> None | Some devs \<Rightarrow> gm_get devs d)"

text \<open>Invariant: the maps have distinct keys, no user is kept with no device, and a connection
  sits under its own user and device.\<close>

definition room_ok :: "Registry \<Rightarrow> bool" where
  "room_ok r \<longleftrightarrow> gomap_ok r
     \<and> (\<forall>u devs. gm_get r u = Some devs \<longrightarrow> gomap_ok devs \<and> devs \<noteq> [])
     \<and> (\<forall>u d c. registered_at r u d = Some c \<longrightarrow> conn_UserID c = u \<and> conn_DeviceID c = d)"

lemma room_ok_New [simp]: "room_ok room_New"
  by (simp add: room_ok_def room_New_def registered_at_def)

lemma registered_at_Register:
  "registered_at (fst (room_Register r c)) u d
    = (if u = conn_UserID c \<and> d = conn_DeviceID c then Some c else registered_at r u d)"
  by (auto simp: registered_at_def room_Register_def Let_def split: option.splits)

lemma registered_at_Register_replaced:
  "snd (room_Register r c) = registered_at r (conn_UserID c) (conn_DeviceID c)"
  by (auto simp: registered_at_def room_Register_def Let_def split: option.splits)

lemma room_ok_Register:
  assumes "room_ok r"
  shows "room_ok (fst (room_Register r c))"
  unfolding room_ok_def registered_at_Register
proof (intro conjI allI impI)
  show "gomap_ok (fst (room_Register r c))"
    using assms by (simp add: room_ok_def room_Register_def Let_def)
  fix u devs assume "gm_get (fst (room_Register r c)) u = Some devs"
  then show "gomap_ok devs" "devs \<noteq> []"
    using assms by (auto simp: room_ok_def room_Register_def Let_def split: if_splits option.splits
        simp del: map_of_eq_Some_iff)
qed (use assms in \<open>auto simp: room_ok_def split: if_splits\<close>)

lemma registered_at_Unregister:
  assumes "room_ok r"
  shows "registered_at (room_Unregister r c) u d
    = (if u = conn_UserID c \<and> d = conn_DeviceID c
          \<and> map_option cid (registered_at r u d) = Some (cid c) then None else registered_at r u d)"
proof (cases "gm_get r (conn_UserID c)")
  case None
  then show ?thesis by (auto simp: registered_at_def room_Unregister_def split: option.splits)
next
  case (Some devs)
  have "gomap_ok devs" using assms Some unfolding room_ok_def by blast
  then have e: "gm_get devs d = None" if "gm_del (conn_DeviceID c) devs = []" "d \<noteq> conn_DeviceID c" for d
    using that gm_del_empty_iff [of devs "conn_DeviceID c"] by blast
  show ?thesis
    using Some e by (auto simp: registered_at_def room_Unregister_def Let_def split: option.splits)
qed

lemma room_ok_Unregister:
  assumes "room_ok r"
  shows "room_ok (room_Unregister r c)"
  unfolding room_ok_def registered_at_Unregister [OF assms]
proof (intro conjI allI impI)
  show "gomap_ok (room_Unregister r c)"
    using assms by (auto simp: room_ok_def room_Unregister_def Let_def split: option.splits)
  fix u devs assume "gm_get (room_Unregister r c) u = Some devs"
  then show "gomap_ok devs" "devs \<noteq> []"
    using assms by (auto simp: room_ok_def room_Unregister_def Let_def split: if_splits option.splits
        simp del: map_of_eq_Some_iff)
qed (use assms in \<open>auto simp: room_ok_def split: if_splits\<close>)


section \<open>The directory interface\<close>

text \<open>What the connection handler relies on: a registration is found under its key until it is
  replaced or taken back, and taking back a connection that has been replaced changes nothing.\<close>

locale directory =
  fixes lookup :: "'r \<Rightarrow> 'k \<Rightarrow> 'c option"
    and add :: "'r \<Rightarrow> 'c \<Rightarrow> 'r"
    and remove :: "'r \<Rightarrow> 'c \<Rightarrow> 'r"
    and key :: "'c \<Rightarrow> 'k"
    and same :: "'c \<Rightarrow> 'c \<Rightarrow> bool"
    and ok :: "'r \<Rightarrow> bool"
  assumes add_ok: "ok r \<Longrightarrow> ok (add r c)"
    and remove_ok: "ok r \<Longrightarrow> ok (remove r c)"
    and lookup_add: "lookup (add r c) k = (if k = key c then Some c else lookup r k)"
    and lookup_remove: "ok r \<Longrightarrow> lookup (remove r c) k
          = (case lookup r k of None \<Rightarrow> None
             | Some c' \<Rightarrow> if k = key c \<and> same c' c then None else Some c')"
    and same_refl: "same c c"
begin

text \<open>A history of registrations and removals; \<open>True\<close> registers.\<close>

fun dir_run :: "'r \<Rightarrow> (bool \<times> 'c) list \<Rightarrow> 'r" where
  "dir_run r [] = r"
| "dir_run r ((b, c) # es) = dir_run (if b then add r c else remove r c) es"

lemma dir_run_ok: "ok r \<Longrightarrow> ok (dir_run r es)"
  by (induction r es rule: dir_run.induct) (simp_all add: add_ok remove_ok)

lemma stale_remove:
  assumes "ok r" and "key c2 = key c1" and "\<not> same c2 c1"
  shows "lookup (remove (add (add r c1) c2) c1) (key c1) = Some c2"
  using assms by (simp add: lookup_remove add_ok lookup_add)

lemma kept_until_replaced:
  assumes "ok r" and "lookup r (key c) = Some c"
    and "\<forall>(b, c') \<in> set es. key c' = key c \<longrightarrow> \<not> b \<and> \<not> same c c'"
  shows "lookup (dir_run r es) (key c) = Some c"
  using assms
proof (induction r es rule: dir_run.induct)
  case (2 r b c' es)
  have "lookup (if b then add r c' else remove r c') (key c) = Some c"
    using "2.prems" by (auto simp: lookup_add lookup_remove)
  moreover have "ok (if b then add r c' else remove r c')"
    using "2.prems"(1) by (simp add: add_ok remove_ok)
  ultimately show ?case using "2.IH" "2.prems"(3) by simp
qed simp

lemma removed_stays:
  assumes "ok r" and "\<forall>(b, c') \<in> set es. b \<longrightarrow> \<not> same c' c" and "\<forall>k c'. lookup r k = Some c' \<longrightarrow> \<not> same c' c"
  shows "lookup (dir_run r es) k = Some c' \<Longrightarrow> \<not> same c' c"
  using assms
proof (induction r es rule: dir_run.induct)
  case (1 r)
  then show ?case by simp
next
  case (2 r b d es)
  have "ok (if b then add r d else remove r d)" using "2.prems"(2) by (simp add: add_ok remove_ok)
  moreover have "\<forall>k c'. lookup (if b then add r d else remove r d) k = Some c' \<longrightarrow> \<not> same c' c"
    using "2.prems"(2-4) by (auto simp: lookup_add lookup_remove split: option.splits if_splits)
  ultimately show ?case using "2.IH" "2.prems"(1,3) by simp
qed

end

interpretation room: directory "\<lambda>r (u, d). registered_at r u d" "\<lambda>r c. fst (room_Register r c)" room_Unregister
  "\<lambda>c. (conn_UserID c, conn_DeviceID c)" "\<lambda>c c'. cid c = cid c'" room_ok
  by unfold_locales
     (auto simp: registered_at_Register registered_at_Unregister room_ok_Register room_ok_Unregister
        split: option.splits if_splits)

lemma forward_confined_sends:
  assumes "room_ok r" and "Forward send_ok r c msg = (err, out)"
  shows "(\<forall>(t, f) \<in> set out. registered_at r (conn_UserID c) (TargetDeviceId msg) = Some t
          \<and> conn_UserID t = conn_UserID c \<and> conn_DeviceID t = TargetDeviceId msg
          \<and> conn_DeviceID t \<noteq> conn_DeviceID c
          \<and> f = Frame_Connect (msg\<lparr>FromDeviceId := conn_DeviceID c\<rparr>))
    \<and> (err = None \<longleftrightarrow> length out = 1) \<and> length out \<le> 1
    \<and> (conn_DeviceID c \<noteq> TargetDeviceId msg \<and> registered_at r (conn_UserID c) (TargetDeviceId msg) = None
         \<longrightarrow> err = Some ErrTargetUnknown)
    \<and> err \<noteq> Some ErrCrossUserForbidden"
proof (cases "gm_get r (conn_UserID c)")
  case None
  with assms(2) show ?thesis
    by (auto simp: Forward_def registered_at_def split: if_splits)
next
  case (Some devs)
  have reg: "registered_at r (conn_UserID c) d = gm_get devs d" for d by (simp add: registered_at_def Some)
  show ?thesis
  proof (cases "gm_get devs (TargetDeviceId msg)")
    case None
    with assms(2) Some reg show ?thesis by (auto simp: Forward_def split: if_splits)
  next
    case T: (Some t)
    then have "conn_UserID t = conn_UserID c \<and> conn_DeviceID t = TargetDeviceId msg"
      using assms(1) reg unfolding room_ok_def by metis
    with assms(2) Some T reg show ?thesis
      by (cases msg) (auto simp: Forward_def Let_def split: if_splits)
  qed
qed

text \<open>Connect messages stay within a user. Whatever the sender writes, a delivery goes to the
  connection registered for the target device of the sender's own user, carries the sender's own
  device as its origin and the candidates unchanged; a failed forward delivers nothing, and a
  target that belongs to another user is answered like one that does not exist.\<close>

theorem forward_confined:
  assumes "room_ok r" and "Forward send_ok r c msg = (err, out)"
  shows "(\<forall>(t, f) \<in> set out. registered_at r (conn_UserID c) (TargetDeviceId msg) = Some t
          \<and> conn_UserID t = conn_UserID c \<and> conn_DeviceID t = TargetDeviceId msg
          \<and> conn_DeviceID t \<noteq> conn_DeviceID c
          \<and> f = Frame_Connect (msg\<lparr>FromDeviceId := conn_DeviceID c\<rparr>))
    \<and> (err = None \<longleftrightarrow> length out = 1) \<and> length out \<le> 1
    \<and> (conn_DeviceID c \<noteq> TargetDeviceId msg \<and> registered_at r (conn_UserID c) (TargetDeviceId msg) = None
         \<longrightarrow> err = Some ErrTargetUnknown)
    \<and> err \<noteq> Some ErrCrossUserForbidden"
  using forward_confined_sends [OF assms] .

lemma forward_confined_witness:
  "\<exists>out. Forward (\<lambda>c f. True) (fst (room_Register room_New \<lparr>cid = 1, conn_UserID = ''u'', conn_DeviceID = ''B''\<rparr>))
      \<lparr>cid = 2, conn_UserID = ''u'', conn_DeviceID = ''A''\<rparr>
      \<lparr>TargetDeviceId = ''B'', FromDeviceId = ''forged'', Candidates = []\<rparr> = (None, out)
     \<and> (\<forall>(t, f) \<in> set out. f = Frame_Connect \<lparr>TargetDeviceId = ''B'', FromDeviceId = ''A'', Candidates = []\<rparr>)"
proof -
  let ?r = "fst (room_Register room_New \<lparr>cid = 1, conn_UserID = ''u'', conn_DeviceID = ''B''\<rparr>)"
  let ?m = "\<lparr>TargetDeviceId = ''B'', FromDeviceId = ''forged'', Candidates = []\<rparr>"
  let ?c = "\<lparr>cid = 2, conn_UserID = ''u'', conn_DeviceID = ''A''\<rparr>"
  obtain out where out: "Forward (\<lambda>c f. True) ?r ?c ?m = (None, out)"
    by (simp add: Forward_def room_Register_def room_New_def Let_def)
  from forward_confined [OF room_ok_Register [OF room_ok_New] out] out show ?thesis by fastforce
qed

text \<open>A reconnect is safe in any order: when a device registers again before the old
  connection has noticed it is dead, the old connection's clean-up leaves the new registration in
  place, and it stays until it is replaced or removed itself, whatever other connections do.\<close>

theorem reconnect_survives_cleanup:
  assumes "room_ok r" and "conn_UserID c2 = conn_UserID c1" "conn_DeviceID c2 = conn_DeviceID c1" and "cid c2 \<noteq> cid c1"
    and "\<forall>(b, c') \<in> set es. conn_UserID c' = conn_UserID c1 \<and> conn_DeviceID c' = conn_DeviceID c1
            \<longrightarrow> \<not> b \<and> cid c2 \<noteq> cid c'"
  shows "registered_at (room.dir_run
      (room_Unregister (fst (room_Register (fst (room_Register r c1)) c2)) c1) es) (conn_UserID c1) (conn_DeviceID c1)
    = Some c2"
proof -
  let ?r = "room_Unregister (fst (room_Register (fst (room_Register r c1)) c2)) c1"
  have "registered_at ?r (conn_UserID c2) (conn_DeviceID c2) = Some c2"
    using room.stale_remove [OF assms(1), of c2 c1] assms(2-4) by simp
  moreover have "room_ok ?r" by (intro room_ok_Unregister room_ok_Register assms(1))
  ultimately show ?thesis
    using room.kept_until_replaced [of ?r c2 es] assms(2,3,5) by auto
qed

lemma reconnect_survives_cleanup_witness:
  "registered_at (room_Unregister
      (fst (room_Register (fst (room_Register room_New \<lparr>cid = 1, conn_UserID = ''u'', conn_DeviceID = ''A''\<rparr>))
        \<lparr>cid = 2, conn_UserID = ''u'', conn_DeviceID = ''A''\<rparr>))
      \<lparr>cid = 1, conn_UserID = ''u'', conn_DeviceID = ''A''\<rparr>) ''u'' ''A''
   = Some \<lparr>cid = 2, conn_UserID = ''u'', conn_DeviceID = ''A''\<rparr>"
  using reconnect_survives_cleanup [of room_New "\<lparr>cid = 2, conn_UserID = ''u'', conn_DeviceID = ''A''\<rparr>"
      "\<lparr>cid = 1, conn_UserID = ''u'', conn_DeviceID = ''A''\<rparr>" "[]"] by simp

end
