(* ===== verification/Ws_Handler.thy ===== *)
theory Ws_Handler
  imports Devid Admin Ratelimit Room Net
begin

text \<open>
  \<^verbatim>\<open>server/ws\<close>: the signaling server's side of a connection. It limits upgrades by address,
  performs the two-step handshake (hello, then register: rate limit, device identity, App Check,
  authentication, persistence), and then forwards Connect messages until the connection ends.

  The server's mutable parts are a record: the store, the auth provider's state (type \<open>'p\<close>), the
  registry, the limiters and the metrics. What the code receives by injection is the record
  \<open>env\<close>: the provider's \<^verbatim>\<open>Authenticate\<close>, the credentials builder, the App Check verifier,
  SHA-256, the protobuf codec, the rounding of \<^verbatim>\<open>float64\<close>, whether a \<^verbatim>\<open>Send\<close> succeeds, and the
  text of an error. Clock readings are arguments, in the order the code takes them.
\<close>

definition ProtocolVersion :: u32 where
  "ProtocolVersion = 1"

section \<open>Metrics\<close>

record Metrics =
  UpgradeAccepted :: nat
  UpgradeRejected :: "string list"
  RegisterAccepted :: nat
  RegisterRejected :: "string list"
  ConnectsForwarded :: nat
  ConnectsRejected :: "string list"
  ActiveConnections :: int
  IdleClosed :: nat
  SessionDuration :: "duration list"
  RegisterToFirstConnect :: "duration list"

definition NewMetrics :: Metrics where
  "NewMetrics = \<lparr>UpgradeAccepted = 0, UpgradeRejected = [], RegisterAccepted = 0, RegisterRejected = [],
     ConnectsForwarded = 0, ConnectsRejected = [], ActiveConnections = 0, IdleClosed = 0,
     SessionDuration = [], RegisterToFirstConnect = []\<rparr>"

definition observeUpgradeAccepted :: "Metrics option \<Rightarrow> Metrics option" where
  "observeUpgradeAccepted = map_option (\<lambda>m. m\<lparr>UpgradeAccepted := UpgradeAccepted m + 1,
     ActiveConnections := ActiveConnections m + 1\<rparr>)"

definition observeUpgradeRejected :: "string \<Rightarrow> Metrics option \<Rightarrow> Metrics option" where
  "observeUpgradeRejected reason = map_option (\<lambda>m. m\<lparr>UpgradeRejected := reason # UpgradeRejected m\<rparr>)"

definition observeRegisterAccepted :: "Metrics option \<Rightarrow> Metrics option" where
  "observeRegisterAccepted = map_option (\<lambda>m. m\<lparr>RegisterAccepted := RegisterAccepted m + 1\<rparr>)"

definition observeRegisterRejected :: "string \<Rightarrow> Metrics option \<Rightarrow> Metrics option" where
  "observeRegisterRejected reason = map_option (\<lambda>m. m\<lparr>RegisterRejected := reason # RegisterRejected m\<rparr>)"

definition observeConnectForwarded :: "Metrics option \<Rightarrow> Metrics option" where
  "observeConnectForwarded = map_option (\<lambda>m. m\<lparr>ConnectsForwarded := ConnectsForwarded m + 1\<rparr>)"

definition observeConnectRejected :: "string \<Rightarrow> Metrics option \<Rightarrow> Metrics option" where
  "observeConnectRejected reason = map_option (\<lambda>m. m\<lparr>ConnectsRejected := reason # ConnectsRejected m\<rparr>)"

definition observeConnectionClosed :: "Metrics option \<Rightarrow> Metrics option" where
  "observeConnectionClosed = map_option (\<lambda>m. m\<lparr>ActiveConnections := ActiveConnections m - 1\<rparr>)"

definition observeConnectionIdleClosed :: "Metrics option \<Rightarrow> Metrics option" where
  "observeConnectionIdleClosed = map_option (\<lambda>m. m\<lparr>IdleClosed := IdleClosed m + 1\<rparr>)"

definition observeSessionDuration :: "duration \<Rightarrow> Metrics option \<Rightarrow> Metrics option" where
  "observeSessionDuration d =
     map_option (\<lambda>m. if d < 0 then m else m\<lparr>SessionDuration := d # SessionDuration m\<rparr>)"

definition observeRegisterToFirstConnect :: "duration \<Rightarrow> Metrics option \<Rightarrow> Metrics option" where
  "observeRegisterToFirstConnect d =
     map_option (\<lambda>m. if d < 0 then m else m\<lparr>RegisterToFirstConnect := d # RegisterToFirstConnect m\<rparr>)"

section \<open>Server and connection\<close>

record 'p Server =
  ServerID :: string
  store :: mem_store
  provider :: 'p
  AuthKind :: AuthProvider
  registry :: Registry
  IPLimit :: Bucket
  UserLimit :: Bucket
  DeviceLimit :: Bucket
  ws_IdleTimeout :: duration
  metrics :: "Metrics option"

datatype read_err = WsError bool | NotBinary | UnmarshalError

datatype hs_err =
    ReadClientHello read_err | ExpectedClientHello | ClientVersion u32 | SendServerHello
  | ReadRegister read_err | ExpectedRegister | UserRateLimit
  | DeviceIdentity devid_err | AppCheck appcheck_err | ExtractCredentials | AuthError auth_err
  | SendRegisterAck

datatype dispatch_err = DeviceRateLimit | UnexpectedRehandshake

record 'p Env =
  Authenticate :: "'p \<Rightarrow> Credentials option \<Rightarrow> time \<Rightarrow> 'p \<times> (auth_err + Identity)"
  AuthBuilder :: "(RegisterMsg \<Rightarrow> Credentials option) option"
  AppCheckVerifier :: "(string \<Rightarrow> string option) option"
  AppCheckRequired :: bool
  sha256 :: "bytes \<Rightarrow> bytes"
  marshal_register :: "RegisterMsg \<Rightarrow> bytes option"
  unmarshal_frame :: "bytes \<Rightarrow> Frame option"
  fl64 :: "rat \<Rightarrow> rat"
  send_ok :: "Conn \<Rightarrow> Frame \<Rightarrow> bool"
  hs_text :: "hs_err \<Rightarrow> string"
  room_text :: "room_err \<Rightarrow> string"
  dispatch_text :: "dispatch_err \<Rightarrow> string"

record Connection =
  conn :: Conn
  registered :: bool
  registeredAt :: time
  firstConnectSeen :: bool

definition new_Connection :: "nat \<Rightarrow> Connection" where
  "new_Connection i =
     \<lparr>conn = \<lparr>cid = i, conn_UserID = [], conn_DeviceID = []\<rparr>, registered = False, registeredAt = 0,
      firstConnectSeen = False\<rparr>"

text \<open>\<^verbatim>\<open>New\<close> fills in the defaults of the fields the caller left at their zero value.\<close>

definition ws_New ::
  "string \<Rightarrow> mem_store \<Rightarrow> 'p \<Rightarrow> AuthProvider \<Rightarrow> Registry \<Rightarrow> Bucket option \<Rightarrow> Bucket option \<Rightarrow> Bucket option
     \<Rightarrow> duration \<Rightarrow> Metrics option \<Rightarrow> 'p Server" where
  "ws_New sid st p kind reg ip usr dev idle m =
     \<lparr>ServerID = (if sid = [] then ''peersh-signaling/0.1'' else sid), store = st, provider = p,
      AuthKind = kind, registry = reg,
      IPLimit = (case ip of None \<Rightarrow> bucket_New (10 / 60) 3 | Some b \<Rightarrow> b),
      UserLimit = (case usr of None \<Rightarrow> bucket_New (10 / 60) 3 | Some b \<Rightarrow> b),
      DeviceLimit = (case dev of None \<Rightarrow> bucket_New (30 / 60) 5 | Some b \<Rightarrow> b),
      ws_IdleTimeout = (if idle = 0 then 60 * second else idle), metrics = m\<rparr>"

definition remoteIP :: "string \<Rightarrow> string \<Rightarrow> string" where
  "remoteIP xff remoteAddr =
     (if xff \<noteq> [] then takeWhile (\<lambda>c. c \<noteq> CHR '','') xff
      else (case SplitHostPort remoteAddr of Inl _ \<Rightarrow> remoteAddr | Inr (host, _) \<Rightarrow> host))"

text \<open>A read of the WebSocket: it fails (with a close status or a cancellation, or not), or
  returns a message that is binary or text.\<close>

datatype ws_read = WsFail bool | WsMsg bool bytes

definition readFrame :: "'p Env \<Rightarrow> ws_read \<Rightarrow> read_err + Frame" where
  "readFrame env r =
     (case r of
        WsFail is_close \<Rightarrow> Inl (WsError is_close)
      | WsMsg binary data \<Rightarrow>
          if \<not> binary then Inl NotBinary
          else (case unmarshal_frame env data of None \<Rightarrow> Inl UnmarshalError | Some f \<Rightarrow> Inr f))"

definition PSKCredentialsBuilder :: "'p Env \<Rightarrow> RegisterMsg \<Rightarrow> Credentials option" where
  "PSKCredentialsBuilder env reg = map_option PskCreds (CredentialsFromRegister (marshal_register env) reg)"

fun deviceKindFromProto :: "ProtoDeviceKind \<Rightarrow> DeviceKind" where
  "deviceKindFromProto DEVICE_KIND_WINDOWS_HOST = DeviceKindWindowsHost"
| "deviceKindFromProto DEVICE_KIND_MOBILE_CLIENT = DeviceKindMobileClient"
| "deviceKindFromProto DEVICE_KIND_CLI = DeviceKindCLI"
| "deviceKindFromProto DEVICE_KIND_UNSPECIFIED = DeviceKindUnknown"

definition sendServerError :: "Connection \<Rightarrow> string \<Rightarrow> string \<Rightarrow> Conn \<times> Frame" where
  "sendServerError c code msg = (conn c, Frame_ServerError \<lparr>Code = code, Message = msg\<rparr>)"

text \<open>A frame that was put on a connection: nothing when the write failed.\<close>

definition put_frame :: "'p Env \<Rightarrow> Conn \<Rightarrow> Frame \<Rightarrow> (Conn \<times> Frame) list" where
  "put_frame env c f = (if send_ok env c f then [(c, f)] else [])"

definition ack_frame :: "'p Server \<Rightarrow> bool \<Rightarrow> string \<Rightarrow> Frame" where
  "ack_frame s acc reason = Frame_RegisterAck \<lparr>Accepted = acc, Reason = reason, ack_ServerId = ServerID s\<rparr>"

text \<open>The second half of the handshake after authentication: the user on first use, the device,
  the connection's identity. The store's errors are ignored.\<close>

definition persist :: "'p Server \<Rightarrow> Connection \<Rightarrow> RegisterMsg \<Rightarrow> Identity \<Rightarrow> time \<Rightarrow> time \<Rightarrow> 'p Server \<times> Connection" where
  "persist s c reg ident now_user now_dev =
     (let kind = (if AuthKind s = AuthProviderUnknown then AuthProviderPSK else AuthKind s);
          st1 = (case GetUser (store s) (UserID ident) of
                   Inr _ \<Rightarrow> store s
                 | Inl e \<Rightarrow>
                     if e = ErrNotFound
                     then (case PutUser (store s) \<lparr>u_ID = UserID ident, u_AuthProvider = kind,
                                                   u_CreatedAt = now_user\<rparr> of
                             Inl _ \<Rightarrow> store s | Inr st \<Rightarrow> st)
                     else store s);
          st2 = (case PutDevice st1 \<lparr>d_ID = DeviceId reg, d_PublicKey = PublicKey reg,
                     d_OwnerUserID = UserID ident, d_Kind = deviceKindFromProto (Kind reg),
                     d_DisplayName = DisplayName reg, d_CreatedAt = now_dev, d_LastSeenAt = now_dev\<rparr> of
                   Inl _ \<Rightarrow> st1 | Inr st \<Rightarrow> st)
      in (s\<lparr>store := st2\<rparr>,
          c\<lparr>conn := (conn c)\<lparr>conn_UserID := UserID ident, conn_DeviceID := DeviceId reg\<rparr>\<rparr>))"

definition chosen_builder :: "'p Env \<Rightarrow> RegisterMsg \<Rightarrow> Credentials option" where
  "chosen_builder env = (case AuthBuilder env of None \<Rightarrow> PSKCredentialsBuilder env | Some b \<Rightarrow> b)"

definition app_check :: "'p Env \<Rightarrow> RegisterMsg \<Rightarrow> appcheck_err option" where
  "app_check env reg =
     (if AppCheckVerifier env = None then None
      else VerifyAppCheck (AppCheckVerifier env) (FirebaseAppCheckToken reg))"

text \<open>Clock readings of a handshake: the user limiter, the provider, the user and the device
  record.\<close>

type_synonym hs_times = "time \<times> time \<times> time \<times> time"

definition register_step ::
  "'p Env \<Rightarrow> 'p Server \<Rightarrow> Connection \<Rightarrow> RegisterMsg \<Rightarrow> hs_times
     \<Rightarrow> 'p Server \<times> Connection \<times> (Conn \<times> Frame) list \<times> hs_err option" where
  "register_step env s c reg ts =
     (case ts of (t_limit, t_auth, t_user, t_dev) \<Rightarrow>
      (let (ul, allowed) = bucket_Allow (fl64 env) (UserLimit s)
             (if UserId reg = [] then DeviceId reg else UserId reg) t_limit;
           s1 = s\<lparr>UserLimit := ul\<rparr>;
           reject = (\<lambda>s e. (s, c, put_frame env (conn c) (ack_frame s False (hs_text env e)), Some e))
       in if \<not> allowed then (s1, c, [], Some UserRateLimit)
          else
           (case Verify (sha256 env) (DeviceId reg) (PublicKey reg) of
              Some e \<Rightarrow> reject s1 (DeviceIdentity e)
            | None \<Rightarrow>
                let ac = app_check env reg
                in if ac \<noteq> None \<and> AppCheckRequired env then reject s1 (AppCheck (the ac))
                   else
                    (case chosen_builder env reg of
                       None \<Rightarrow> (s1, c, [], Some ExtractCredentials)
                     | Some creds \<Rightarrow>
                        (case Authenticate env (provider s1) (Some creds) t_auth of
                           (p, Inl e) \<Rightarrow> reject (s1\<lparr>provider := p\<rparr>) (AuthError e)
                         | (p, Inr ident) \<Rightarrow>
                            let (s2, c2) = persist (s1\<lparr>provider := p\<rparr>) c reg ident t_user t_dev;
                                ack = ack_frame s2 True []
                            in if send_ok env (conn c2) ack then (s2, c2, [(conn c2, ack)], None)
                               else (s2, c2, [], Some SendRegisterAck))))))"

definition handshake ::
  "'p Env \<Rightarrow> 'p Server \<Rightarrow> Connection \<Rightarrow> ws_read \<Rightarrow> ws_read \<Rightarrow> hs_times
     \<Rightarrow> 'p Server \<times> Connection \<times> (Conn \<times> Frame) list \<times> hs_err option" where
  "handshake env s c r1 r2 ts =
     (case readFrame env r1 of
        Inl e \<Rightarrow> (s, c, [], Some (ReadClientHello e))
      | Inr f1 \<Rightarrow>
         (case f1 of
            Frame_ClientHello hello \<Rightarrow>
              if ch_ProtocolVersion hello \<noteq> ProtocolVersion
              then (s, c, [], Some (ClientVersion (ch_ProtocolVersion hello)))
              else
                let sh = Frame_ServerHello \<lparr>sh_ProtocolVersion = ProtocolVersion, sh_ServerId = ServerID s\<rparr>
                in if \<not> send_ok env (conn c) sh then (s, c, [], Some SendServerHello)
                   else
                    (case readFrame env r2 of
                       Inl e \<Rightarrow> (s, c, [(conn c, sh)], Some (ReadRegister e))
                     | Inr f2 \<Rightarrow>
                        (case f2 of
                           Frame_Register reg \<Rightarrow>
                             (case register_step env s c reg ts of
                                (s', c', out, err) \<Rightarrow> (s', c', (conn c, sh) # out, err))
                         | _ \<Rightarrow> (s, c, [(conn c, sh)], Some ExpectedRegister)))
          | _ \<Rightarrow> (s, c, [], Some ExpectedClientHello)))"

fun classifyForwardErr :: "room_err \<Rightarrow> string" where
  "classifyForwardErr ErrTargetUnknown = ''target_unknown''"
| "classifyForwardErr ErrCrossUserForbidden = ''cross_user_forbidden''"
| "classifyForwardErr ErrSenderEqualsTarget = ''self_target''"
| "classifyForwardErr (DeliverError t) = ''forward_error''"

definition dispatch ::
  "'p Env \<Rightarrow> 'p Server \<Rightarrow> Connection \<Rightarrow> Frame \<Rightarrow> time
     \<Rightarrow> 'p Server \<times> Connection \<times> (Conn \<times> Frame) list \<times> dispatch_err option" where
  "dispatch env s c f now =
     (case f of
        Frame_Connect msg \<Rightarrow>
          let (s1, c1) =
                (if firstConnectSeen c then (s, c)
                 else (s\<lparr>metrics := observeRegisterToFirstConnect (time_sub now (registeredAt c)) (metrics s)\<rparr>,
                       c\<lparr>firstConnectSeen := True\<rparr>));
              (dl, allowed) = bucket_Allow (fl64 env) (DeviceLimit s1) (conn_DeviceID (conn c)) now;
              s2 = s1\<lparr>DeviceLimit := dl\<rparr>
          in if \<not> allowed
             then (s2\<lparr>metrics := observeConnectRejected ''rate_limit'' (metrics s2)\<rparr>, c1, [], Some DeviceRateLimit)
             else
              (case Forward (send_ok env) (registry s2) (conn c) msg of
                 (Some e, out) \<Rightarrow>
                   (s2\<lparr>metrics := observeConnectRejected (classifyForwardErr e) (metrics s2)\<rparr>, c1,
                    out @ (let (t, fr) = sendServerError c (classifyForwardErr e) (room_text env e)
                           in put_frame env t fr), None)
               | (None, out) \<Rightarrow>
                   (s2\<lparr>metrics := observeConnectForwarded (metrics s2)\<rparr>, c1, out, None))
      | Frame_ClientHello _ \<Rightarrow> (s, c, [], Some UnexpectedRehandshake)
      | Frame_Register _ \<Rightarrow> (s, c, [], Some UnexpectedRehandshake)
      | _ \<Rightarrow> (s, c, [], None))"

text \<open>What ends the wait for the next frame: a read, the idle timer, or the request's context
  with a read that had completed at the same moment or none. With a negative
  \<^verbatim>\<open>IdleTimeout\<close> there is no timer and the code waits for the read alone, so the other two events do
  not end the wait.\<close>

datatype race = RaceRead ws_read | RaceTimer | RaceCtx "ws_read option"

datatype run_err = RunRead read_err | errIdleTimeout | CtxErr

definition readFrameWithIdleTimeout :: "'p Env \<Rightarrow> 'p Server \<Rightarrow> race \<Rightarrow> (run_err + Frame) option" where
  "readFrameWithIdleTimeout env s ev =
     (let rd = (\<lambda>r. case readFrame env r of Inl e \<Rightarrow> Inl (RunRead e) | Inr f \<Rightarrow> Inr f)
      in (case ev of
            RaceRead r \<Rightarrow> Some (rd r)
          | RaceTimer \<Rightarrow> if ws_IdleTimeout s < 0 then None else Some (Inl errIdleTimeout)
          | RaceCtx None \<Rightarrow> if ws_IdleTimeout s < 0 then None else Some (Inl CtxErr)
          | RaceCtx (Some r) \<Rightarrow> if ws_IdleTimeout s < 0 then None else Some (rd r)))"

text \<open>The loop of \<^verbatim>\<open>run\<close>: the last component says whether the function returned.\<close>

fun run_loop ::
  "'p Env \<Rightarrow> 'p Server \<Rightarrow> Connection \<Rightarrow> (race \<times> time) list
     \<Rightarrow> 'p Server \<times> Connection \<times> (Conn \<times> Frame) list \<times> bool" where
  "run_loop env s c [] = (s, c, [], False)"
| "run_loop env s c ((ev, now) # evs) =
     (case readFrameWithIdleTimeout env s ev of
        None \<Rightarrow> run_loop env s c evs
      | Some (Inl e) \<Rightarrow>
          if e = errIdleTimeout
          then (s\<lparr>metrics := observeConnectionIdleClosed (metrics s)\<rparr>, c,
                (let (t, fr) = sendServerError c ''idle_timeout'' ''no frame received within deadline''
                 in put_frame env t fr), True)
          else (s, c, [], True)
      | Some (Inr f) \<Rightarrow>
         (case dispatch env s c f now of
            (s', c', out, Some e) \<Rightarrow>
              (s', c', out @ (let (t, fr) = sendServerError c' ''dispatch_error'' (dispatch_text env e)
                              in put_frame env t fr), True)
          | (s', c', out, None) \<Rightarrow>
             (case run_loop env s' c' evs of (s'', c'', out', fin) \<Rightarrow> (s'', c'', out @ out', fin))))"

definition run_cleanup :: "'p Server \<Rightarrow> Connection \<Rightarrow> time \<Rightarrow> 'p Server" where
  "run_cleanup s c now =
     (let s1 = (if registered c
                then s\<lparr>registry := room_Unregister (registry s) (conn c),
                       metrics := observeSessionDuration (time_sub now (registeredAt c)) (metrics s)\<rparr>
                else s)
      in s1\<lparr>metrics := observeConnectionClosed (metrics s1)\<rparr>)"

definition run_register ::
  "'p Env \<Rightarrow> 'p Server \<Rightarrow> Connection \<Rightarrow> time \<Rightarrow> 'p Server \<times> Connection \<times> (Conn \<times> Frame) list" where
  "run_register env s c t_reg =
     (let c1 = c\<lparr>registered := True, registeredAt := t_reg\<rparr>;
          s1 = s\<lparr>metrics := observeRegisterAccepted (metrics s)\<rparr>;
          (reg, prev) = room_Register (registry s1) (conn c1);
          s2 = s1\<lparr>registry := reg\<rparr>
      in (s2, c1,
          (case prev of
             None \<Rightarrow> []
           | Some p \<Rightarrow> put_frame env p (Frame_ServerError
               \<lparr>Code = ''replaced'', Message = ''another device with this id reconnected''\<rparr>))))"

definition run ::
  "'p Env \<Rightarrow> 'p Server \<Rightarrow> Connection \<Rightarrow> ws_read \<Rightarrow> ws_read \<Rightarrow> hs_times \<Rightarrow> time \<Rightarrow> (race \<times> time) list \<Rightarrow> time
     \<Rightarrow> 'p Server \<times> (Conn \<times> Frame) list \<times> bool" where
  "run env s c r1 r2 ts t_reg evs t_end =
     (case handshake env s c r1 r2 ts of
        (s1, c1, out1, Some e) \<Rightarrow>
          (run_cleanup (s1\<lparr>metrics := observeRegisterRejected ''handshake_failed'' (metrics s1)\<rparr>) c1 t_end,
           out1 @ (let (t, fr) = sendServerError c1 ''handshake_failed'' (hs_text env e) in put_frame env t fr),
           True)
      | (s1, c1, out1, None) \<Rightarrow>
         (case run_register env s1 c1 t_reg of
            (s2, c2, out2) \<Rightarrow>
              (case run_loop env s2 c2 evs of
                 (s3, c3, out3, fin) \<Rightarrow>
                   (if fin then run_cleanup s3 c3 t_end else s3, out1 @ out2 @ out3, fin))))"

text \<open>\<^verbatim>\<open>serveHTTP\<close>: refused with status 429, or upgraded (the argument says whether that
  succeeded) and run.\<close>

datatype http_outcome = TooManyRequests | UpgradeFailed | Upgraded

definition serveHTTP ::
  "'p Env \<Rightarrow> 'p Server \<Rightarrow> nat \<Rightarrow> string \<Rightarrow> string \<Rightarrow> time \<Rightarrow> bool \<Rightarrow> ws_read \<Rightarrow> ws_read \<Rightarrow> hs_times \<Rightarrow> time
     \<Rightarrow> (race \<times> time) list \<Rightarrow> time \<Rightarrow> 'p Server \<times> http_outcome \<times> (Conn \<times> Frame) list \<times> bool" where
  "serveHTTP env s i xff remoteAddr now accepted r1 r2 ts t_reg evs t_end =
     (case bucket_Allow (fl64 env) (IPLimit s) (remoteIP xff remoteAddr) now of
        (ipl, allowed) \<Rightarrow>
          let s1 = s\<lparr>IPLimit := ipl\<rparr>
          in if \<not> allowed then (s1, TooManyRequests, [], True)
             else if \<not> accepted then (s1, UpgradeFailed, [], True)
             else (case run env s1 (new_Connection i) r1 r2 ts t_reg evs t_end of
                     (s2, out, fin) \<Rightarrow> (s2, Upgraded, out, fin)))"


section \<open>What a completed handshake establishes\<close>

lemma persist_simps:
  assumes "persist s c reg ident t1 t2 = (s', c')"
  shows "registry s' = registry s" "provider s' = provider s" "ServerID s' = ServerID s"
    "cid (conn c') = cid (conn c)"
    "conn_UserID (conn c') = UserID ident" "conn_DeviceID (conn c') = DeviceId reg"
    "registered c' = registered c" "metrics s' = metrics s"
    "ws_IdleTimeout s' = ws_IdleTimeout s"
  using assms by (auto simp: persist_def Let_def)

lemma persist_device:
  assumes "persist s c reg ident t1 t2 = (s', c')" and "mem_ok (store s)"
  shows "\<exists>d. GetDevice (store s') (DeviceId reg) = Inr d \<and> d_OwnerUserID d = UserID ident \<and> d_PublicKey d = PublicKey reg"
    and "\<exists>u. GetUser (store s') (UserID ident) = Inr u" and "mem_ok (store s')"
proof -
  define st1 where "st1 = (case GetUser (store s) (UserID ident) of
       Inr _ \<Rightarrow> store s
     | Inl e \<Rightarrow> if e = ErrNotFound
         then (case PutUser (store s) \<lparr>u_ID = UserID ident,
                  u_AuthProvider = (if AuthKind s = AuthProviderUnknown then AuthProviderPSK else AuthKind s),
                  u_CreatedAt = t1\<rparr> of
                 Inl _ \<Rightarrow> store s | Inr st \<Rightarrow> st)
         else store s)"
  define d where "d = \<lparr>d_ID = DeviceId reg, d_PublicKey = PublicKey reg,
       d_OwnerUserID = UserID ident, d_Kind = deviceKindFromProto (Kind reg),
       d_DisplayName = DisplayName reg, d_CreatedAt = t2, d_LastSeenAt = t2\<rparr>"
  have st1: "mem_ok st1 \<and> (\<exists>u. GetUser st1 (UserID ident) = Inr u)"
  proof (cases "GetUser (store s) (UserID ident)")
    case (Inr u)
    then show ?thesis using assms(2) by (simp add: st1_def)
  next
    case (Inl e)
    define u where "u = \<lparr>u_ID = UserID ident,
       u_AuthProvider = (if AuthKind s = AuthProviderUnknown then AuthProviderPSK else AuthKind s), u_CreatedAt = t1\<rparr>"
    obtain st where st: "PutUser (store s) u = Inr st" "mem_ok st" "GetUser st (u_ID u) = Inr u"
      using usr.put_then_get [OF assms(2), of u] by blast
    have "st1 = st" using Inl usr.get_err [OF assms(2) Inl] st(1) by (simp add: st1_def u_def [symmetric])
    with st show ?thesis by (auto simp: u_def)
  qed
  have s': "store s' = st1\<lparr>devices := gm_put (d_ID d) d (devices st1)\<rparr>"
    using assms(1) unfolding persist_def Let_def by (auto simp: st1_def d_def PutDevice_def)
  have P: "PutDevice st1 d = Inr (store s')" by (simp add: PutDevice_def s')
  show "\<exists>d. GetDevice (store s') (DeviceId reg) = Inr d \<and> d_OwnerUserID d = UserID ident \<and> d_PublicKey d = PublicKey reg"
    using dev.get_put [OF conjunct1 [OF st1] P, of "DeviceId reg"] by (simp add: d_def)
  show "\<exists>u. GetUser (store s') (UserID ident) = Inr u" using st1 by (simp add: s' GetUser_def)
  show "mem_ok (store s')" using dev.put_ok [OF conjunct1 [OF st1] P] .
qed

lemma Server_provider_id: "s\<lparr>UserLimit := ul\<rparr> = s\<lparr>UserLimit := ul, provider := provider s\<rparr>"
  for s :: "'p Server"
  by simp

lemma ack_frame_upd [simp]:
  "ack_frame (s\<lparr>UserLimit := ul\<rparr>) acc r = ack_frame s acc r"
  "ack_frame (s\<lparr>provider := p\<rparr>) acc r = ack_frame s acc r"
  by (simp_all add: ack_frame_def)

text \<open>The ways out of the register step: refused (with an acknowledgement that says so, or
  without), or identified, with the final acknowledgement sent or lost.\<close>

lemma register_step_cases:
  obtains (refused) ul p out e where
      "register_step env s c reg (t_l, ta, tu, td) = (s\<lparr>UserLimit := ul, provider := p\<rparr>, c, out, Some e)"
      "e \<noteq> SendRegisterAck" "\<forall>(t, f) \<in> set out. \<exists>r. f = ack_frame s False r"
  | (identified) ul p creds ident s2 c2 out err where
      "register_step env s c reg (t_l, ta, tu, td) = (s2, c2, out, err)"
      "Verify (sha256 env) (DeviceId reg) (PublicKey reg) = None"
      "AppCheckRequired env \<and> AppCheckVerifier env \<noteq> None
           \<longrightarrow> VerifyAppCheck (AppCheckVerifier env) (FirebaseAppCheckToken reg) = None"
      "chosen_builder env reg = Some creds"
      "Authenticate env (provider s) (Some creds) ta = (p, Inr ident)"
      "persist (s\<lparr>UserLimit := ul, provider := p\<rparr>) c reg ident tu td = (s2, c2)"
      "(out, err) = (if send_ok env (conn c2) (ack_frame s2 True []) then ([(conn c2, ack_frame s2 True [])], None)
                     else ([], Some SendRegisterAck))"
proof -
  obtain ul allowed where L: "bucket_Allow (fl64 env) (UserLimit s)
      (if UserId reg = [] then DeviceId reg else UserId reg) t_l = (ul, allowed)" by fastforce
  note simps = register_step_def L Let_def
  have rejected: thesis
    if "register_step env s c reg (t_l, ta, tu, td) =
        (s\<lparr>UserLimit := ul, provider := p\<rparr>, c, put_frame env (conn c) (ack_frame s False (hs_text env e)), Some e)"
      "e \<noteq> SendRegisterAck" for p e
    using refused [OF that] by (auto simp: put_frame_def)
  show ?thesis
  proof (cases "\<not> allowed")
    case True
    then show ?thesis using refused [where ul = ul and p = "provider s" and out = "[]" and e = UserRateLimit]
      by (simp add: simps)
  next
    case allowed: False
    show ?thesis
    proof (cases "Verify (sha256 env) (DeviceId reg) (PublicKey reg)")
      case (Some e)
      with allowed show ?thesis by (intro rejected [of "provider s" "DeviceIdentity e"]) (simp_all add: simps)
    next
      case v: None
      show ?thesis
      proof (cases "app_check env reg \<noteq> None \<and> AppCheckRequired env")
        case True
        with allowed v show ?thesis
          by (intro rejected [of "provider s" "AppCheck (the (app_check env reg))"]) (simp_all add: simps)
      next
        case a: False
        then have req: "AppCheckRequired env \<and> AppCheckVerifier env \<noteq> None
           \<longrightarrow> VerifyAppCheck (AppCheckVerifier env) (FirebaseAppCheckToken reg) = None"
          by (auto simp: app_check_def split: if_splits)
        show ?thesis
        proof (cases "chosen_builder env reg")
          case None
          with allowed v a show ?thesis
            using refused [where ul = ul and p = "provider s" and out = "[]" and e = ExtractCredentials]
            by (simp add: simps)
        next
          case b: (Some creds)
          obtain p res where A: "Authenticate env (provider s) (Some creds) ta = (p, res)" by fastforce
          show ?thesis
          proof (cases res)
            case (Inl e)
            with allowed v a b A show ?thesis by (intro rejected [of p "AuthError e"]) (simp_all add: simps)
          next
            case (Inr ident)
            obtain s2 c2 where P: "persist (s\<lparr>UserLimit := ul, provider := p\<rparr>) c reg ident tu td = (s2, c2)" by fastforce
            obtain out err where oe: "(out, err) = (if send_ok env (conn c2) (ack_frame s2 True [])
                then ([(conn c2, ack_frame s2 True [])], None) else ([], Some SendRegisterAck))" by (metis surj_pair)
            have "register_step env s c reg (t_l, ta, tu, td) = (s2, c2, out, err)"
              using allowed v a b A Inr P unfolding oe by (simp add: simps)
            from identified [OF this v req b A [unfolded Inr] P oe] show ?thesis .
          qed
        qed
      qed
    qed
  qed
qed

lemma register_step_None:
  assumes "register_step env s c reg (t_l, ta, tu, td) = (s', c', out, None)"
  shows "Verify (sha256 env) (DeviceId reg) (PublicKey reg) = None"
    and "AppCheckRequired env \<and> AppCheckVerifier env \<noteq> None
           \<longrightarrow> VerifyAppCheck (AppCheckVerifier env) (FirebaseAppCheckToken reg) = None"
    and "\<exists>creds p ident ul. chosen_builder env reg = Some creds
           \<and> Authenticate env (provider s) (Some creds) ta = (p, Inr ident)
           \<and> persist (s\<lparr>UserLimit := ul, provider := p\<rparr>) c reg ident tu td = (s', c')"
    and "out = [(conn c', ack_frame s' True [])]"
  by (rule register_step_cases [of env s c reg t_l ta tu td], (use assms in \<open>auto split: if_splits\<close>)[2])+

lemma register_step_Some:
  assumes "register_step env s c reg ts = (s', c', out, Some e)"
  shows "registry s' = registry s" "metrics s' = metrics s" "cid (conn c') = cid (conn c)" "registered c' = registered c"
    and "e \<noteq> SendRegisterAck \<longrightarrow> c' = c \<and> store s' = store s"
    and "\<forall>(t, f) \<in> set out. \<exists>r. f = ack_frame s False r"
proof -
  obtain t_l ta tu td where ts: "ts = (t_l, ta, tu, td)" by (cases ts)
  have "registry s' = registry s \<and> metrics s' = metrics s \<and> cid (conn c') = cid (conn c) \<and> registered c' = registered c
    \<and> (e \<noteq> SendRegisterAck \<longrightarrow> c' = c \<and> store s' = store s) \<and> (\<forall>(t, f) \<in> set out. \<exists>r. f = ack_frame s False r)"
  proof (cases rule: register_step_cases [of env s c reg t_l ta tu td])
    case (refused ul p out e)
    then show ?thesis using assms by (auto simp: ts)
  next
    case (identified ul p creds ident s2 c2 out err)
    then show ?thesis using assms persist_simps [OF identified(6)] by (auto simp: ts split: if_splits)
  qed
  then show "registry s' = registry s" "metrics s' = metrics s" "cid (conn c') = cid (conn c)" "registered c' = registered c"
    and "e \<noteq> SendRegisterAck \<longrightarrow> c' = c \<and> store s' = store s"
    and "\<forall>(t, f) \<in> set out. \<exists>r. f = ack_frame s False r" by blast+
qed

lemma handshake_identity:
  assumes "handshake env s c r1 r2 (t_l, ta, tu, td) = (s', c', out, None)"
  shows "\<exists>reg creds p ident. readFrame env r2 = Inr (Frame_Register reg)
    \<and> Verify (sha256 env) (DeviceId reg) (PublicKey reg) = None
    \<and> chosen_builder env reg = Some creds
    \<and> Authenticate env (provider s) (Some creds) ta = (p, Inr ident)
    \<and> conn_UserID (conn c') = UserID ident \<and> conn_DeviceID (conn c') = DeviceId reg"
proof -
  obtain reg out2 where r2: "readFrame env r2 = Inr (Frame_Register reg)"
      and step: "register_step env s c reg (t_l, ta, tu, td) = (s', c', out2, None)"
    using assms(1) by (auto simp: handshake_def Let_def split: sum.splits Frame.splits if_splits prod.splits)
  note R = register_step_None [OF step]
  obtain creds p ident ul where C: "chosen_builder env reg = Some creds"
      "Authenticate env (provider s) (Some creds) ta = (p, Inr ident)"
      "persist (s\<lparr>UserLimit := ul, provider := p\<rparr>) c reg ident tu td = (s', c')"
    using R(3) by blast
  show ?thesis using r2 R(1) C(1,2) persist_simps(5,6) [OF C(3)] by blast
qed

text \<open>C16: A connection is bound to an identity only after every check has passed: the Register
  message carries a device ID derived from the public key it presents, App Check accepted its
  token where the server requires it, and the auth provider accepted the credentials built from
  that very message. The connection then has the provider's user and the verified device, the
  device is stored for that user, and the client has been told so.\<close>

theorem handshake_binds_identity:
  assumes "handshake env s c r1 r2 (t_l, ta, tu, td) = (s', c', out, None)" and "mem_ok (store s)"
  shows "\<exists>reg creds p ident d. readFrame env r2 = Inr (Frame_Register reg)
    \<and> Verify (sha256 env) (DeviceId reg) (PublicKey reg) = None
    \<and> (AppCheckRequired env \<and> AppCheckVerifier env \<noteq> None
         \<longrightarrow> VerifyAppCheck (AppCheckVerifier env) (FirebaseAppCheckToken reg) = None)
    \<and> chosen_builder env reg = Some creds
    \<and> Authenticate env (provider s) (Some creds) ta = (p, Inr ident)
    \<and> conn c' = \<lparr>cid = cid (conn c), conn_UserID = UserID ident, conn_DeviceID = DeviceId reg\<rparr>
    \<and> GetDevice (store s') (DeviceId reg) = Inr d \<and> d_OwnerUserID d = UserID ident \<and> d_PublicKey d = PublicKey reg
    \<and> registry s' = registry s \<and> last out = (conn c', ack_frame s' True [])"
proof -
  obtain reg out2 where r2: "readFrame env r2 = Inr (Frame_Register reg)"
      and step: "register_step env s c reg (t_l, ta, tu, td) = (s', c', out2, None)" and out: "last out = last out2 \<or> out2 = []"
    using assms(1) by (auto simp: handshake_def Let_def split: sum.splits Frame.splits if_splits prod.splits)
  note R = register_step_None [OF step]
  obtain creds p ident ul where C: "chosen_builder env reg = Some creds"
      "Authenticate env (provider s) (Some creds) ta = (p, Inr ident)"
      "persist (s\<lparr>UserLimit := ul, provider := p\<rparr>) c reg ident tu td = (s', c')"
    using R(3) by blast
  obtain d where "GetDevice (store s') (DeviceId reg) = Inr d" "d_OwnerUserID d = UserID ident" "d_PublicKey d = PublicKey reg"
    using persist_device(1) [OF C(3)] assms(2) by auto
  moreover have "conn c' = \<lparr>cid = cid (conn c), conn_UserID = UserID ident, conn_DeviceID = DeviceId reg\<rparr>"
    using persist_simps(4-6) [OF C(3)] by (cases "conn c'") simp
  moreover have "registry s' = registry s" using persist_simps(1) [OF C(3)] by simp
  ultimately show ?thesis using r2 R(1,2,4) C(1,2) out by (intro exI conjI) auto
qed


definition demo_env :: "unit Env" where
  "demo_env = \<lparr>Authenticate = \<lambda>p c t. (p, Inr \<lparr>UserID = ''alice'', DeviceID = []\<rparr>),
     AuthBuilder = Some (\<lambda>r. Some NoneCreds), AppCheckVerifier = None, AppCheckRequired = False,
     sha256 = \<lambda>k. replicate 32 0, marshal_register = \<lambda>r. Some [],
     unmarshal_frame = \<lambda>d. if d = [1] then Some (Frame_ClientHello \<lparr>ch_ProtocolVersion = 1, ch_ClientId = []\<rparr>)
       else if d = [2] then Some (Frame_Register \<lparr>UserId = ''alice'', DeviceId = Derive (\<lambda>k. replicate 32 0) [1],
         PublicKey = [1], Kind = DEVICE_KIND_CLI, DisplayName = [], SignedAtUnix = 0, Nonce = [], HmacSignature = [],
         FirebaseIdToken = [], FirebaseAppCheckToken = []\<rparr>)
       else if d = [3] then Some (Frame_Connect \<lparr>TargetDeviceId = ''B'', FromDeviceId = ''forged'', Candidates = []\<rparr>)
       else None,
     fl64 = id, send_ok = \<lambda>c f. True, hs_text = \<lambda>e. [], room_text = \<lambda>e. [], dispatch_text = \<lambda>e. []\<rparr>"

definition demo_server :: "unit Server" where
  "demo_server = ws_New [] mem_New () AuthProviderPSK room_New None None None 0 (Some NewMetrics)"

definition demo_room :: Registry where
  "demo_room = [(''alice'', [(''B'', \<lparr>cid = 3, conn_UserID = ''alice'', conn_DeviceID = ''B''\<rparr>)])]"

lemma demo_handshake:
  "\<exists>s' c' out. handshake demo_env (demo_server\<lparr>registry := reg\<rparr>) (new_Connection 7) (WsMsg True [1]) (WsMsg True [2]) (5, 5, 5, 5)
     = (s', c', out, None)"
proof -
  have v: "Verify (\<lambda>k. replicate 32 0) (Derive (\<lambda>k. replicate 32 0) [1]) [1] = None"
    by (simp add: Verify_ok_iff Derive_def rawBytes_def length_base32_encode)
  obtain b where a: "bucket_Allow id (bucket_New (1 / 6) 3) ''alice'' 5 = (b, True)"
    by (simp add: bucket_Allow_def bucket_New_def Let_def)
  show ?thesis
    by (simp add: handshake_def readFrame_def demo_env_def ProtocolVersion_def Let_def register_step_def
        demo_server_def ws_New_def a v app_check_def chosen_builder_def split_beta)
qed

lemma handshake_binds_identity_witness:
  "\<exists>s' c' out. handshake demo_env demo_server (new_Connection 7) (WsMsg True [1]) (WsMsg True [2]) (5, 5, 5, 5)
     = (s', c', out, None) \<and> conn_UserID (conn c') = ''alice''"
proof -
  obtain s' c' out where h:
    "handshake demo_env demo_server (new_Connection 7) (WsMsg True [1]) (WsMsg True [2]) (5, 5, 5, 5) = (s', c', out, None)"
    using demo_handshake [of room_New] by (auto simp: demo_server_def ws_New_def)
  have "mem_ok (store demo_server)" by (simp add: demo_server_def ws_New_def mem_ok_New)
  from handshake_binds_identity [OF h this] h show ?thesis by (auto simp: demo_env_def)
qed

section \<open>The life of a connection\<close>

abbreviation active :: "Metrics option \<Rightarrow> int option" where
  "active \<equiv> map_option ActiveConnections"

lemma active_observe [simp]:
  "active (observeUpgradeRejected r m) = active m" "active (observeRegisterAccepted m) = active m"
  "active (observeRegisterRejected r m) = active m" "active (observeConnectForwarded m) = active m"
  "active (observeConnectRejected r m) = active m" "active (observeConnectionIdleClosed m) = active m"
  "active (observeSessionDuration d m) = active m" "active (observeRegisterToFirstConnect d m) = active m"
  "active (observeConnectionClosed m) = map_option (\<lambda>n. n - 1) (active m)"
  by (cases m; simp add: observeUpgradeRejected_def observeRegisterAccepted_def observeRegisterRejected_def
      observeConnectForwarded_def observeConnectRejected_def observeConnectionIdleClosed_def
      observeSessionDuration_def observeRegisterToFirstConnect_def observeConnectionClosed_def)+

lemma dispatch_frame:
  assumes "dispatch env s c f now = (s', c', out, err)"
  shows "registry s' = registry s" "conn c' = conn c" "registered c' = registered c" "registeredAt c' = registeredAt c"
    and "active (metrics s') = active (metrics s)"
  using assms
  by (auto simp: dispatch_def Let_def simp del: option.map_comp
      split: Frame.splits if_splits prod.splits option.splits)

lemma run_loop_frame:
  assumes "run_loop env s c evs = (s', c', out, fin)"
  shows "registry s' = registry s" "conn c' = conn c" "registered c' = registered c" "registeredAt c' = registeredAt c"
    and "active (metrics s') = active (metrics s)"
proof -
  have "registry s' = registry s \<and> conn c' = conn c \<and> registered c' = registered c \<and> registeredAt c' = registeredAt c
    \<and> active (metrics s') = active (metrics s)"
    using assms
  proof (induction env s c evs arbitrary: s' c' out fin rule: run_loop.induct)
    case (2 env s c ev now evs)
    show ?case
    proof (cases "readFrameWithIdleTimeout env s ev")
      case None
      then show ?thesis using "2.IH"(1) "2.prems" by simp
    next
      case (Some r)
      show ?thesis
      proof (cases r)
        case (Inl e)
        with Some "2.prems" show ?thesis
          by (auto simp del: option.map_comp split: if_splits)
      next
        case (Inr f)
        obtain s1 c1 out1 err where D: "dispatch env s c f now = (s1, c1, out1, err)" by (metis prod_cases4)
        note F = dispatch_frame [OF D]
        show ?thesis
        proof (cases err)
          case e: (Some e)
          with Some Inr D F "2.prems" show ?thesis by auto
        next
          case None
          obtain s2 c2 out2 fin2 where L: "run_loop env s1 c1 evs = (s2, c2, out2, fin2)" by (metis prod_cases4)
          with None Some Inr D F "2.prems" "2.IH"(2) [OF Some Inr D [symmetric] refl refl None L]
          show ?thesis by auto
        qed
      qed
    qed
  qed simp
  then show "registry s' = registry s" "conn c' = conn c" "registered c' = registered c" "registeredAt c' = registeredAt c"
    and "active (metrics s') = active (metrics s)" by blast+
qed


lemma handshake_frame:
  assumes "handshake env s c r1 r2 ts = (s', c', out, err)"
  shows "registry s' = registry s" "cid (conn c') = cid (conn c)" "registered c' = registered c"
    "active (metrics s') = active (metrics s)"
    and "\<forall>(t, f) \<in> set out. \<forall>m. f \<noteq> Frame_Connect m"
proof -
  obtain t_l ta tu td where ts: "ts = (t_l, ta, tu, td)" by (cases ts)
  have step: "registry s1 = registry s \<and> cid (conn c1) = cid (conn c) \<and> registered c1 = registered c
      \<and> active (metrics s1) = active (metrics s) \<and> (\<forall>(t, f) \<in> set out1. \<forall>m. f \<noteq> Frame_Connect m)"
    if "register_step env s c reg ts = (s1, c1, out1, err1)" for reg s1 c1 out1 err1
  proof (cases rule: register_step_cases [of env s c reg t_l ta tu td])
    case (refused ul p out e)
    then show ?thesis using that by (auto simp: ts ack_frame_def)
  next
    case (identified ul p creds ident s2 c2 out err)
    then show ?thesis using that persist_simps [OF identified(6)] by (auto simp: ts ack_frame_def split: if_splits)
  qed
  have "registry s' = registry s \<and> cid (conn c') = cid (conn c) \<and> registered c' = registered c
      \<and> active (metrics s') = active (metrics s) \<and> (\<forall>(t, f) \<in> set out. \<forall>m. f \<noteq> Frame_Connect m)"
    using assms step
    by (auto simp: handshake_def Let_def split: sum.splits Frame.splits if_splits prod.splits) fastforce
  then show "registry s' = registry s" "cid (conn c') = cid (conn c)" "registered c' = registered c"
    "active (metrics s') = active (metrics s)"
    and "\<forall>(t, f) \<in> set out. \<forall>m. f \<noteq> Frame_Connect m" by blast+
qed

lemma handshake_DeviceLimit:
  assumes "handshake env s c r1 r2 ts = (s', c', out, err)"
  shows "DeviceLimit s' = DeviceLimit s"
proof -
  obtain t_l ta tu td where ts: "ts = (t_l, ta, tu, td)" by (cases ts)
  have step: "DeviceLimit s1 = DeviceLimit s" if "register_step env s c reg ts = (s1, c1, out1, err1)" for reg s1 c1 out1 err1
    by (cases rule: register_step_cases [of env s c reg t_l ta tu td])
       (use that in \<open>auto simp: ts persist_def Let_def\<close>)
  show ?thesis
    using assms step by (auto simp: handshake_def Let_def split: sum.splits Frame.splits if_splits prod.splits)
qed

lemma run_register_frame:
  assumes "run_register env s c t = (s', c', out)"
  shows "registry s' = fst (room_Register (registry s) (conn c))" "conn c' = conn c" "registered c'"
    "active (metrics s') = active (metrics s)"
    and "\<forall>(t, f) \<in> set out. \<forall>m. f \<noteq> Frame_Connect m"
  using assms by (auto simp: run_register_def Let_def put_frame_def split: prod.splits option.splits if_splits)

lemma run_cleanup_frame:
  "registry (run_cleanup s c t) = (if registered c then room_Unregister (registry s) (conn c) else registry s)"
  "active (metrics (run_cleanup s c t)) = map_option (\<lambda>n. n - 1) (active (metrics s))"
  by (simp_all add: run_cleanup_def Let_def)

text \<open>What a finished \<^verbatim>\<open>run\<close> does to the registry: nothing when the handshake failed, else a
  registration and its removal.\<close>

lemma run_registry:
  assumes "run env s (new_Connection i) r1 r2 ts t_reg evs t_end = (s', out, True)"
  shows "registry s' = registry s
      \<or> (\<exists>c. cid c = i \<and> registry s' = room_Unregister (fst (room_Register (registry s) c)) c)"
    and "active (metrics s') = map_option (\<lambda>n. n - 1) (active (metrics s))"
proof -
  obtain s1 c1 out1 err where H: "handshake env s (new_Connection i) r1 r2 ts = (s1, c1, out1, err)" by (metis prod_cases4)
  note F = handshake_frame [OF H]
  have "(registry s' = registry s
      \<or> (\<exists>c. cid c = i \<and> registry s' = room_Unregister (fst (room_Register (registry s) c)) c))
    \<and> active (metrics s') = map_option (\<lambda>n. n - 1) (active (metrics s))"
  proof (cases err)
    case (Some e)
    with assms H F show ?thesis by (auto simp: run_def run_cleanup_frame new_Connection_def)
  next
    case None
    obtain s2 c2 out2 where R: "run_register env s1 c1 t_reg = (s2, c2, out2)" by (metis prod_cases3)
    obtain s3 c3 out3 fin where L: "run_loop env s2 c2 evs = (s3, c3, out3, fin)" by (metis prod_cases4)
    have s': "s' = run_cleanup s3 c3 t_end" using assms None H R L by (auto simp: run_def split: if_splits)
    show ?thesis
      using F run_register_frame [OF R] run_loop_frame [OF L]
      by (auto simp: s' run_cleanup_frame new_Connection_def)
  qed
  then show "registry s' = registry s
      \<or> (\<exists>c. cid c = i \<and> registry s' = room_Unregister (fst (room_Register (registry s) c)) c)"
    and "active (metrics s') = map_option (\<lambda>n. n - 1) (active (metrics s))" by blast+
qed



text \<open>The gauge of active connections only ever goes down. An accepted upgrade does not
  count the connection, but its end uncounts it, so after \<open>n\<close> connections the gauge shows
  \<open>-n\<close>.\<close>

theorem active_gauge_negative:
  assumes "serveHTTP env s i xff addr now True r1 r2 ts t_reg evs t_end = (s', Upgraded, out, True)"
    and "metrics s = Some m"
  shows "\<exists>m'. metrics s' = Some m' \<and> ActiveConnections m' = ActiveConnections m - 1"
proof -
  obtain ipl where "run env (s\<lparr>IPLimit := ipl\<rparr>) (new_Connection i) r1 r2 ts t_reg evs t_end = (s', out, True)"
    using assms(1) by (auto simp: serveHTTP_def Let_def split: prod.splits if_splits)
  from run_registry(2) [OF this] assms(2) show ?thesis by (cases "metrics s'") auto
qed

lemma active_gauge_negative_witness:
  "\<exists>s' out m'. serveHTTP demo_env demo_server 7 ''1.2.3.4'' [] 5 True (WsFail True) (WsFail True) (5, 5, 5, 5) 6 [] 9
      = (s', Upgraded, out, True) \<and> metrics s' = Some m' \<and> ActiveConnections m' = -1"
proof -
  obtain b where a: "bucket_Allow id (bucket_New (1 / 6) 3) ''1.2.3.4'' 5 = (b, True)"
    by (simp add: bucket_Allow_def bucket_New_def Let_def)
  obtain s' out where r: "serveHTTP demo_env demo_server 7 ''1.2.3.4'' [] 5 True (WsFail True) (WsFail True) (5, 5, 5, 5) 6 [] 9
      = (s', Upgraded, out, True)"
    by (simp add: serveHTTP_def remoteIP_def a demo_server_def ws_New_def demo_env_def run_def handshake_def readFrame_def)
  from active_gauge_negative [OF r, of NewMetrics] r show ?thesis
    by (auto simp: demo_server_def ws_New_def NewMetrics_def)
qed


section \<open>What a connection can make others receive\<close>

definition connect_from :: "Conn \<Rightarrow> Conn \<times> Frame \<Rightarrow> bool" where
  "connect_from c tf \<longleftrightarrow> (\<forall>m. snd tf = Frame_Connect m \<longrightarrow> FromDeviceId m = conn_DeviceID c
     \<and> conn_UserID (fst tf) = conn_UserID c \<and> conn_DeviceID (fst tf) = TargetDeviceId m)"

lemma dispatch_connect_from:
  assumes "dispatch env s c f now = (s', c', out, err)" and "room_ok (registry s)"
  shows "\<forall>tf \<in> set out. connect_from (conn c) tf"
proof (cases f)
  case (Frame_Connect msg)
  obtain e out1 where F: "Forward (send_ok env) (registry s) (conn c) msg = (e, out1)" by fastforce
  have "\<forall>tf \<in> set out1. connect_from (conn c) tf"
    using forward_confined_sends [OF assms(2) F] by (fastforce simp: connect_from_def)
  moreover have "set out \<subseteq> set out1 \<union> {tf. \<forall>m. snd tf \<noteq> Frame_Connect m}"
    using assms(1) F Frame_Connect
    by (auto simp: dispatch_def Let_def sendServerError_def put_frame_def split: if_splits prod.splits option.splits)
  ultimately show ?thesis by (fastforce simp: connect_from_def)
qed (use assms(1) in \<open>auto simp: dispatch_def\<close>)

lemma run_loop_connect_from:
  assumes "run_loop env s c evs = (s', c', out, fin)" and "room_ok (registry s)"
  shows "\<forall>tf \<in> set out. connect_from (conn c) tf"
  using assms
proof (induction env s c evs arbitrary: s' c' out fin rule: run_loop.induct)
  case (2 env s c ev now evs)
  have err: "connect_from k (sendServerError c' code msg)" for k c' code msg
    by (simp add: connect_from_def sendServerError_def)
  show ?case
  proof (cases "readFrameWithIdleTimeout env s ev")
    case None
    then show ?thesis using "2.IH"(1) "2.prems" by simp
  next
    case (Some r)
    show ?thesis
    proof (cases r)
      case (Inl e)
      with Some "2.prems" err show ?thesis by (auto simp: put_frame_def split_beta split: if_splits)
    next
      case (Inr f)
      obtain s1 c1 out1 er where D: "dispatch env s c f now = (s1, c1, out1, er)" by (metis prod_cases4)
      note F = dispatch_frame [OF D] and O = dispatch_connect_from [OF D "2.prems"(2)]
      show ?thesis
      proof (cases er)
        case e: (Some e)
        with Some Inr D O "2.prems" err show ?thesis by (auto simp: put_frame_def split_beta split: if_splits)
      next
        case None
        obtain s2 c2 out2 fin2 where L: "run_loop env s1 c1 evs = (s2, c2, out2, fin2)" by (metis prod_cases4)
        have "\<forall>tf \<in> set out2. connect_from (conn c) tf"
          using "2.IH"(2) [OF Some Inr D [symmetric] refl refl None L] F "2.prems"(2) by simp
        with None Some Inr D O L "2.prems"(1) show ?thesis by auto
      qed
    qed
  qed
qed simp

text \<open>C2: The origin of every Connect message a peer receives is authentic. Whatever frames a
  connection sends, each Connect the server delivers for it names, as its origin, the device
  whose ID was derived from the public key the connection registered with, and reaches only a
  device of the user the auth provider accepted for it.\<close>

theorem connects_authentic:
  assumes "run env s (new_Connection i) r1 r2 (t_l, ta, tu, td) t_reg evs t_end = (s', out, fin)"
    and "room_ok (registry s)" and "(t, Frame_Connect m) \<in> set out"
  shows "\<exists>reg creds p ident. readFrame env r2 = Inr (Frame_Register reg)
    \<and> FromDeviceId m = DeviceId reg \<and> FromDeviceId m = Derive (sha256 env) (PublicKey reg)
    \<and> chosen_builder env reg = Some creds
    \<and> Authenticate env (provider s) (Some creds) ta = (p, Inr ident)
    \<and> conn_UserID t = UserID ident \<and> conn_DeviceID t = TargetDeviceId m"
proof -
  let ?ts = "(t_l, ta, tu, td)"
  obtain s1 c1 out1 err where H: "handshake env s (new_Connection i) r1 r2 ?ts = (s1, c1, out1, err)" by (metis prod_cases4)
  note F = handshake_frame [OF H]
  have err: "err = None"
  proof (rule ccontr)
    assume "err \<noteq> None"
    then have "set out \<subseteq> set out1 \<union> {tf. \<forall>m. snd tf \<noteq> Frame_Connect m}"
      using assms(1) H by (auto simp: run_def put_frame_def sendServerError_def split: if_splits)
    with assms(3) F(5) show False by fastforce
  qed
  obtain s2 c2 out2 where R: "run_register env s1 c1 t_reg = (s2, c2, out2)" by (metis prod_cases3)
  note G = run_register_frame [OF R]
  obtain s3 c3 out3 fn where L: "run_loop env s2 c2 evs = (s3, c3, out3, fn)" by (metis prod_cases4)
  have "room_ok (registry s2)" using G(1) F(1) assms(2) by (simp add: room_ok_Register)
  note C = run_loop_connect_from [OF L this]
  have "out = out1 @ out2 @ out3" using assms(1) H err R L by (auto simp: run_def)
  then have "(t, Frame_Connect m) \<in> set out3" using assms(3) F(5) G(5) by fastforce
  with C G(2) have m: "FromDeviceId m = conn_DeviceID (conn c1)" "conn_UserID t = conn_UserID (conn c1)"
      "conn_DeviceID t = TargetDeviceId m"
    by (auto simp: connect_from_def)
  from handshake_identity [OF H [unfolded err]] obtain reg creds p ident where
    "readFrame env r2 = Inr (Frame_Register reg)" "Verify (sha256 env) (DeviceId reg) (PublicKey reg) = None"
    "chosen_builder env reg = Some creds" "Authenticate env (provider s) (Some creds) ta = (p, Inr ident)"
    "conn_UserID (conn c1) = UserID ident" "conn_DeviceID (conn c1) = DeviceId reg"
    by blast
  with m show ?thesis by (auto simp: Verify_ok_iff)
qed


lemma connects_authentic_witness:
  "\<exists>s' out t m. run demo_env (demo_server\<lparr>registry := demo_room\<rparr>) (new_Connection 7) (WsMsg True [1]) (WsMsg True [2])
      (5, 5, 5, 5) 6 [(RaceRead (WsMsg True [3]), 8)] 9 = (s', out, False)
     \<and> (t, Frame_Connect m) \<in> set out \<and> FromDeviceId m = Derive (\<lambda>k. replicate 32 0) [1]"
proof -
  let ?s = "demo_server\<lparr>registry := demo_room\<rparr>"
  let ?did = "Derive (\<lambda>k. replicate 32 0) [1]"
  obtain s1 c1 out1 where h:
    "handshake demo_env ?s (new_Connection 7) (WsMsg True [1]) (WsMsg True [2]) (5, 5, 5, 5) = (s1, c1, out1, None)"
    using demo_handshake by blast
  have len: "length ?did = 16" by (simp add: Derive_def rawBytes_def length_base32_encode)
  have F: "registry s1 = demo_room" using handshake_frame(1) [OF h] by simp
  have id: "conn_UserID (conn c1) = ''alice''" "conn_DeviceID (conn c1) = ?did"
    using handshake_identity [OF h] by (auto simp: demo_env_def readFrame_def)
  have "?did \<noteq> ''B''" using len by auto
  then have fwd: "\<exists>t fr. Forward (\<lambda>c f. True) (fst (room_Register demo_room (conn c1))) (conn c1)
      \<lparr>TargetDeviceId = ''B'', FromDeviceId = ''forged'', Candidates = []\<rparr> = (None, [(t, Frame_Connect fr)])"
    using id by (simp add: Forward_def room_Register_def demo_room_def Let_def)
  have dl: "DeviceLimit s1 = bucket_New (1 / 2) 5"
    using handshake_DeviceLimit [OF h] by (simp add: demo_server_def ws_New_def)
  obtain b where a: "bucket_Allow id (bucket_New (1 / 2) 5) ?did 8 = (b, True)"
    by (simp add: bucket_Allow_def bucket_New_def Let_def)
  let ?msg = "\<lparr>TargetDeviceId = ''B'', FromDeviceId = ''forged'', Candidates = []\<rparr>"
  obtain s2 c2 out2 where R: "run_register demo_env s1 c1 6 = (s2, c2, out2)" by (metis prod_cases3)
  have s2: "registry s2 = fst (room_Register demo_room (conn c1))" "conn c2 = conn c1" "DeviceLimit s2 = bucket_New (1 / 2) 5"
    using run_register_frame [OF R] F R dl by (auto simp: run_register_def Let_def split_beta)
  have rd: "readFrameWithIdleTimeout demo_env s2 (RaceRead (WsMsg True [3])) = Some (Inr (Frame_Connect ?msg))"
    by (simp add: readFrameWithIdleTimeout_def readFrame_def demo_env_def)
  have env: "fl64 demo_env = id" "send_ok demo_env = (\<lambda>c f. True)" by (simp_all add: demo_env_def)
  obtain t m where tm: "Forward (\<lambda>c f. True) (registry s2) (conn c2) ?msg = (None, [(t, Frame_Connect m)])"
    using fwd s2 by auto
  obtain s3 c3 where D: "dispatch demo_env s2 c2 (Frame_Connect ?msg) 8 = (s3, c3, [(t, Frame_Connect m)], None)"
    using tm s2 id a by (cases "firstConnectSeen c2") (simp_all add: dispatch_def Let_def env)
  obtain s' out where r: "run demo_env ?s (new_Connection 7) (WsMsg True [1]) (WsMsg True [2])
      (5, 5, 5, 5) 6 [(RaceRead (WsMsg True [3]), 8)] 9 = (s', out, False)" "(t, Frame_Connect m) \<in> set out"
    by (simp add: run_def h R rd D)
  have "room_ok demo_room"
    by (auto simp: room_ok_def demo_room_def registered_at_def split: if_splits)
  then have "\<exists>reg. readFrame demo_env (WsMsg True [2]) = Inr (Frame_Register reg)
      \<and> FromDeviceId m = Derive (sha256 demo_env) (PublicKey reg)"
    using connects_authentic [OF r(1) _ r(2)] by auto
  then have "FromDeviceId m = ?did" by (auto simp: demo_env_def readFrame_def)
  with r show ?thesis by blast
qed

end
