(* ===== verification/Sqlite.thy ===== *)
theory Sqlite
  imports Store
begin

text \<open>
  \<^verbatim>\<open>core/store/sqlite\<close>: the store of the signaling server in an SQL database, and its
  migrations. A table is a map from primary keys to rows, a statement that fails is an argument,
  and \<^verbatim>\<open>INSERT ... ON CONFLICT DO UPDATE\<close> is \<open>upsert\<close> with the \<^verbatim>\<open>SET\<close> list of the
  statement as a function of the row found and the row proposed. Times are columns of text: the
  layout \<^verbatim>\<open>RFC3339Nano\<close> is a pair of functions. The enumerations are integers in Go, so their
  conversion to a column and back changes nothing.
\<close>

record time_layout =
  Format :: "time \<Rightarrow> string"
  Parse :: "string \<Rightarrow> time option"

definition formatTime :: "time_layout \<Rightarrow> time \<Rightarrow> string" where
  "formatTime l t = (if t = 0 then [] else Format l t)"

definition parseTime :: "time_layout \<Rightarrow> string \<Rightarrow> time option" where
  "parseTime l s = (if s = [] then Some 0 else Parse l s)"

record device_row =
  dr_public_key :: bytes
  dr_owner_user_id :: string
  dr_kind :: DeviceKind
  dr_display_name :: string
  dr_created_at :: string
  dr_last_seen_at :: string

record session_row =
  sr_user_id :: string
  sr_mobile_device_id :: string
  sr_host_device_id :: string
  sr_state :: SessionState
  sr_created_at :: string
  sr_last_active_at :: string
  sr_idle_deadline_at :: string

record user_row =
  ur_auth_provider :: AuthProvider
  ur_created_at :: string

record psk_row =
  pr_secret :: bytes
  pr_display_label :: string
  pr_created_at :: string
  pr_revoked_at :: string

record pairing_row =
  ar_created_at :: string
  ar_last_used_at :: string

record sql_db =
  t_devices :: "(string, device_row) gomap"
  t_sessions :: "(string, session_row) gomap"
  t_users :: "(string, user_row) gomap"
  t_psk_records :: "(string, psk_row) gomap"
  t_pairings :: "(pairingKey, pairing_row) gomap"

definition empty_db :: sql_db where
  "empty_db = \<lparr>t_devices = [], t_sessions = [], t_users = [], t_psk_records = [], t_pairings = []\<rparr>"

definition upsert :: "'k \<Rightarrow> 'r \<Rightarrow> ('r \<Rightarrow> 'r \<Rightarrow> 'r) \<Rightarrow> ('k, 'r) gomap \<Rightarrow> ('k, 'r) gomap" where
  "upsert k excluded set_list t =
     (case gm_get t k of
        None \<Rightarrow> gm_put k excluded t
      | Some old \<Rightarrow> gm_put k (set_list old excluded) t)"

text \<open>A scan of every row of a result, stopping at the first error.\<close>

fun scan_all :: "('r \<Rightarrow> store_err + 'a) \<Rightarrow> 'r list \<Rightarrow> store_err + 'a list" where
  "scan_all f [] = Inr []"
| "scan_all f (r # rs) =
     (case f r of
        Inl e \<Rightarrow> Inl e
      | Inr x \<Rightarrow> (case scan_all f rs of Inl e \<Rightarrow> Inl e | Inr xs \<Rightarrow> Inr (x # xs)))"

definition row_or_none :: "('r \<Rightarrow> store_err + 'a) \<Rightarrow> 'r option \<Rightarrow> store_err + 'a" where
  "row_or_none f r = (case r of None \<Rightarrow> Inl ErrNotFound | Some x \<Rightarrow> f x)"


section \<open>Devices\<close>

definition sq_PutDevice :: "time_layout \<Rightarrow> bool \<Rightarrow> sql_db \<Rightarrow> Device \<Rightarrow> store_err + sql_db" where
  "sq_PutDevice l fails s d =
     (if fails then Inl StoreFailure
      else Inr (s\<lparr>t_devices := upsert (d_ID d)
        \<lparr>dr_public_key = d_PublicKey d, dr_owner_user_id = d_OwnerUserID d, dr_kind = d_Kind d,
         dr_display_name = d_DisplayName d, dr_created_at = formatTime l (d_CreatedAt d),
         dr_last_seen_at = formatTime l (d_LastSeenAt d)\<rparr>
        (\<lambda>old ex. old\<lparr>dr_public_key := dr_public_key ex, dr_owner_user_id := dr_owner_user_id ex,
           dr_kind := dr_kind ex, dr_display_name := dr_display_name ex, dr_last_seen_at := dr_last_seen_at ex\<rparr>)
        (t_devices s)\<rparr>))"

definition scanDevice :: "time_layout \<Rightarrow> string \<Rightarrow> device_row \<Rightarrow> store_err + Device" where
  "scanDevice l i r =
     (case parseTime l (dr_created_at r) of
        None \<Rightarrow> Inl StoreFailure
      | Some c \<Rightarrow>
         (case parseTime l (dr_last_seen_at r) of
            None \<Rightarrow> Inl StoreFailure
          | Some ls \<Rightarrow> Inr \<lparr>d_ID = i, d_PublicKey = dr_public_key r, d_OwnerUserID = dr_owner_user_id r,
                d_Kind = dr_kind r, d_DisplayName = dr_display_name r, d_CreatedAt = c, d_LastSeenAt = ls\<rparr>))"

definition sq_GetDevice :: "time_layout \<Rightarrow> bool \<Rightarrow> sql_db \<Rightarrow> string \<Rightarrow> store_err + Device" where
  "sq_GetDevice l fails s i =
     (if fails then Inl StoreFailure else row_or_none (scanDevice l i) (gm_get (t_devices s) i))"

definition sq_ListDevicesByOwner :: "time_layout \<Rightarrow> bool \<Rightarrow> sql_db \<Rightarrow> string \<Rightarrow> store_err + Device list" where
  "sq_ListDevicesByOwner l fails s u =
     (if fails then Inl StoreFailure
      else scan_all (\<lambda>(i, r). scanDevice l i r) (filter (\<lambda>(i, r). dr_owner_user_id r = u) (t_devices s)))"

definition sq_DeleteDevice :: "bool \<Rightarrow> sql_db \<Rightarrow> string \<Rightarrow> store_err + sql_db" where
  "sq_DeleteDevice fails s i =
     (if fails then Inl StoreFailure
      else if gm_get (t_devices s) i = None then Inl ErrNotFound
      else Inr (s\<lparr>t_devices := gm_del i (t_devices s)\<rparr>))"


section \<open>Sessions\<close>

definition sq_PutSession :: "time_layout \<Rightarrow> bool \<Rightarrow> sql_db \<Rightarrow> Session \<Rightarrow> store_err + sql_db" where
  "sq_PutSession l fails s x =
     (if fails then Inl StoreFailure
      else Inr (s\<lparr>t_sessions := upsert (s_ID x)
        \<lparr>sr_user_id = s_UserID x, sr_mobile_device_id = s_MobileDeviceID x, sr_host_device_id = s_HostDeviceID x,
         sr_state = s_State x, sr_created_at = formatTime l (s_CreatedAt x),
         sr_last_active_at = formatTime l (s_LastActiveAt x), sr_idle_deadline_at = formatTime l (s_IdleDeadlineAt x)\<rparr>
        (\<lambda>old ex. old\<lparr>sr_user_id := sr_user_id ex, sr_mobile_device_id := sr_mobile_device_id ex,
           sr_host_device_id := sr_host_device_id ex, sr_state := sr_state ex,
           sr_last_active_at := sr_last_active_at ex, sr_idle_deadline_at := sr_idle_deadline_at ex\<rparr>)
        (t_sessions s)\<rparr>))"

definition scanSession :: "time_layout \<Rightarrow> string \<Rightarrow> session_row \<Rightarrow> store_err + Session" where
  "scanSession l i r =
     (case (parseTime l (sr_created_at r), parseTime l (sr_last_active_at r), parseTime l (sr_idle_deadline_at r)) of
        (Some c, Some a, Some d) \<Rightarrow>
          Inr \<lparr>s_ID = i, s_UserID = sr_user_id r, s_MobileDeviceID = sr_mobile_device_id r,
               s_HostDeviceID = sr_host_device_id r, s_State = sr_state r, s_CreatedAt = c, s_LastActiveAt = a,
               s_IdleDeadlineAt = d\<rparr>
      | _ \<Rightarrow> Inl StoreFailure)"

definition sq_GetSession :: "time_layout \<Rightarrow> bool \<Rightarrow> sql_db \<Rightarrow> string \<Rightarrow> store_err + Session" where
  "sq_GetSession l fails s i =
     (if fails then Inl StoreFailure else row_or_none (scanSession l i) (gm_get (t_sessions s) i))"

definition sq_DeleteSession :: "bool \<Rightarrow> sql_db \<Rightarrow> string \<Rightarrow> store_err + sql_db" where
  "sq_DeleteSession fails s i =
     (if fails then Inl StoreFailure
      else if gm_get (t_sessions s) i = None then Inl ErrNotFound
      else Inr (s\<lparr>t_sessions := gm_del i (t_sessions s)\<rparr>))"


section \<open>Users\<close>

definition sq_PutUser :: "time_layout \<Rightarrow> bool \<Rightarrow> sql_db \<Rightarrow> User \<Rightarrow> store_err + sql_db" where
  "sq_PutUser l fails s u =
     (if fails then Inl StoreFailure
      else Inr (s\<lparr>t_users := upsert (u_ID u)
        \<lparr>ur_auth_provider = u_AuthProvider u, ur_created_at = formatTime l (u_CreatedAt u)\<rparr>
        (\<lambda>old ex. old\<lparr>ur_auth_provider := ur_auth_provider ex\<rparr>) (t_users s)\<rparr>))"

definition scanUser :: "time_layout \<Rightarrow> string \<Rightarrow> user_row \<Rightarrow> store_err + User" where
  "scanUser l i r =
     (case parseTime l (ur_created_at r) of
        None \<Rightarrow> Inl StoreFailure
      | Some c \<Rightarrow> Inr \<lparr>u_ID = i, u_AuthProvider = ur_auth_provider r, u_CreatedAt = c\<rparr>)"

definition sq_GetUser :: "time_layout \<Rightarrow> bool \<Rightarrow> sql_db \<Rightarrow> string \<Rightarrow> store_err + User" where
  "sq_GetUser l fails s i =
     (if fails then Inl StoreFailure else row_or_none (scanUser l i) (gm_get (t_users s) i))"


section \<open>PSK records\<close>

definition sq_PutPSKRecord :: "time_layout \<Rightarrow> bool \<Rightarrow> sql_db \<Rightarrow> PSKRecord \<Rightarrow> store_err + sql_db" where
  "sq_PutPSKRecord l fails s r =
     (if fails then Inl StoreFailure
      else Inr (s\<lparr>t_psk_records := upsert (r_UserID r)
        \<lparr>pr_secret = r_Secret r, pr_display_label = r_DisplayLabel r,
         pr_created_at = formatTime l (r_CreatedAt r), pr_revoked_at = formatTime l (r_RevokedAt r)\<rparr>
        (\<lambda>old ex. old\<lparr>pr_secret := pr_secret ex, pr_display_label := pr_display_label ex,
           pr_revoked_at := pr_revoked_at ex\<rparr>)
        (t_psk_records s)\<rparr>))"

definition scanPSKRecord :: "time_layout \<Rightarrow> string \<Rightarrow> psk_row \<Rightarrow> store_err + PSKRecord" where
  "scanPSKRecord l u r =
     (case parseTime l (pr_created_at r) of
        None \<Rightarrow> Inl StoreFailure
      | Some c \<Rightarrow>
         (case parseTime l (pr_revoked_at r) of
            None \<Rightarrow> Inl StoreFailure
          | Some v \<Rightarrow> Inr \<lparr>r_UserID = u, r_Secret = pr_secret r, r_DisplayLabel = pr_display_label r,
                            r_CreatedAt = c, r_RevokedAt = v\<rparr>))"

definition sq_GetPSKRecord :: "time_layout \<Rightarrow> bool \<Rightarrow> sql_db \<Rightarrow> string \<Rightarrow> store_err + PSKRecord" where
  "sq_GetPSKRecord l fails s u =
     (if fails then Inl StoreFailure else row_or_none (scanPSKRecord l u) (gm_get (t_psk_records s) u))"

definition sq_ListPSKRecords :: "time_layout \<Rightarrow> bool \<Rightarrow> sql_db \<Rightarrow> store_err + PSKRecord list" where
  "sq_ListPSKRecords l fails s =
     (if fails then Inl StoreFailure else scan_all (\<lambda>(u, r). scanPSKRecord l u r) (t_psk_records s))"

definition sq_DeletePSKRecord :: "bool \<Rightarrow> sql_db \<Rightarrow> string \<Rightarrow> store_err + sql_db" where
  "sq_DeletePSKRecord fails s u =
     (if fails then Inl StoreFailure
      else if gm_get (t_psk_records s) u = None then Inl ErrNotFound
      else Inr (s\<lparr>t_psk_records := gm_del u (t_psk_records s)\<rparr>))"


section \<open>Pairings\<close>

definition sq_PutPairing :: "time_layout \<Rightarrow> bool \<Rightarrow> sql_db \<Rightarrow> Pairing \<Rightarrow> store_err + sql_db" where
  "sq_PutPairing l fails s p =
     (if fails then Inl StoreFailure
      else Inr (s\<lparr>t_pairings := upsert (p_UserID p, p_MobileDeviceID p, p_HostDeviceID p)
        \<lparr>ar_created_at = formatTime l (p_CreatedAt p), ar_last_used_at = formatTime l (p_LastUsedAt p)\<rparr>
        (\<lambda>old ex. old\<lparr>ar_last_used_at := ar_last_used_at ex\<rparr>) (t_pairings s)\<rparr>))"

definition scanPairing :: "time_layout \<Rightarrow> pairingKey \<Rightarrow> pairing_row \<Rightarrow> store_err + Pairing" where
  "scanPairing l k r =
     (case parseTime l (ar_created_at r) of
        None \<Rightarrow> Inl StoreFailure
      | Some c \<Rightarrow>
         (case parseTime l (ar_last_used_at r) of
            None \<Rightarrow> Inl StoreFailure
          | Some v \<Rightarrow> Inr \<lparr>p_UserID = fst k, p_MobileDeviceID = fst (snd k), p_HostDeviceID = snd (snd k),
                            p_CreatedAt = c, p_LastUsedAt = v\<rparr>))"

definition sq_GetPairing :: "time_layout \<Rightarrow> bool \<Rightarrow> sql_db \<Rightarrow> string \<Rightarrow> string \<Rightarrow> string \<Rightarrow> store_err + Pairing" where
  "sq_GetPairing l fails s u mobile host =
     (if fails then Inl StoreFailure
      else row_or_none (scanPairing l (u, mobile, host)) (gm_get (t_pairings s) (u, mobile, host)))"

definition sq_ListPairingsByUser :: "time_layout \<Rightarrow> bool \<Rightarrow> sql_db \<Rightarrow> string \<Rightarrow> store_err + Pairing list" where
  "sq_ListPairingsByUser l fails s u =
     (if fails then Inl StoreFailure
      else scan_all (\<lambda>(k, r). scanPairing l k r) (filter (\<lambda>(k, r). fst k = u) (t_pairings s)))"

definition sq_DeletePairing :: "bool \<Rightarrow> sql_db \<Rightarrow> string \<Rightarrow> string \<Rightarrow> string \<Rightarrow> store_err + sql_db" where
  "sq_DeletePairing fails s u mobile host =
     (if fails then Inl StoreFailure
      else if gm_get (t_pairings s) (u, mobile, host) = None then Inl ErrNotFound
      else Inr (s\<lparr>t_pairings := gm_del (u, mobile, host) (t_pairings s)\<rparr>))"


section \<open>Rows and records\<close>

text \<open>What a put writes: the record, with the creation time of the one it replaces.\<close>

definition keep :: "('v \<Rightarrow> 'v \<Rightarrow> 'v) \<Rightarrow> 'v option \<Rightarrow> 'v \<Rightarrow> 'v" where
  "keep f old v = (case old of None \<Rightarrow> v | Some v' \<Rightarrow> f v' v)"

text \<open>A table represents a map when its rows scan to exactly the map's values.\<close>

definition represents :: "('k \<Rightarrow> 'r \<Rightarrow> store_err + 'v) \<Rightarrow> ('k, 'r) gomap \<Rightarrow> ('k \<rightharpoonup> 'v) \<Rightarrow> bool" where
  "represents scan t m \<longleftrightarrow> gomap_ok t \<and> (\<forall>k. map_option (scan k) (gm_get t k) = map_option Inr (m k))"

lemma represents_row:
  assumes "represents scan t m"
  shows "gm_get t k = Some r \<Longrightarrow> \<exists>v. m k = Some v \<and> scan k r = Inr v"
    and "gm_get t k = None \<longleftrightarrow> m k = None"
proof -
  have *: "map_option (scan k) (gm_get t k) = map_option Inr (m k)" using assms by (simp add: represents_def)
  from * show "gm_get t k = Some r \<Longrightarrow> \<exists>v. m k = Some v \<and> scan k r = Inr v" by (cases "m k") auto
  from * show "gm_get t k = None \<longleftrightarrow> m k = None" by (cases "m k"; cases "gm_get t k") auto
qed

lemma represents_get: "represents scan t m \<Longrightarrow> row_or_none (scan k) (gm_get t k) = found (m k)"
  using represents_row [of scan t m k] by (cases "gm_get t k") (auto simp: row_or_none_def)

lemma represents_del: "represents scan t m \<Longrightarrow> represents scan (gm_del k t) (m(k := None))"
  by (auto simp: represents_def)

lemma represents_upsert:
  assumes R: "represents scan t m" and ex: "scan k ex = Inr v"
    and upd: "\<And>old v'. scan k old = Inr v' \<Longrightarrow> scan k (set_list old ex) = Inr (f v' v)"
  shows "represents scan (upsert k ex set_list t) (m(k \<mapsto> keep f (m k) v))"
proof (cases "gm_get t k")
  case None
  then show ?thesis using R ex represents_row(2) [OF R, of k]
    by (auto simp: represents_def upsert_def keep_def)
next
  case (Some old)
  then obtain v' where "m k = Some v'" "scan k old = Inr v'" using represents_row(1) [OF R] by blast
  with Some upd [of old v'] R show ?thesis by (auto simp: represents_def upsert_def keep_def)
qed

lemma scan_all_Inr: "\<forall>x \<in> set xs. \<exists>v. f x = Inr v \<Longrightarrow> \<exists>vs. scan_all f xs = Inr vs \<and> Inr ` set vs = f ` set xs"
  by (induction xs) force+

lemma represents_list:
  assumes R: "represents scan t m"
    and P: "\<And>k r v. scan k r = Inr v \<Longrightarrow> P k r \<longleftrightarrow> Q v"
  shows "\<exists>vs. scan_all (\<lambda>(k, r). scan k r) (filter (\<lambda>(k, r). P k r) t) = Inr vs \<and> set vs = {v \<in> ran m. Q v}"
proof -
  let ?rows = "filter (\<lambda>(k, r). P k r) t"
  have ok: "gomap_ok t" using R by (simp add: represents_def)
  have row: "(k, r) \<in> set t \<Longrightarrow> \<exists>v. m k = Some v \<and> scan k r = Inr v" for k r
    using represents_row(1) [OF R] gm_get_in_set [OF ok] by blast
  then have "\<forall>x \<in> set ?rows. \<exists>v. (case x of (k, r) \<Rightarrow> scan k r) = Inr v" by force
  then obtain vs where vs: "scan_all (\<lambda>(k, r). scan k r) ?rows = Inr vs"
    "Inr ` set vs = (\<lambda>(k, r). scan k r) ` set ?rows" using scan_all_Inr by meson
  have "v \<in> set vs \<longleftrightarrow> v \<in> ran m \<and> Q v" for v
  proof
    assume "v \<in> set vs"
    then have "Inr v \<in> (\<lambda>(k, r). scan k r) ` set ?rows" using vs(2) by blast
    then obtain k r where "(k, r) \<in> set t" "P k r" "scan k r = Inr v" by force
    with row [of k r] P [of k r v] show "v \<in> ran m \<and> Q v" by (auto simp: ran_def)
  next
    assume v: "v \<in> ran m \<and> Q v"
    then obtain k where k: "m k = Some v" by (auto simp: ran_def)
    then obtain r where r: "gm_get t k = Some r" using represents_row(2) [OF R, of k] by auto
    with represents_row(1) [OF R r] k have s: "scan k r = Inr v" by simp
    with r P [of k r v] v have "(k, r) \<in> set ?rows" using gm_get_in_set [OF ok] by auto
    then have "scan k r \<in> Inr ` set vs" unfolding vs(2) by force
    with s show "v \<in> set vs" by auto
  qed
  with vs(1) show ?thesis by blast
qed


section \<open>The store refines five maps that keep creation times\<close>

text \<open>The times \<^verbatim>\<open>RFC3339Nano\<close> can express, with a year of four digits, are read back as they
  were written, and nothing is written as the empty string.\<close>

definition year10000 :: time where
  "year10000 = 3652059 * 86400 * second"

definition layout_ok :: "time_layout \<Rightarrow> bool" where
  "layout_ok l \<longleftrightarrow> (\<forall>t. 0 < t \<longrightarrow> t < year10000 \<longrightarrow> Format l t \<noteq> [] \<and> Parse l (Format l t) = Some t)"

definition time_ok :: "time \<Rightarrow> bool" where
  "time_ok t \<longleftrightarrow> 0 \<le> t \<and> t < year10000"

lemma parse_format [simp]: "layout_ok l \<Longrightarrow> time_ok t \<Longrightarrow> parseTime l (formatTime l t) = Some t"
  by (auto simp: layout_ok_def time_ok_def parseTime_def formatTime_def)

fun op_times :: "store_op \<Rightarrow> time list" where
  "op_times (OPutDevice d) = [d_CreatedAt d, d_LastSeenAt d]"
| "op_times (OPutSession x) = [s_CreatedAt x, s_LastActiveAt x, s_IdleDeadlineAt x]"
| "op_times (OPutUser u) = [u_CreatedAt u]"
| "op_times (OPutPSKRecord r) = [r_CreatedAt r, r_RevokedAt r]"
| "op_times (OPutPairing p) = [p_CreatedAt p, p_LastUsedAt p]"
| "op_times _ = []"

lemma keep_key [simp]:
  "d_ID (keep (\<lambda>v' v. v\<lparr>d_CreatedAt := d_CreatedAt v'\<rparr>) q1 d) = d_ID d"
  "s_ID (keep (\<lambda>v' v. v\<lparr>s_CreatedAt := s_CreatedAt v'\<rparr>) q2 x) = s_ID x"
  "u_ID (keep (\<lambda>v' v. v\<lparr>u_CreatedAt := u_CreatedAt v'\<rparr>) q3 u) = u_ID u"
  "r_UserID (keep (\<lambda>v' v. v\<lparr>r_CreatedAt := r_CreatedAt v'\<rparr>) q4 r) = r_UserID r"
  "p_UserID (keep (\<lambda>v' v. v\<lparr>p_CreatedAt := p_CreatedAt v'\<rparr>) q5 p) = p_UserID p"
  "p_MobileDeviceID (keep (\<lambda>v' v. v\<lparr>p_CreatedAt := p_CreatedAt v'\<rparr>) q5 p) = p_MobileDeviceID p"
  "p_HostDeviceID (keep (\<lambda>v' v. v\<lparr>p_CreatedAt := p_CreatedAt v'\<rparr>) q5 p) = p_HostDeviceID p"
  by (simp_all add: keep_def split: option.split)

fun kept :: "spec_store \<Rightarrow> store_op \<Rightarrow> store_op" where
  "kept s (OPutDevice d) = OPutDevice (keep (\<lambda>v' v. v\<lparr>d_CreatedAt := d_CreatedAt v'\<rparr>) (sp_devices s (d_ID d)) d)"
| "kept s (OPutSession x) = OPutSession (keep (\<lambda>v' v. v\<lparr>s_CreatedAt := s_CreatedAt v'\<rparr>) (sp_sessions s (s_ID x)) x)"
| "kept s (OPutUser u) = OPutUser (keep (\<lambda>v' v. v\<lparr>u_CreatedAt := u_CreatedAt v'\<rparr>) (sp_users s (u_ID u)) u)"
| "kept s (OPutPSKRecord r) =
     OPutPSKRecord (keep (\<lambda>v' v. v\<lparr>r_CreatedAt := r_CreatedAt v'\<rparr>) (sp_psks s (r_UserID r)) r)"
| "kept s (OPutPairing p) =
     OPutPairing (keep (\<lambda>v' v. v\<lparr>p_CreatedAt := p_CreatedAt v'\<rparr>)
       (sp_pairs s (p_UserID p, p_MobileDeviceID p, p_HostDeviceID p)) p)"
| "kept s q = q"

definition keep_exec :: "spec_store \<Rightarrow> store_op \<Rightarrow> spec_store \<times> store_res" where
  "keep_exec s q = spec_exec s (kept s q)"

fun sq_exec :: "time_layout \<Rightarrow> sql_db \<Rightarrow> store_op \<Rightarrow> sql_db \<times> store_res" where
  "sq_exec l s (OPutDevice d) = updated s (sq_PutDevice l False s d)"
| "sq_exec l s (OGetDevice i) = answered s RDevice (sq_GetDevice l False s i)"
| "sq_exec l s (OListDevicesByOwner u) = answered s (RDevices \<circ> set) (sq_ListDevicesByOwner l False s u)"
| "sq_exec l s (ODeleteDevice i) = updated s (sq_DeleteDevice False s i)"
| "sq_exec l s (OPutSession x) = updated s (sq_PutSession l False s x)"
| "sq_exec l s (OGetSession i) = answered s RSession (sq_GetSession l False s i)"
| "sq_exec l s (ODeleteSession i) = updated s (sq_DeleteSession False s i)"
| "sq_exec l s (OPutUser u) = updated s (sq_PutUser l False s u)"
| "sq_exec l s (OGetUser i) = answered s RUser (sq_GetUser l False s i)"
| "sq_exec l s (OPutPSKRecord r) = updated s (sq_PutPSKRecord l False s r)"
| "sq_exec l s (OGetPSKRecord u) = answered s RPSK (sq_GetPSKRecord l False s u)"
| "sq_exec l s OListPSKRecords = answered s (RPSKs \<circ> set) (sq_ListPSKRecords l False s)"
| "sq_exec l s (ODeletePSKRecord u) = updated s (sq_DeletePSKRecord False s u)"
| "sq_exec l s (OPutPairing p) = updated s (sq_PutPairing l False s p)"
| "sq_exec l s (OGetPairing k) = answered s RPairing (case k of (u, m, h) \<Rightarrow> sq_GetPairing l False s u m h)"
| "sq_exec l s (OListPairingsByUser u) = answered s (RPairings \<circ> set) (sq_ListPairingsByUser l False s u)"
| "sq_exec l s (ODeletePairing k) = updated s (case k of (u, m, h) \<Rightarrow> sq_DeletePairing False s u m h)"

definition db_sim :: "time_layout \<Rightarrow> sql_db \<Rightarrow> spec_store \<Rightarrow> bool" where
  "db_sim l s a \<longleftrightarrow> represents (scanDevice l) (t_devices s) (sp_devices a)
     \<and> represents (scanSession l) (t_sessions s) (sp_sessions a)
     \<and> represents (scanUser l) (t_users s) (sp_users a)
     \<and> represents (scanPSKRecord l) (t_psk_records s) (sp_psks a)
     \<and> represents (scanPairing l) (t_pairings s) (sp_pairs a)"

lemmas sq_defs = sq_PutDevice_def sq_GetDevice_def sq_ListDevicesByOwner_def sq_DeleteDevice_def
  sq_PutSession_def sq_GetSession_def sq_DeleteSession_def sq_PutUser_def sq_GetUser_def
  sq_PutPSKRecord_def sq_GetPSKRecord_def sq_ListPSKRecords_def sq_DeletePSKRecord_def
  sq_PutPairing_def sq_GetPairing_def sq_ListPairingsByUser_def sq_DeletePairing_def

lemmas scan_defs = scanDevice_def scanSession_def scanUser_def scanPSKRecord_def scanPairing_def

lemma scan_owner:
  "scanDevice l i r = Inr d \<Longrightarrow> dr_owner_user_id r = u \<longleftrightarrow> d_OwnerUserID d = u"
  "scanPairing l k w = Inr p \<Longrightarrow> fst k = u \<longleftrightarrow> p_UserID p = u"
  by (auto simp: scan_defs split: option.splits)

lemma list_devices:
  assumes "represents (scanDevice l) t m"
  shows "\<exists>vs. scan_all (\<lambda>(i, r). scanDevice l i r) (filter (\<lambda>(i, r). dr_owner_user_id r = u) t) = Inr vs
           \<and> set vs = {d \<in> ran m. d_OwnerUserID d = u}"
  by (rule represents_list [OF assms]) (rule scan_owner(1))

lemma list_pairings:
  assumes "represents (scanPairing l) t m"
  shows "\<exists>vs. scan_all (\<lambda>(k, r). scanPairing l k r) (filter (\<lambda>(k, r). fst k = u) t) = Inr vs
           \<and> set vs = {p \<in> ran m. p_UserID p = u}"
  by (rule represents_list [OF assms]) (rule scan_owner(2))

lemma sq_exec_sim:
  assumes "layout_ok l" and "db_sim l s a" and "\<forall>t \<in> set (op_times q). time_ok t"
  shows "snd (sq_exec l s q) = snd (keep_exec a q) \<and> db_sim l (fst (sq_exec l s q)) (fst (keep_exec a q))"
proof -
  note R = assms(2) [unfolded db_sim_def]
  note simps = sq_defs keep_exec_def updated_def answered_def looked_def removed_def db_sim_def
  show ?thesis
  proof (cases q)
    case (OPutDevice d)
    then show ?thesis using R assms
      by (simp add: simps) (rule represents_upsert; auto simp: scan_defs split: option.splits)
  next
    case (OPutSession x)
    then show ?thesis using R assms
      by (simp add: simps) (rule represents_upsert; auto simp: scan_defs split: option.splits)
  next
    case (OPutUser u)
    then show ?thesis using R assms
      by (simp add: simps) (rule represents_upsert; auto simp: scan_defs split: option.splits)
  next
    case (OPutPSKRecord r)
    then show ?thesis using R assms
      by (simp add: simps) (rule represents_upsert; auto simp: scan_defs split: option.splits)
  next
    case (OPutPairing p)
    then show ?thesis using R assms
      by (simp add: simps) (rule represents_upsert; auto simp: scan_defs split: option.splits)
  next
    case (OListDevicesByOwner u)
    then show ?thesis
      using R list_devices [of l "t_devices s" "sp_devices a" u]
      by (auto simp: simps)
  next
    case OListPSKRecords
    then show ?thesis
      using R represents_list [of "scanPSKRecord l" "t_psk_records s" "sp_psks a" "\<lambda>i r. True" "\<lambda>r. True"]
      by (auto simp: simps)
  next
    case (OListPairingsByUser u)
    then show ?thesis
      using R list_pairings [of l "t_pairings s" "sp_pairs a" u]
      by (auto simp: simps)
  qed (use R in \<open>auto simp: simps represents_get found_def represents_del represents_row(2) fun_upd_idem
         dest: represents_row(1) split: option.splits\<close>)
qed


lemma sq_run_sim:
  assumes "layout_ok l" and "db_sim l s a" and "\<forall>q \<in> set qs. \<forall>t \<in> set (op_times q). time_ok t"
  shows "store_run (sq_exec l) s qs = store_run keep_exec a qs"
  using assms
proof (induction qs arbitrary: s a)
  case (Cons q qs)
  then show ?case
    using sq_exec_sim [OF Cons.prems(1,2), of q]
    by (cases "sq_exec l s q"; cases "keep_exec a q") simp
qed simp

text \<open>C19: On every sequence of calls whose statements succeed, the SQL store answers exactly as five
  maps in which a put keeps the creation time of the record it replaces. It therefore differs
  from the memory store in the creation time only.\<close>

theorem sqlite_refines_keeping_maps:
  assumes "layout_ok l" and "\<forall>q \<in> set qs. \<forall>t \<in> set (op_times q). time_ok t"
  shows "store_run (sq_exec l) empty_db qs
     = store_run keep_exec \<lparr>sp_devices = Map.empty, sp_sessions = Map.empty, sp_users = Map.empty,
         sp_psks = Map.empty, sp_pairs = Map.empty\<rparr> qs"
  by (rule sq_run_sim [OF assms(1) _ assms(2)]) (simp add: db_sim_def represents_def empty_db_def)

definition demo_layout :: time_layout where
  "demo_layout = \<lparr>Format = (\<lambda>t. replicate (nat t) CHR ''x''), Parse = (\<lambda>s. Some (int (length s)))\<rparr>"

lemma layout_ok_demo: "layout_ok demo_layout"
  by (simp add: layout_ok_def demo_layout_def)

theorem sqlite_refines_keeping_maps_witness:
  "store_run (sq_exec demo_layout) empty_db
     [OPutUser \<lparr>u_ID = ''a'', u_AuthProvider = AuthProviderPSK, u_CreatedAt = 5\<rparr>,
      OPutUser \<lparr>u_ID = ''a'', u_AuthProvider = AuthProviderFirebase, u_CreatedAt = 9\<rparr>, OGetUser ''a'', OGetUser ''b'']
   = [RDone, RDone, RUser \<lparr>u_ID = ''a'', u_AuthProvider = AuthProviderFirebase, u_CreatedAt = 5\<rparr>, RErr ErrNotFound]"
  by (subst sqlite_refines_keeping_maps [OF layout_ok_demo])
     (simp_all add: time_ok_def year10000_def second_def keep_exec_def keep_def looked_def)


section \<open>Migrations\<close>

text \<open>\<^verbatim>\<open>strconv.Atoi\<close> on a string of digits: an error when the value does not fit an \<^verbatim>\<open>int\<close>.\<close>

definition is_digit :: "char \<Rightarrow> bool" where
  "is_digit c \<longleftrightarrow> 48 \<le> (of_char c :: nat) \<and> (of_char c :: nat) \<le> 57"

definition Atoi_digits :: "string \<Rightarrow> int option" where
  "Atoi_digits s =
     (let v = foldl (\<lambda>v c. 10 * v + (int (of_char c) - 48)) 0 s in if v < 2 ^ 63 then Some v else None)"

datatype mig_err = MissingVersion string | BadVersion string | Malformed string | EnsureTable | ReadVersions
  | ReadBody string | ApplyError string | RecordError string

definition parseMigrationVersion :: "string \<Rightarrow> mig_err + int" where
  "parseMigrationVersion name =
     (let ds = takeWhile is_digit name
      in if length ds = length name then Inl (Malformed name)
         else if ds = [] then Inl (MissingVersion name)
         else (case Atoi_digits ds of None \<Rightarrow> Inl (BadVersion name) | Some v \<Rightarrow> Inr v))"

text \<open>A file of the embedded directory: its name, whether it is a directory, and its body unless
  reading it fails.\<close>

record mig_file =
  mf_name :: string
  mf_isDir :: bool
  mf_body :: "string option"

record migration =
  mg_version :: int
  mg_name :: string
  mg_body :: string

record 's mig_db =
  content :: 's
  versions :: "int list"

fun pending_of :: "int list \<Rightarrow> mig_file list \<Rightarrow> mig_err + migration list" where
  "pending_of applied [] = Inr []"
| "pending_of applied (e # es) =
     (if mf_isDir e \<or> \<not> HasSuffix (mf_name e) ''.sql'' then pending_of applied es
      else
        (case parseMigrationVersion (mf_name e) of
           Inl err \<Rightarrow> Inl err
         | Inr v \<Rightarrow>
            if v \<in> set applied then pending_of applied es
            else
              (case mf_body e of
                 None \<Rightarrow> Inl (ReadBody (mf_name e))
               | Some b \<Rightarrow>
                  (case pending_of applied es of
                     Inl err \<Rightarrow> Inl err
                   | Inr ps \<Rightarrow> Inr (\<lparr>mg_version = v, mg_name = mf_name e, mg_body = b\<rparr> # ps)))))"

text \<open>Each body is executed and its version recorded; a version already in the table violates
  its primary key. A script that fails may have executed some of its statements.\<close>

fun apply_pending ::
  "('s \<Rightarrow> string \<Rightarrow> 's \<times> bool) \<Rightarrow> (int \<Rightarrow> bool) \<Rightarrow> 's mig_db \<Rightarrow> migration list \<Rightarrow> 's mig_db \<times> mig_err option" where
  "apply_pending exec insfail db [] = (db, None)"
| "apply_pending exec insfail db (m # ms) =
     (case exec (content db) (mg_body m) of
        (c, False) \<Rightarrow> (db\<lparr>content := c\<rparr>, Some (ApplyError (mg_name m)))
      | (c, True) \<Rightarrow>
          if insfail (mg_version m) \<or> mg_version m \<in> set (versions db)
          then (db\<lparr>content := c\<rparr>, Some (RecordError (mg_name m)))
          else apply_pending exec insfail \<lparr>content = c, versions = versions db @ [mg_version m]\<rparr> ms)"

definition runMigrations ::
  "('s \<Rightarrow> string \<Rightarrow> 's \<times> bool) \<Rightarrow> (int \<Rightarrow> bool) \<Rightarrow> mig_err option \<Rightarrow> mig_file list \<Rightarrow> 's mig_db
     \<Rightarrow> 's mig_db \<times> mig_err option" where
  "runMigrations exec insfail pre files db =
     (case pre of
        Some e \<Rightarrow> (db, Some e)
      | None \<Rightarrow>
         (case pending_of (versions db) files of
            Inl e \<Rightarrow> (db, Some e)
          | Inr ps \<Rightarrow> apply_pending exec insfail db (sort_key mg_version ps)))"

fun replay :: "('s \<Rightarrow> string \<Rightarrow> 's \<times> bool) \<Rightarrow> 's \<Rightarrow> string list \<Rightarrow> 's option" where
  "replay exec c [] = Some c"
| "replay exec c (b # bs) = (case exec c b of (c', good) \<Rightarrow> if good then replay exec c' bs else None)"

lemma apply_pending_complete:
  assumes "apply_pending exec insfail db ms = (db', None)"
  shows "versions db' = versions db @ map mg_version ms
     \<and> replay exec (content db) (map mg_body ms) = Some (content db')
     \<and> distinct (map mg_version ms) \<and> set (map mg_version ms) \<inter> set (versions db) = {}"
  using assms
proof (induction ms arbitrary: db)
  case (Cons m ms)
  obtain c where c: "exec (content db) (mg_body m) = (c, True)" and n: "mg_version m \<notin> set (versions db)"
    and r: "apply_pending exec insfail \<lparr>content = c, versions = versions db @ [mg_version m]\<rparr> ms = (db', None)"
    using Cons.prems by (auto split: prod.splits bool.splits if_splits)
  from Cons.IH [OF r] c n show ?case by auto
qed simp

lemma map_insort_key: "map f (insort_key f x xs) = insort (f x) (map f xs)"
  by (induction xs) auto

lemma map_sort_key: "map f (sort_key f xs) = sort (map f xs)"
  by (induction xs) (simp_all add: map_insort_key)

lemma pending_of_known:
  assumes "pending_of applied es = Inr ps" and "set applied \<union> mg_version ` set ps \<subseteq> set applied'"
  shows "pending_of applied' es = Inr []"
  using assms
proof (induction es arbitrary: ps)
  case (Cons e es)
  then show ?case by (auto split: if_splits sum.splits option.splits)
qed simp

text \<open>When \<^verbatim>\<open>runMigrations\<close> succeeds, every migration not yet recorded has been executed exactly
  once, in the order of the version numbers, and is recorded; running it again, after a restart,
  executes nothing.\<close>

theorem migrations_applied_once:
  assumes "runMigrations exec insfail None files db = (db', None)"
  shows "\<exists>ps. pending_of (versions db) files = Inr ps
     \<and> versions db' = versions db @ sort (map mg_version ps) \<and> distinct (map mg_version ps)
     \<and> replay exec (content db) (map mg_body (sort_key mg_version ps)) = Some (content db')
     \<and> runMigrations exec' insfail' None files db' = (db', None)"
proof -
  obtain ps where ps: "pending_of (versions db) files = Inr ps"
    and a: "apply_pending exec insfail db (sort_key mg_version ps) = (db', None)"
    using assms by (auto simp: runMigrations_def split: sum.splits)
  note c = apply_pending_complete [OF a]
  have s: "map mg_version (sort_key mg_version ps) = sort (map mg_version ps)"
    by (rule map_sort_key)
  have "pending_of (versions db') files = Inr []"
    by (rule pending_of_known [OF ps]) (use c in auto)
  moreover have "distinct (map mg_version ps)" using c s by (metis distinct_sort)
  ultimately show ?thesis using ps c s by (simp add: runMigrations_def)
qed

definition demo_files :: "mig_file list" where
  "demo_files = [\<lparr>mf_name = ''2_b.sql'', mf_isDir = False, mf_body = Some ''B''\<rparr>,
     \<lparr>mf_name = ''README'', mf_isDir = False, mf_body = None\<rparr>, \<lparr>mf_name = ''1_a.sql'', mf_isDir = False, mf_body = Some ''A''\<rparr>]"

definition demo_exec :: "string \<Rightarrow> string \<Rightarrow> string \<times> bool" where
  "demo_exec c b = (c @ b, True)"

theorem migrations_applied_once_witness:
  "\<exists>ps. pending_of [] demo_files = Inr ps \<and> [1, 2] = sort (map mg_version ps)
     \<and> replay demo_exec [] (map mg_body (sort_key mg_version ps)) = Some ''AB''"
proof -
  have "runMigrations demo_exec (\<lambda>v. False) None demo_files \<lparr>content = [], versions = []\<rparr>
      = (\<lparr>content = ''AB'', versions = [1, 2]\<rparr>, None)"
    by code_simp
  from migrations_applied_once [OF this, of demo_exec "\<lambda>v. False"] show ?thesis by auto
qed

end
