(* ===== verification/Signaling_Main.thy ===== *)
theory Signaling_Main
  imports Config Admin Sqlite Ratelimit
begin

text \<open>
  \<^verbatim>\<open>server/cmd/peersh-signaling\<close>: the command line of the signaling server, its start-up from a
  configuration, the keys it seeds, and the HTTP handlers around the WebSocket endpoint. Flags
  arrive parsed; opening a store, the Firebase SDK and the HTTP server are arguments.
\<close>

datatype main_cmd = CmdServe "string list" | CmdPSK "string list" | CmdUsage nat | CmdVersion

definition main_dispatch :: "string list \<Rightarrow> main_cmd" where
  "main_dispatch argv =
     (case argv of
        [] \<Rightarrow> CmdUsage 2
      | [_] \<Rightarrow> CmdUsage 2
      | _ # cmd # args \<Rightarrow>
          if cmd = ''serve'' then CmdServe args
          else if cmd = ''psk'' then CmdPSK args
          else if cmd \<in> {''-h'', ''--help'', ''help''} then CmdUsage 0
          else if cmd \<in> {''version'', ''-v'', ''--version''} then CmdVersion
          else CmdUsage 2)"

section \<open>HTTP handlers\<close>

datatype http_answer = HttpNotFound | HttpUnauthorized | HttpMethodNotAllowed | HttpInner
  | HttpHeadOK | HttpInternalError | HttpBody string

definition metricsHandler :: "string \<Rightarrow> string \<Rightarrow> http_answer" where
  "metricsHandler token got =
     (if token = [] then HttpNotFound
      else
        let prefix = ''Bearer ''
        in if \<not> HasPrefix got prefix then HttpUnauthorized
           else
             let supplied = drop (length prefix) got
             in if supplied \<noteq> token then HttpUnauthorized else HttpInner)"

definition DiscoveryHandler :: "('d \<Rightarrow> string option) \<Rightarrow> 'd \<Rightarrow> string \<Rightarrow> http_answer" where
  "DiscoveryHandler marshal cfg meth =
     (if meth \<noteq> ''GET'' \<and> meth \<noteq> ''HEAD'' then HttpMethodNotAllowed
      else if meth = ''HEAD'' then HttpHeadOK
      else (case marshal cfg of None \<Rightarrow> HttpInternalError | Some body \<Rightarrow> HttpBody (body @ [CHR 0x0A])))"

section \<open>Bootstrap keys\<close>

text \<open>The loop over the configured keys, on any store.\<close>

fun apply_entries ::
  "('s \<Rightarrow> string \<Rightarrow> store_err + User) \<Rightarrow> ('s \<Rightarrow> User \<Rightarrow> store_err + 's) \<Rightarrow> ('s \<Rightarrow> PSKRecord \<Rightarrow> store_err + 's)
     \<Rightarrow> time \<Rightarrow> 's \<Rightarrow> BootstrapPSK list \<Rightarrow> 's \<times> store_err option" where
  "apply_entries getUser putUser putPSK now s [] = (s, None)"
| "apply_entries getUser putUser putPSK now s (e # es) =
     (case hex_decode (b_SecretHex e) of
        None \<Rightarrow> apply_entries getUser putUser putPSK now s es
      | Some secret \<Rightarrow>
         (case (case getUser s (b_UserID e) of
                  Inl _ \<Rightarrow> putUser s \<lparr>u_ID = b_UserID e, u_AuthProvider = AuthProviderPSK, u_CreatedAt = now\<rparr>
                | Inr _ \<Rightarrow> Inr s) of
            Inl err \<Rightarrow> (s, Some err)
          | Inr s1 \<Rightarrow>
             (case putPSK s1 \<lparr>r_UserID = b_UserID e, r_Secret = secret, r_DisplayLabel = b_Label e,
                              r_CreatedAt = now, r_RevokedAt = 0\<rparr> of
                Inl err \<Rightarrow> (s1, Some err)
              | Inr s2 \<Rightarrow> apply_entries getUser putUser putPSK now s2 es)))"

definition applyBootstrapPSKs ::
  "('s \<Rightarrow> string \<Rightarrow> store_err + User) \<Rightarrow> ('s \<Rightarrow> User \<Rightarrow> store_err + 's) \<Rightarrow> ('s \<Rightarrow> PSKRecord \<Rightarrow> store_err + 's)
     \<Rightarrow> time \<Rightarrow> 's \<Rightarrow> BootstrapPSK list \<Rightarrow> 's \<times> store_err option" where
  "applyBootstrapPSKs getUser putUser putPSK now s entries =
     (if entries = [] then (s, None) else apply_entries getUser putUser putPSK now s entries)"

section \<open>Starting the server\<close>

datatype provider = PskProvider psk_Provider | FirebaseProvider

datatype serve_err = ConfigErr config_err | OpenStoreErr string | BootstrapErr store_err | BuildAuthErr string
  | AppCheckErr string | MetricsErr | HttpErr string | NoTLS

datatype backend = SqliteBackend string | FirestoreBackend string string

definition openStore :: "Config \<Rightarrow> string + backend" where
  "openStore cfg =
     (if StoreBackend cfg = ''sqlite'' then Inr (SqliteBackend (DBPath cfg))
      else if StoreBackend cfg = ''firestore''
      then Inr (FirestoreBackend (ProjectID (Firebase cfg)) (CredentialsPath (Firebase cfg)))
      else Inl ''config: unknown store_backend'')"

definition buildAuth :: "string option \<Rightarrow> Config \<Rightarrow> string + (provider \<times> AuthProvider)" where
  "buildAuth newFirebase cfg =
     (if cfg_AuthProvider cfg = ''psk''
      then Inr (PskProvider (psk_New\<lparr>ClockSkew := Skew (Clock cfg),
                                    Nonces := NewMemoryNonceCache (NonceWindow (Clock cfg))\<rparr>), AuthProviderPSK)
      else if cfg_AuthProvider cfg = ''firebase''
      then (case newFirebase of Some e \<Rightarrow> Inl e | None \<Rightarrow> Inr (FirebaseProvider, AuthProviderFirebase))
      else Inl ''config: unknown auth_provider'')"

text \<open>Whether there is an App Check verifier; \<open>newApp\<close> is the error of the SDK.\<close>

definition buildAppCheck :: "string option \<Rightarrow> Config \<Rightarrow> string + bool" where
  "buildAppCheck newApp cfg =
     (if cfg_AuthProvider cfg \<noteq> ''firebase'' then Inr False
      else if ProjectID (Firebase cfg) = [] then Inr False
      else (case newApp of Some e \<Rightarrow> Inl e | None \<Rightarrow> Inr True))"

definition fbAppOptions :: "string \<Rightarrow> string list" where
  "fbAppOptions credsPath = (if credsPath = [] then [] else [credsPath])"

datatype listen_mode = PlainHTTP string | HTTPS string string string

definition listen_choice :: "Config \<Rightarrow> bool \<Rightarrow> serve_err + listen_mode" where
  "listen_choice cfg insecureHTTP =
     (if Insecure (TLS cfg)
      then if \<not> insecureHTTP then Inl NoTLS else Inr (PlainHTTP (ListenAddr cfg))
      else Inr (HTTPS (ListenAddr cfg) (CertFile (TLS cfg)) (KeyFile (TLS cfg))))"

record serve_env =
  se_open :: "backend \<Rightarrow> string + sql_db"
  se_firebase :: "string option"
  se_app :: "string option"
  se_metrics :: bool
  se_serve :: "listen_mode \<Rightarrow> string option"

record 'd started =
  st_db :: sql_db
  st_provider :: provider
  st_kind :: AuthProvider
  st_appCheck :: bool
  st_appCheckRequired :: bool
  st_IPLimit :: Bucket
  st_UserLimit :: Bucket
  st_DeviceLimit :: Bucket
  st_idle :: duration
  st_metricsToken :: string
  st_discovery :: 'd
  st_listen :: listen_mode

definition prepare ::
  "time_layout \<Rightarrow> serve_env \<Rightarrow> time \<Rightarrow> bool \<Rightarrow> Config \<Rightarrow> serve_err + (nat \<times> string \<times> string list \<times> string list) started" where
  "prepare l os now insecureHTTP cfg =
     (case openStore cfg of
        Inl e \<Rightarrow> Inl (OpenStoreErr e)
      | Inr bk \<Rightarrow>
     (case se_open os bk of
        Inl e \<Rightarrow> Inl (OpenStoreErr e)
      | Inr db \<Rightarrow>
     (case applyBootstrapPSKs (sq_GetUser l False) (sq_PutUser l False) (sq_PutPSKRecord l False) now db (BootstrapPSKs cfg) of
        (db', Some e) \<Rightarrow> Inl (BootstrapErr e)
      | (db', None) \<Rightarrow>
     (case buildAuth (se_firebase os) cfg of
        Inl e \<Rightarrow> Inl (BuildAuthErr e)
      | Inr (p, k) \<Rightarrow>
     (case buildAppCheck (se_app os) cfg of
        Inl e \<Rightarrow> Inl (AppCheckErr e)
      | Inr ac \<Rightarrow>
         if \<not> se_metrics os then Inl MetricsErr
         else
          (case listen_choice cfg insecureHTTP of
             Inl e \<Rightarrow> Inl e
           | Inr lm \<Rightarrow>
              Inr \<lparr>st_db = db', st_provider = p, st_kind = k, st_appCheck = ac,
                   st_appCheckRequired = AppCheckRequired (Firebase cfg),
                   st_IPLimit = bucket_New (PerSecond (IPPerMinute (RateLimit cfg))) (IPBurst (RateLimit cfg)),
                   st_UserLimit = bucket_New (PerSecond (UserPerMinute (RateLimit cfg))) (UserBurst (RateLimit cfg)),
                   st_DeviceLimit = bucket_New (PerSecond (DevicePerMinute (RateLimit cfg))) (DeviceBurst (RateLimit cfg)),
                   st_idle = cfg_IdleTimeout cfg, st_metricsToken = MetricsToken cfg,
                   st_discovery = (1, WSURL (Discovery cfg), STUNServers (Discovery cfg), [cfg_AuthProvider cfg]),
                   st_listen = lm\<rparr>))))))"

text \<open>\<^verbatim>\<open>runServe\<close>: the server runs until it fails or, with \<open>stopped\<close>, until a signal; the two ways
  it ends without an error are the signal and \<^verbatim>\<open>http.ErrServerClosed\<close>, which \<open>se_serve\<close> reports
  as no error.\<close>

definition runServe ::
  "(config_err + Config) \<Rightarrow> time_layout \<Rightarrow> serve_env \<Rightarrow> time \<Rightarrow> bool \<Rightarrow> bool \<Rightarrow> serve_err option" where
  "runServe loaded l os now insecureHTTP stopped =
     (case loaded of
        Inl e \<Rightarrow> Some (ConfigErr e)
      | Inr cfg \<Rightarrow>
         (case prepare l os now insecureHTTP cfg of
            Inl e \<Rightarrow> if e = NoTLS \<and> stopped then None else Some e
          | Inr st \<Rightarrow>
             if stopped then None
             else (case se_serve os (st_listen st) of None \<Rightarrow> None | Some e \<Rightarrow> Some (HttpErr e))))"

section \<open>The psk commands\<close>

datatype psk_err = PskUsage | UnknownPskCommand string | UserRequired | PskConfig config_err | PskOpen string
  | PskAdmin admin_err | PskStore store_err

datatype psk_cmd = PskAdd "string list" | PskList "string list" | PskRevoke "string list"

definition runPSK :: "string list \<Rightarrow> psk_err + psk_cmd" where
  "runPSK args =
     (case args of
        [] \<Rightarrow> Inl PskUsage
      | cmd # rest \<Rightarrow>
          if cmd = ''add'' then Inr (PskAdd rest)
          else if cmd = ''list'' then Inr (PskList rest)
          else if cmd = ''revoke'' then Inr (PskRevoke rest)
          else Inl (UnknownPskCommand cmd))"

definition runPSKAdd ::
  "time_layout \<Rightarrow> (config_err + Config) \<Rightarrow> (string \<Rightarrow> string + sql_db) \<Rightarrow> bytes option \<Rightarrow> time \<Rightarrow> string \<Rightarrow> string
     \<Rightarrow> psk_err + (sql_db \<times> AddResult)" where
  "runPSKAdd l loaded open_db rnd now user label =
     (if user = [] then Inl UserRequired
      else
       (case loaded of
          Inl e \<Rightarrow> Inl (PskConfig e)
        | Inr cfg \<Rightarrow>
           (case open_db (DBPath cfg) of
              Inl e \<Rightarrow> Inl (PskOpen e)
            | Inr db \<Rightarrow>
               (case AddPSK (sq_GetPSKRecord l False) (sq_PutPSKRecord l False) (sq_GetUser l False)
                       (sq_PutUser l False) rnd now db user label of
                  (db', Inl e) \<Rightarrow> Inl (PskAdmin e)
                | (db', Inr res) \<Rightarrow> Inr (db', res)))))"

text \<open>The lines of the listing: user, label, creation time and revocation time, with a dash for
  an empty label or a key that is not revoked.\<close>

definition psk_line :: "(time \<Rightarrow> string) \<Rightarrow> string \<Rightarrow> PSKRecord \<Rightarrow> string list" where
  "psk_line rfc3339 dash r =
     [r_UserID r, if r_DisplayLabel r = [] then dash else r_DisplayLabel r, rfc3339 (r_CreatedAt r),
      if IsRevoked r then rfc3339 (r_RevokedAt r) else dash]"

definition runPSKList ::
  "time_layout \<Rightarrow> (time \<Rightarrow> string) \<Rightarrow> string \<Rightarrow> (config_err + Config) \<Rightarrow> (string \<Rightarrow> string + sql_db)
     \<Rightarrow> psk_err + string list list" where
  "runPSKList l rfc3339 dash loaded open_db =
     (case loaded of
        Inl e \<Rightarrow> Inl (PskConfig e)
      | Inr cfg \<Rightarrow>
         (case open_db (DBPath cfg) of
            Inl e \<Rightarrow> Inl (PskOpen e)
          | Inr db \<Rightarrow>
             (case ListPSKs (sq_ListPSKRecords l False) db of
                Inl e \<Rightarrow> Inl (PskStore e)
              | Inr rs \<Rightarrow> Inr ([''USER'', ''LABEL'', ''CREATED'', ''REVOKED''] # map (psk_line rfc3339 dash) rs))))"

definition runPSKRevoke ::
  "time_layout \<Rightarrow> (config_err + Config) \<Rightarrow> (string \<Rightarrow> string + sql_db) \<Rightarrow> time \<Rightarrow> string \<Rightarrow> psk_err + sql_db" where
  "runPSKRevoke l loaded open_db now user =
     (if user = [] then Inl UserRequired
      else
       (case loaded of
          Inl e \<Rightarrow> Inl (PskConfig e)
        | Inr cfg \<Rightarrow>
           (case open_db (DBPath cfg) of
              Inl e \<Rightarrow> Inl (PskOpen e)
            | Inr db \<Rightarrow>
               (case RevokePSK (sq_GetPSKRecord l False) (sq_PutPSKRecord l False) now db user of
                  (db', Some e) \<Rightarrow> Inl (PskAdmin e)
                | (db', None) \<Rightarrow> Inr db'))))"


section \<open>Seeding keys over any store\<close>

text \<open>What a put of a key promises, whether or not the store keeps the creation time of the
  record it replaces; \<open>tok\<close> are the times the store can write.\<close>

locale psk_upsert =
  fixes getPSK :: "'s \<Rightarrow> string \<Rightarrow> store_err + PSKRecord"
    and putPSK :: "'s \<Rightarrow> PSKRecord \<Rightarrow> store_err + 's"
    and getUser :: "'s \<Rightarrow> string \<Rightarrow> store_err + User"
    and putUser :: "'s \<Rightarrow> User \<Rightarrow> store_err + 's"
    and ok :: "'s \<Rightarrow> bool"
    and tok :: "time \<Rightarrow> bool"
  assumes put_key: "ok s \<Longrightarrow> tok (r_CreatedAt r) \<Longrightarrow> tok (r_RevokedAt r) \<Longrightarrow>
        \<exists>s' c. putPSK s r = Inr s' \<and> ok s'
          \<and> (\<forall>u. getPSK s' u = (if u = r_UserID r then Inr (r\<lparr>r_CreatedAt := c\<rparr>) else getPSK s u))"
    and put_user: "ok s \<Longrightarrow> tok (u_CreatedAt v) \<Longrightarrow>
        \<exists>s'. putUser s v = Inr s' \<and> ok s' \<and> (\<forall>u. getPSK s' u = getPSK s u)"
    and tok_zero: "tok 0"
begin

text \<open>The last usable entry of a user decides; without one the key stays as it is.\<close>

definition last_entry :: "string \<Rightarrow> BootstrapPSK list \<Rightarrow> (bytes \<times> string) option \<Rightarrow> (bytes \<times> string) option" where
  "last_entry u es d = foldl (\<lambda>a e. if b_UserID e = u \<and> hex_decode (b_SecretHex e) \<noteq> None
      then Some (the (hex_decode (b_SecretHex e)), b_Label e) else a) d es"

definition seeded :: "'s \<Rightarrow> 's \<Rightarrow> string \<Rightarrow> (bytes \<times> string) option \<Rightarrow> bool" where
  "seeded s s' u d \<longleftrightarrow> (case d of None \<Rightarrow> getPSK s' u = getPSK s u
     | Some (secret, label) \<Rightarrow> \<exists>c. getPSK s' u = Inr \<lparr>r_UserID = u, r_Secret = secret, r_DisplayLabel = label,
                                        r_CreatedAt = c, r_RevokedAt = 0\<rparr>)"

lemma entry_step:
  assumes "ok s" "tok now" "hex_decode (b_SecretHex e) = Some secret"
  shows "\<exists>s2. ok s2 \<and> apply_entries getUser putUser putPSK now s (e # es) = apply_entries getUser putUser putPSK now s2 es
    \<and> (\<forall>u. seeded s s2 u (if u = b_UserID e then Some (secret, b_Label e) else None))"
proof -
  let ?v = "\<lparr>u_ID = b_UserID e, u_AuthProvider = AuthProviderPSK, u_CreatedAt = now\<rparr>"
  let ?r = "\<lparr>r_UserID = b_UserID e, r_Secret = secret, r_DisplayLabel = b_Label e, r_CreatedAt = now, r_RevokedAt = 0\<rparr>"
  obtain s1 where s1: "(case getUser s (b_UserID e) of Inl _ \<Rightarrow> putUser s ?v | Inr _ \<Rightarrow> Inr s) = Inr s1"
    and o1: "ok s1" and g1: "\<forall>u. getPSK s1 u = getPSK s u"
    using put_user [of s ?v] assms by (cases "getUser s (b_UserID e)") auto
  obtain s2 c where s2: "putPSK s1 ?r = Inr s2" and o2: "ok s2"
    and g2: "\<forall>u. getPSK s2 u = (if u = b_UserID e then Inr (?r\<lparr>r_CreatedAt := c\<rparr>) else getPSK s1 u)"
    using put_key [OF o1, of ?r] assms tok_zero by auto
  have "apply_entries getUser putUser putPSK now s (e # es) = apply_entries getUser putUser putPSK now s2 es"
    by (simp add: assms(3) s1 s2)
  moreover have "\<forall>u. seeded s s2 u (if u = b_UserID e then Some (secret, b_Label e) else None)"
    using g1 g2 by (auto simp: seeded_def)
  ultimately show ?thesis using o2 by blast
qed

lemma apply_entries_seeds:
  assumes "ok s" "tok now"
  shows "\<exists>s'. apply_entries getUser putUser putPSK now s es = (s', None) \<and> ok s'
    \<and> (\<forall>u. seeded s s' u (last_entry u es None))"
proof -
  have "\<exists>s'. apply_entries getUser putUser putPSK now s es = (s', None) \<and> ok s'
    \<and> (\<forall>u. seeded s0 s' u (last_entry u es (d u)))" if "ok s" "\<forall>u. seeded s0 s u (d u)" for d s s0
    using that
  proof (induction es arbitrary: s d)
    case Nil
    then show ?case by (simp add: last_entry_def)
  next
    case (Cons e es)
    show ?case
    proof (cases "hex_decode (b_SecretHex e)")
      case None
      then show ?thesis using Cons.IH [OF Cons.prems] by (simp add: last_entry_def)
    next
      case (Some secret)
      obtain s2 where s2: "ok s2" "apply_entries getUser putUser putPSK now s (e # es) = apply_entries getUser putUser putPSK now s2 es"
        "\<forall>u. seeded s s2 u (if u = b_UserID e then Some (secret, b_Label e) else None)"
        using entry_step [OF Cons.prems(1) assms(2) Some] by blast
      let ?d = "\<lambda>u. if u = b_UserID e then Some (secret, b_Label e) else d u"
      have "seeded s0 s2 u (?d u)" for u
        using s2(3) [rule_format, of u] Cons.prems(2) [rule_format, of u]
        by (auto simp: seeded_def split: if_splits option.splits)
      then have "\<forall>u. seeded s0 s2 u (?d u)" by blast
      from Cons.IH [OF s2(1) this] s2(2) Some show ?thesis
        by (simp add: last_entry_def eq_commute [of "b_UserID e"] cong: if_cong)
    qed
  qed
  from this [OF assms(1), of s "\<lambda>u. None"] show ?thesis by (simp add: seeded_def)
qed

lemma bootstrap_seeds:
  assumes "ok s" "tok now"
  shows "\<exists>s'. applyBootstrapPSKs getUser putUser putPSK now s es = (s', None) \<and> ok s'
    \<and> (\<forall>u. seeded s s' u (last_entry u es None))"
  using apply_entries_seeds [OF assms, of es] assms
  by (cases "es = []") (auto simp: applyBootstrapPSKs_def last_entry_def seeded_def)

end

interpretation mem_keys: psk_upsert GetPSKRecord PutPSKRecord GetUser PutUser mem_ok "\<lambda>t. True"
proof
  fix s :: mem_store and r
  assume "mem_ok s"
  then obtain s' where "PutPSKRecord s r = Inr s'" using psk.put_total by blast
  with \<open>mem_ok s\<close> show "\<exists>s' c. PutPSKRecord s r = Inr s' \<and> mem_ok s'
      \<and> (\<forall>u. GetPSKRecord s' u = (if u = r_UserID r then Inr (r\<lparr>r_CreatedAt := c\<rparr>) else GetPSKRecord s u))"
    using psk.put_ok psk.get_put by (intro exI [of _ s'] exI [of _ "r_CreatedAt r"]) simp
next
  fix s :: mem_store and v
  assume "mem_ok s"
  then obtain s' where "PutUser s v = Inr s'" using usr.put_total by blast
  with \<open>mem_ok s\<close> show "\<exists>s'. PutUser s v = Inr s' \<and> mem_ok s' \<and> (\<forall>u. GetPSKRecord s' u = GetPSKRecord s u)"
    using usr.put_ok by (intro exI [of _ s']) (auto simp: mem_defs)
qed simp

definition db_ok :: "time_layout \<Rightarrow> sql_db \<Rightarrow> bool" where
  "db_ok l s \<longleftrightarrow> layout_ok l \<and> (\<exists>a. db_sim l s a)"

lemma sq_get_sim: "db_sim l s a \<Longrightarrow> sq_GetPSKRecord l False s u = found (sp_psks a u)"
  by (simp add: db_sim_def sq_GetPSKRecord_def represents_get)

lemma sq_put_key:
  assumes "db_ok l s" "time_ok (r_CreatedAt r)" "time_ok (r_RevokedAt r)"
  shows "\<exists>s' c. sq_PutPSKRecord l False s r = Inr s' \<and> db_ok l s'
    \<and> (\<forall>u. sq_GetPSKRecord l False s' u = (if u = r_UserID r then Inr (r\<lparr>r_CreatedAt := c\<rparr>) else sq_GetPSKRecord l False s u))"
proof -
  obtain a where l: "layout_ok l" and a: "db_sim l s a" using assms(1) by (auto simp: db_ok_def)
  obtain s' where s': "sq_PutPSKRecord l False s r = Inr s'" by (simp add: sq_PutPSKRecord_def)
  let ?a = "fst (keep_exec a (OPutPSKRecord r))"
  have sim: "db_sim l s' ?a"
    using sq_exec_sim [OF l a, of "OPutPSKRecord r"] assms s' by (simp add: updated_def)
  have "sp_psks ?a = (sp_psks a)(r_UserID r \<mapsto> keep (\<lambda>v' v. v\<lparr>r_CreatedAt := r_CreatedAt v'\<rparr>) (sp_psks a (r_UserID r)) r)"
    by (simp add: keep_exec_def)
  moreover obtain c where "keep (\<lambda>v' v. v\<lparr>r_CreatedAt := r_CreatedAt v'\<rparr>) (sp_psks a (r_UserID r)) r = r\<lparr>r_CreatedAt := c\<rparr>"
  proof (cases "sp_psks a (r_UserID r)")
    case None
    then show thesis by (intro that [of "r_CreatedAt r"]) (simp add: keep_def)
  next
    case (Some v)
    then show thesis by (intro that [of "r_CreatedAt v"]) (simp add: keep_def)
  qed
  ultimately show ?thesis using s' sim l
    by (intro exI [of _ s'] exI [of _ c]) (auto simp: db_ok_def sq_get_sim [OF sim] sq_get_sim [OF a])
qed

lemma sq_put_user:
  assumes "db_ok l s" "time_ok (u_CreatedAt v)"
  shows "\<exists>s'. sq_PutUser l False s v = Inr s' \<and> db_ok l s' \<and> (\<forall>u. sq_GetPSKRecord l False s' u = sq_GetPSKRecord l False s u)"
proof -
  obtain a where l: "layout_ok l" and a: "db_sim l s a" using assms(1) by (auto simp: db_ok_def)
  obtain s' where s': "sq_PutUser l False s v = Inr s'" by (simp add: sq_PutUser_def)
  have "db_sim l s' (fst (keep_exec a (OPutUser v)))"
    using sq_exec_sim [OF l a, of "OPutUser v"] assms s' by (simp add: updated_def)
  then show ?thesis using s' l by (auto simp: db_ok_def sq_PutUser_def sq_GetPSKRecord_def)
qed

interpretation sq_keys: psk_upsert "sq_GetPSKRecord l False" "sq_PutPSKRecord l False" "sq_GetUser l False"
  "sq_PutUser l False" "db_ok l" time_ok for l
  by unfold_locales (rule sq_put_key sq_put_user; assumption | simp add: time_ok_def year10000_def second_def)+


text \<open>The last well-formed bootstrap entry of a user is that user's key once the server has
  started, whatever the database held: its secret and label are the entry's, and it is not
  revoked, so a key the operator revoked is valid again after a restart. Entries with a secret
  that is not hexadecimal are skipped, and every other key is as it was.\<close>

theorem bootstrap_keys_in_force:
  assumes "db_ok l db" and "time_ok now"
  shows "\<exists>db'. applyBootstrapPSKs (sq_GetUser l False) (sq_PutUser l False) (sq_PutPSKRecord l False) now db
            (es @ \<lparr>b_UserID = u, b_SecretHex = hex_encode secret, b_Label = label\<rparr> # es') = (db', None)
    \<and> (u \<notin> b_UserID ` set es' \<longrightarrow> (\<exists>c. sq_GetPSKRecord l False db' u
          = Inr \<lparr>r_UserID = u, r_Secret = secret, r_DisplayLabel = label, r_CreatedAt = c, r_RevokedAt = 0\<rparr>))
    \<and> (\<forall>v. v \<notin> insert u (b_UserID ` (set es \<union> set es'))
          \<longrightarrow> sq_GetPSKRecord l False db' v = sq_GetPSKRecord l False db v)"
proof -
  let ?es = "es @ \<lparr>b_UserID = u, b_SecretHex = hex_encode secret, b_Label = label\<rparr> # es'"
  obtain db' where db': "applyBootstrapPSKs (sq_GetUser l False) (sq_PutUser l False) (sq_PutPSKRecord l False) now db ?es = (db', None)"
    and s: "\<And>v. sq_keys.seeded l db db' v (sq_keys.last_entry v ?es None)"
    using sq_keys.bootstrap_seeds [OF assms, of ?es] by blast
  have skip: "v \<notin> b_UserID ` set xs \<Longrightarrow> sq_keys.last_entry v xs d = d" for v xs d
    unfolding sq_keys.last_entry_def by (induction xs arbitrary: d) auto
  have "sq_keys.last_entry u ?es None = Some (secret, label)" if "u \<notin> b_UserID ` set es'"
    using skip [OF that, of "Some (secret, label)"] by (simp add: sq_keys.last_entry_def)
  moreover have "sq_keys.last_entry v ?es None = None" if "v \<notin> insert u (b_UserID ` (set es \<union> set es'))" for v
    using skip [of v ?es None] that by auto
  ultimately have "u \<notin> b_UserID ` set es' \<Longrightarrow> \<exists>c. sq_GetPSKRecord l False db' u
          = Inr \<lparr>r_UserID = u, r_Secret = secret, r_DisplayLabel = label, r_CreatedAt = c, r_RevokedAt = 0\<rparr>"
    and "v \<notin> insert u (b_UserID ` (set es \<union> set es')) \<Longrightarrow> sq_GetPSKRecord l False db' v = sq_GetPSKRecord l False db v" for v
    using s [of u] s [of v] by (simp_all add: sq_keys.seeded_def)
  then show ?thesis by (intro exI [of _ db'] conjI db') blast+
qed

lemma db_ok_empty: "layout_ok l \<Longrightarrow> db_ok l empty_db"
  by (auto simp: db_ok_def db_sim_def represents_def empty_db_def
      intro!: exI [of _ "\<lparr>sp_devices = Map.empty, sp_sessions = Map.empty, sp_users = Map.empty,
         sp_psks = Map.empty, sp_pairs = Map.empty\<rparr>"])

theorem bootstrap_keys_in_force_witness:
  "\<exists>db' c. applyBootstrapPSKs (sq_GetUser demo_layout False) (sq_PutUser demo_layout False)
        (sq_PutPSKRecord demo_layout False) 7 empty_db [\<lparr>b_UserID = ''al'', b_SecretHex = hex_encode [15], b_Label = ''pc''\<rparr>] = (db', None)
     \<and> sq_GetPSKRecord demo_layout False db' ''al''
        = Inr \<lparr>r_UserID = ''al'', r_Secret = [15], r_DisplayLabel = ''pc'', r_CreatedAt = c, r_RevokedAt = 0\<rparr>"
  using bootstrap_keys_in_force [OF db_ok_empty [OF layout_ok_demo], of 7 "[]" "''al''" "[15]" "''pc''" "[]"]
  by (auto simp: time_ok_def year10000_def second_def)

text \<open>Telemetry is served exactly to a request that carries the configured token; without a
  configured token nothing is served.\<close>

theorem metrics_token_required:
  "metricsHandler token got = HttpInner \<longleftrightarrow> token \<noteq> [] \<and> got = ''Bearer '' @ token"
  by (auto simp: metricsHandler_def Let_def HasPrefix_iff)

text \<open>The server listens without encryption only when the operator asks for it on the command
  line; a configuration that has been validated otherwise names a certificate and a key. It
  starts only with an authentication provider built from the clock settings of the
  configuration.\<close>

theorem serve_encrypted:
  assumes "validate cfg = None" and "prepare l os now insecureHTTP cfg = Inr st"
  shows "(st_listen st = PlainHTTP (ListenAddr cfg) \<and> insecureHTTP
       \<or> (\<exists>cert key. st_listen st = HTTPS (ListenAddr cfg) cert key \<and> cert \<noteq> [] \<and> key \<noteq> []))
    \<and> (case st_provider st of
         PskProvider p \<Rightarrow> cfg_AuthProvider cfg = ''psk'' \<and> st_kind st = AuthProviderPSK
            \<and> 0 < ClockSkew p \<and> 0 < Window (Nonces p) \<and> seen (Nonces p) = []
       | FirebaseProvider \<Rightarrow> cfg_AuthProvider cfg = ''firebase'' \<and> st_kind st = AuthProviderFirebase
            \<and> ProjectID (Firebase cfg) \<noteq> [] \<and> st_appCheck st)"
proof -
  obtain p k ac lm where pk: "buildAuth (se_firebase os) cfg = Inr (p, k)" and ac: "buildAppCheck (se_app os) cfg = Inr ac"
    and lm: "listen_choice cfg insecureHTTP = Inr lm"
    and st: "st_listen st = lm" "st_provider st = p" "st_kind st = k" "st_appCheck st = ac"
    using assms(2) by (auto simp: prepare_def split: sum.splits prod.splits option.splits if_splits)
  have "lm = PlainHTTP (ListenAddr cfg) \<and> insecureHTTP
       \<or> (\<exists>cert key. lm = HTTPS (ListenAddr cfg) cert key \<and> cert \<noteq> [] \<and> key \<noteq> [])"
    using assms(1) lm by (auto simp: listen_choice_def validate_def Insecure_def split: if_splits)
  moreover have "case p of
         PskProvider q \<Rightarrow> cfg_AuthProvider cfg = ''psk'' \<and> k = AuthProviderPSK
            \<and> 0 < ClockSkew q \<and> 0 < Window (Nonces q) \<and> seen (Nonces q) = []
       | FirebaseProvider \<Rightarrow> cfg_AuthProvider cfg = ''firebase'' \<and> k = AuthProviderFirebase
            \<and> ProjectID (Firebase cfg) \<noteq> [] \<and> ac"
    using assms(1) pk ac by (auto simp: buildAuth_def buildAppCheck_def validate_def NewMemoryNonceCache_def
        split: if_splits option.splits)
  ultimately show ?thesis unfolding st by (simp split: provider.split_asm)
qed

definition demo_os :: serve_env where
  "demo_os = \<lparr>se_open = (\<lambda>b. Inr empty_db), se_firebase = None, se_app = None, se_metrics = True, se_serve = (\<lambda>m. None)\<rparr>"

definition demo_cfg :: Config where
  "demo_cfg = Defaults\<lparr>TLS := \<lparr>CertFile = ''c'', KeyFile = ''k''\<rparr>\<rparr>"

lemma demo_cfg_valid: "validate demo_cfg = None"
  by (simp add: demo_cfg_def Defaults_def validate_def second_def minute_def)

theorem serve_encrypted_witness:
  "\<exists>st cert key. prepare demo_layout demo_os 1 False demo_cfg = Inr st \<and> st_listen st = HTTPS '':8443'' cert key \<and> cert \<noteq> [] \<and> key \<noteq> []"
proof -
  obtain st where st: "prepare demo_layout demo_os 1 False demo_cfg = Inr st"
    by (simp add: prepare_def demo_os_def demo_cfg_def Defaults_def openStore_def applyBootstrapPSKs_def buildAuth_def
        buildAppCheck_def listen_choice_def Insecure_def)
  have "ListenAddr demo_cfg = '':8443''" by (simp add: demo_cfg_def Defaults_def)
  with serve_encrypted [OF demo_cfg_valid st] st show ?thesis by auto
qed

text \<open>Validation accepts a nonce window shorter than the clock skew allows for, and then a
  captured request is accepted a second time.\<close>

theorem valid_config_admits_replay:
  "\<exists>cfg p c t2. validate cfg = None \<and> buildAuth None cfg = Inr (PskProvider p, AuthProviderPSK)
     \<and> snd (psk_Authenticate demo_hmac demo_psk p (Some (PskCreds c)) demo_now) = Inr \<lparr>UserID = ''u'', DeviceID = []\<rparr>
     \<and> snd (psk_Authenticate demo_hmac demo_psk
          (fst (psk_Authenticate demo_hmac demo_psk p (Some (PskCreds c)) demo_now)) (Some (PskCreds c)) t2)
        = Inr \<lparr>UserID = ''u'', DeviceID = []\<rparr>"
proof -
  let ?cfg = "Defaults\<lparr>Clock := \<lparr>Skew = 60 * second, NonceWindow = second\<rparr>\<rparr>"
  let ?p = "\<lparr>Nonces = NewMemoryNonceCache second, ClockSkew = 60 * second\<rparr>"
  let ?c = "(demo_creds 1800000000)\<lparr>c_Signature := [1]\<rparr>"
  have "validate ?cfg = None" by (simp add: Defaults_def validate_def second_def)
  moreover have "buildAuth None ?cfg = Inr (PskProvider ?p, AuthProviderPSK)"
    by (simp add: buildAuth_def Defaults_def psk_New_def)
  moreover have "psk_Authenticate demo_hmac demo_psk ?p (Some (PskCreds ?c)) demo_now
      = (?p\<lparr>Nonces := \<lparr>Window = second, seen = [(nonce_key ''u'' (replicate 16 7), demo_now)]\<rparr>\<rparr>, Inr \<lparr>UserID = ''u'', DeviceID = []\<rparr>)"
    by (simp add: psk_Authenticate_def demo_psk_def demo_creds_def NonceLength_def clock_delta_def demo_now_def time_unix_def
        second_def skew_seconds_def IsRevoked_def nonce_Add_def NewMemoryNonceCache_def gm_retain_def demo_hmac_def)
  moreover have "snd (psk_Authenticate demo_hmac demo_psk
      (?p\<lparr>Nonces := \<lparr>Window = second, seen = [(nonce_key ''u'' (replicate 16 7), demo_now)]\<rparr>\<rparr>) (Some (PskCreds ?c))
      (demo_now + 2 * second)) = Inr \<lparr>UserID = ''u'', DeviceID = []\<rparr>"
    by (simp add: psk_Authenticate_def demo_psk_def demo_creds_def NonceLength_def clock_delta_def demo_now_def time_unix_def
        second_def skew_seconds_def IsRevoked_def nonce_Add_def gm_retain_def demo_hmac_def time_sub_def minDuration_def maxDuration_def)
  ultimately show ?thesis by (metis fst_conv snd_conv)
qed

end
