(* ===== verification/Firebase_Auth.thy ===== *)
theory Firebase_Auth
  imports Rtdb Filepath Notify Base64
begin

text \<open>
  \<^verbatim>\<open>windows/firebase\<close>: how the host obtains Firebase identity tokens. A source is bootstrapped by a
  pairing code (\<^verbatim>\<open>pairing.go\<close>), by a browser sign-in (\<^verbatim>\<open>oauth.go\<close>) or by service-account credentials
  (\<^verbatim>\<open>firebase.go\<close>); afterwards it caches a token until it is about to expire. The HTTP exchange is a
  function from requests to responses, the JSON codecs are a record of functions, the random bytes
  and the clock are arguments, and the token files are a map from paths to contents.
\<close>

section \<open>The services\<close>

datatype fb_err = EmptyArg string | PostErr go_err | StatusErr nat string | ParseErr | EmptyToken
  | MkdirErr | WriteErr | ReadErr | EmptyFile | NotSixDigits | ListenErr | RandomErr | BrowserErr
  | CtxErr | SignInTimeout | OAuthErr string | StateMismatch | MissingCode | SdkErr string

record id_fields =
  fi_IDToken :: string
  fi_RefreshToken :: string
  fi_ExpiresIn :: string
  fi_UserID :: string

record idTokenResponse =
  ir_IDToken :: string
  ir_RefreshToken :: string
  ir_UserID :: string
  ir_ExpiresInSeconds :: int

record claimResponse =
  cr_UID :: string
  cr_CustomToken :: string

text \<open>The codecs: JSON bodies and answers, form encoding, and the integer \<^verbatim>\<open>fmt.Sscanf\<close> finds.\<close>

record codecs =
  j_code :: "string \<Rightarrow> string"
  j_claim :: "string \<Rightarrow> claimResponse option"
  j_custom :: "string \<Rightarrow> string"
  j_signin :: "string \<Rightarrow> id_fields option"
  j_refresh :: "string \<Rightarrow> id_fields option"
  j_google :: "string \<Rightarrow> string option"
  j_idp :: "string \<Rightarrow> string \<Rightarrow> string"
  j_claims :: "bytes \<Rightarrow> (string \<Rightarrow> string option) option"
  form_Encode :: "(string \<times> string) list \<Rightarrow> string"
  QueryEscape :: "string \<Rightarrow> string"
  sscanf_int :: "string \<Rightarrow> int option"

definition post :: "http_do \<Rightarrow> string \<Rightarrow> string \<Rightarrow> fb_err + string" where
  "post do endpoint body =
     (case do \<lparr>rq_method = ''POST'', rq_url = endpoint, rq_body = body\<rparr> of
        Inl e \<Rightarrow> Inl (PostErr e)
      | Inr (status, raw) \<Rightarrow> if status \<noteq> 200 then Inl (StatusErr status raw) else Inr raw)"

definition expires_in :: "codecs \<Rightarrow> string \<Rightarrow> int" where
  "expires_in c s = (if s = [] then 3600 else case sscanf_int c s of None \<Rightarrow> 3600 | Some n \<Rightarrow> n)"

definition token_response :: "codecs \<Rightarrow> id_fields \<Rightarrow> idTokenResponse" where
  "token_response c f = \<lparr>ir_IDToken = fi_IDToken f, ir_RefreshToken = fi_RefreshToken f, ir_UserID = fi_UserID f,
     ir_ExpiresInSeconds = expires_in c (fi_ExpiresIn f)\<rparr>"

definition claimPairingCode :: "codecs \<Rightarrow> http_do \<Rightarrow> string \<Rightarrow> string \<Rightarrow> string \<Rightarrow> fb_err + claimResponse" where
  "claimPairingCode c do projectID region code =
     (case post do (''https://'' @ region @ ''-'' @ projectID @ ''.cloudfunctions.net/claimPairingCode'') (j_code c code) of
        Inl e \<Rightarrow> Inl e
      | Inr raw \<Rightarrow>
         (case j_claim c raw of
            None \<Rightarrow> Inl ParseErr
          | Some out \<Rightarrow> if cr_CustomToken out = [] then Inl EmptyToken else Inr out))"

definition signInWithCustomToken :: "codecs \<Rightarrow> http_do \<Rightarrow> string \<Rightarrow> string \<Rightarrow> fb_err + idTokenResponse" where
  "signInWithCustomToken c do apiKey customToken =
     (case post do (''https://identitytoolkit.googleapis.com/v1/accounts:signInWithCustomToken?key='' @ apiKey) (j_custom c customToken) of
        Inl e \<Rightarrow> Inl e
      | Inr raw \<Rightarrow> (case j_signin c raw of None \<Rightarrow> Inl ParseErr | Some f \<Rightarrow> Inr (token_response c f)))"

definition exchangeRefreshTokenForIDToken :: "codecs \<Rightarrow> http_do \<Rightarrow> string \<Rightarrow> string \<Rightarrow> fb_err + idTokenResponse" where
  "exchangeRefreshTokenForIDToken c do apiKey tok =
     (case post do (''https://securetoken.googleapis.com/v1/token?key='' @ apiKey)
             (form_Encode c [(''grant_type'', ''refresh_token''), (''refresh_token'', tok)]) of
        Inl e \<Rightarrow> Inl e
      | Inr raw \<Rightarrow> (case j_refresh c raw of None \<Rightarrow> Inl ParseErr | Some f \<Rightarrow> Inr (token_response c f)))"

definition exchangeAuthCodeForGoogleIDToken ::
  "codecs \<Rightarrow> http_do \<Rightarrow> string \<Rightarrow> string \<Rightarrow> string \<Rightarrow> string \<Rightarrow> string \<Rightarrow> fb_err + string" where
  "exchangeAuthCodeForGoogleIDToken c do clientID clientSecret code redirectURI codeVerifier =
     (case post do ''https://oauth2.googleapis.com/token''
             (form_Encode c ([(''client_id'', clientID)]
                @ (if clientSecret \<noteq> [] then [(''client_secret'', clientSecret)] else [])
                @ [(''code'', code), (''code_verifier'', codeVerifier), (''grant_type'', ''authorization_code''),
                   (''redirect_uri'', redirectURI)])) of
        Inl e \<Rightarrow> Inl e
      | Inr raw \<Rightarrow> (case j_google c raw of None \<Rightarrow> Inl ParseErr | Some t \<Rightarrow> if t = [] then Inl EmptyToken else Inr t))"

definition signInWithGoogleIDToken :: "codecs \<Rightarrow> http_do \<Rightarrow> string \<Rightarrow> string \<Rightarrow> string \<Rightarrow> fb_err + idTokenResponse" where
  "signInWithGoogleIDToken c do apiKey googleIDToken requestURI =
     (case post do (''https://identitytoolkit.googleapis.com/v1/accounts:signInWithIdp?key='' @ apiKey)
             (j_idp c (''id_token='' @ QueryEscape c googleIDToken @ ''&providerId=google.com'') requestURI) of
        Inl e \<Rightarrow> Inl e
      | Inr raw \<Rightarrow> (case j_signin c raw of None \<Rightarrow> Inl ParseErr | Some f \<Rightarrow> Inr (token_response c f)))"

definition exchangeCustomTokenForIDToken :: "codecs \<Rightarrow> http_do \<Rightarrow> string \<Rightarrow> string \<Rightarrow> fb_err + string" where
  "exchangeCustomTokenForIDToken c do apiKey customToken =
     (case post do (''https://identitytoolkit.googleapis.com/v1/accounts:signInWithCustomToken?key='' @ apiKey) (j_custom c customToken) of
        Inl e \<Rightarrow> Inl e
      | Inr raw \<Rightarrow>
         (case j_signin c raw of
            None \<Rightarrow> Inl ParseErr
          | Some f \<Rightarrow> if fi_IDToken f = [] then Inl EmptyToken else Inr (fi_IDToken f)))"

section \<open>Token files\<close>

type_synonym files = "string \<Rightarrow> string option"

text \<open>A failed write may leave anything in the file, because \<^verbatim>\<open>os.WriteFile\<close> truncates it first.\<close>

datatype write_out = MkdirFails | WriteFails "string option" | WriteOk

definition newline :: string where
  "newline = [char_of (10 :: nat)]"

definition writeTokenFile :: "files \<Rightarrow> write_out \<Rightarrow> string \<Rightarrow> string \<Rightarrow> files \<times> fb_err option" where
  "writeTokenFile fs w path token =
     (case w of
        MkdirFails \<Rightarrow> (fs, Some MkdirErr)
      | WriteFails left \<Rightarrow> (fs(path := left), Some WriteErr)
      | WriteOk \<Rightarrow> (fs(path \<mapsto> token @ newline), None))"

definition looksLikeSixDigits :: "string \<Rightarrow> bool" where
  "looksLikeSixDigits s \<longleftrightarrow> length s = 6 \<and> list_all (\<lambda>c. 48 \<le> (of_char c :: nat) \<and> (of_char c :: nat) \<le> 57) s"

definition DefaultRefreshTokenPath :: "(string \<Rightarrow> string) \<Rightarrow> string option \<Rightarrow> string" where
  "DefaultRefreshTokenPath env home =
     (if env ''LOCALAPPDATA'' \<noteq> [] then Join2 (Join2 (env ''LOCALAPPDATA'') ''peersh'') ''firebase-refresh-token.txt''
      else (case home of
              Some h \<Rightarrow> Join2 (Join2 (Join2 (Join2 h ''.local'') ''share'') ''peersh'') ''firebase-refresh-token.txt''
            | None \<Rightarrow> Join2 ''.'' ''peersh-firebase-refresh-token.txt''))"

definition uidFromJWT :: "codecs \<Rightarrow> string \<Rightarrow> string option" where
  "uidFromJWT c jwt =
     (let parts = split_on (CHR ''.'') jwt
      in if length parts \<noteq> 3 then None
         else
          (case RawURL_DecodeString (parts ! 1) of
             None \<Rightarrow> None
           | Some raw \<Rightarrow>
              (case j_claims c raw of
                 None \<Rightarrow> None
               | Some claims \<Rightarrow>
                   (let string_claim = (\<lambda>k. case claims k of None \<Rightarrow> None | Some v \<Rightarrow> if v = [] then None else Some v)
                    in case string_claim ''sub'' of Some v \<Rightarrow> Some v | None \<Rightarrow> string_claim ''user_id''))))"

section \<open>Token sources\<close>

record RefreshAuthSource =
  rs_apiKey :: string
  rs_tokenPath :: string
  rs_refreshToken :: string
  rs_uid :: string
  rs_idToken :: string
  rs_expires :: time

definition NewRefreshSource :: "files \<Rightarrow> string \<Rightarrow> string \<Rightarrow> fb_err + RefreshAuthSource" where
  "NewRefreshSource fs tokenPath apiKey =
     (if tokenPath = [] then Inl (EmptyArg ''token path'')
      else if apiKey = [] then Inl (EmptyArg ''apiKey'')
      else
       (case fs tokenPath of
          None \<Rightarrow> Inl ReadErr
        | Some raw \<Rightarrow>
            let tok = TrimSpace raw
            in if tok = [] then Inl EmptyFile
               else Inr \<lparr>rs_apiKey = apiKey, rs_tokenPath = tokenPath, rs_refreshToken = tok, rs_uid = [], rs_idToken = [],
                         rs_expires = 0\<rparr>))"

text \<open>What one call of \<^verbatim>\<open>Token\<close> meets: the time of the check, the service, the time after the answer,
  and the fate of a write.\<close>

record token_call =
  tc_now :: time
  tc_do :: http_do
  tc_after :: time
  tc_write :: write_out

definition expiry_of :: "time \<Rightarrow> int \<Rightarrow> time" where
  "expiry_of now secs = now + int64 (secs * second)"

definition refresh_Token ::
  "codecs \<Rightarrow> RefreshAuthSource \<times> files \<Rightarrow> token_call \<Rightarrow> (RefreshAuthSource \<times> files) \<times> (fb_err + string)" where
  "refresh_Token c st call =
     (case st of (s, fs) \<Rightarrow>
       if rs_idToken s \<noteq> [] \<and> tc_now call < rs_expires s - 2 * minute then ((s, fs), Inr (rs_idToken s))
       else
        (case exchangeRefreshTokenForIDToken c (tc_do call) (rs_apiKey s) (rs_refreshToken s) of
           Inl e \<Rightarrow> ((s, fs), Inl e)
         | Inr out \<Rightarrow>
             let s1 = s\<lparr>rs_idToken := ir_IDToken out, rs_uid := ir_UserID out,
                        rs_expires := expiry_of (tc_after call) (ir_ExpiresInSeconds out)\<rparr>
             in if ir_RefreshToken out \<noteq> [] \<and> ir_RefreshToken out \<noteq> rs_refreshToken s
                then let s2 = s1\<lparr>rs_refreshToken := ir_RefreshToken out\<rparr>
                     in (case writeTokenFile fs (tc_write call) (rs_tokenPath s) (ir_RefreshToken out) of
                           (fs', Some e) \<Rightarrow> ((s2, fs'), Inl e)
                         | (fs', None) \<Rightarrow> ((s2, fs'), Inr (rs_idToken s2)))
                else ((s1, fs), Inr (rs_idToken s1))))"

definition refresh_UID :: "codecs \<Rightarrow> RefreshAuthSource \<Rightarrow> string" where
  "refresh_UID c s =
     (if rs_uid s \<noteq> [] then rs_uid s else case uidFromJWT c (rs_idToken s) of Some u \<Rightarrow> u | None \<Rightarrow> [])"

definition Pair_codes ::
  "codecs \<Rightarrow> http_do \<Rightarrow> files \<Rightarrow> write_out \<Rightarrow> time \<Rightarrow> string \<Rightarrow> string \<Rightarrow> string \<Rightarrow> string \<Rightarrow> string
     \<Rightarrow> files \<times> (fb_err + RefreshAuthSource)" where
  "Pair_codes c do fs w now projectID region apiKey code tokenPath =
     (if projectID = [] then (fs, Inl (EmptyArg ''project id''))
      else if region = [] then (fs, Inl (EmptyArg ''region''))
      else if apiKey = [] then (fs, Inl (EmptyArg ''apiKey''))
      else if \<not> looksLikeSixDigits code then (fs, Inl NotSixDigits)
      else if tokenPath = [] then (fs, Inl (EmptyArg ''token path''))
      else
       (case claimPairingCode c do projectID region code of
          Inl e \<Rightarrow> (fs, Inl e)
        | Inr claim \<Rightarrow>
           (case signInWithCustomToken c do apiKey (cr_CustomToken claim) of
              Inl e \<Rightarrow> (fs, Inl e)
            | Inr tokens \<Rightarrow>
                if ir_RefreshToken tokens = [] then (fs, Inl EmptyToken)
                else
                 (case writeTokenFile fs w tokenPath (ir_RefreshToken tokens) of
                    (fs', Some e) \<Rightarrow> (fs', Inl e)
                  | (fs', None) \<Rightarrow>
                      (fs', Inr \<lparr>rs_apiKey = apiKey, rs_tokenPath = tokenPath, rs_refreshToken = ir_RefreshToken tokens,
                                 rs_uid = cr_UID claim, rs_idToken = ir_IDToken tokens,
                                 rs_expires = expiry_of now (ir_ExpiresInSeconds tokens)\<rparr>)))))"

section \<open>Browser sign-in\<close>

definition randomURLToken :: "bytes option \<Rightarrow> fb_err + string" where
  "randomURLToken r = (case r of None \<Rightarrow> Inl RandomErr | Some buf \<Rightarrow> Inr (RawURL_EncodeToString buf))"

definition pkceChallenge :: "(bytes \<Rightarrow> bytes) \<Rightarrow> string \<Rightarrow> string" where
  "pkceChallenge sha256 verifier = RawURL_EncodeToString (sha256 (map byte_of_char verifier))"

definition buildGoogleAuthURL :: "codecs \<Rightarrow> string \<Rightarrow> string \<Rightarrow> string \<Rightarrow> string \<Rightarrow> string" where
  "buildGoogleAuthURL c clientID redirectURI challenge state =
     ''https://accounts.google.com/o/oauth2/v2/auth?''
     @ form_Encode c [(''client_id'', clientID), (''redirect_uri'', redirectURI), (''response_type'', ''code''),
         (''scope'', ''openid email profile''), (''code_challenge'', challenge), (''code_challenge_method'', ''S256''),
         (''state'', state), (''access_type'', ''online''), (''prompt'', ''select_account'')]"

text \<open>What the callback handler sends for the query of a request.\<close>

definition callback_result :: "(string \<Rightarrow> string) \<Rightarrow> fb_err + (string \<times> string)" where
  "callback_result q = (if q ''error'' \<noteq> [] then Inl (OAuthErr (q ''error'')) else Inr (q ''code'', q ''state''))"

datatype sign_in_ev = SignCtxDone | SignTimeout | SignCallback "string \<Rightarrow> string"

record sign_in_env =
  si_port :: "string option"
  si_verifier :: "bytes option"
  si_state :: "bytes option"
  si_openBrowser :: "string \<Rightarrow> bool"
  si_event :: sign_in_ev
  si_do :: http_do
  si_write :: write_out
  si_now :: time

definition finish_sign_in ::
  "codecs \<Rightarrow> sign_in_env \<Rightarrow> files \<Rightarrow> string \<Rightarrow> string \<Rightarrow> string \<Rightarrow> string \<Rightarrow> string \<Rightarrow> string \<Rightarrow> string
     \<Rightarrow> files \<times> (fb_err + RefreshAuthSource)" where
  "finish_sign_in c e fs clientID clientSecret apiKey tokenPath redirectURI verifier code =
     (case exchangeAuthCodeForGoogleIDToken c (si_do e) clientID clientSecret code redirectURI verifier of
        Inl err \<Rightarrow> (fs, Inl err)
      | Inr google \<Rightarrow>
         (case signInWithGoogleIDToken c (si_do e) apiKey google redirectURI of
            Inl err \<Rightarrow> (fs, Inl err)
          | Inr tokens \<Rightarrow>
              if ir_RefreshToken tokens = [] then (fs, Inl EmptyToken)
              else
               (case writeTokenFile fs (si_write e) tokenPath (ir_RefreshToken tokens) of
                  (fs', Some err) \<Rightarrow> (fs', Inl err)
                | (fs', None) \<Rightarrow>
                    (fs', Inr \<lparr>rs_apiKey = apiKey, rs_tokenPath = tokenPath, rs_refreshToken = ir_RefreshToken tokens,
                               rs_uid = ir_UserID tokens, rs_idToken = ir_IDToken tokens,
                               rs_expires = expiry_of (si_now e) (ir_ExpiresInSeconds tokens)\<rparr>))))"

definition GoogleSignIn ::
  "codecs \<Rightarrow> (bytes \<Rightarrow> bytes) \<Rightarrow> sign_in_env \<Rightarrow> files \<Rightarrow> string \<Rightarrow> string \<Rightarrow> string \<Rightarrow> string
     \<Rightarrow> files \<times> (fb_err + RefreshAuthSource)" where
  "GoogleSignIn c sha256 e fs clientID clientSecret apiKey tokenPath =
     (if clientID = [] then (fs, Inl (EmptyArg ''google-client-id''))
      else if apiKey = [] then (fs, Inl (EmptyArg ''firebase-api-key''))
      else if tokenPath = [] then (fs, Inl (EmptyArg ''token path''))
      else
       (case si_port e of
          None \<Rightarrow> (fs, Inl ListenErr)
        | Some port \<Rightarrow>
            let redirectURI = ''http://127.0.0.1:'' @ port
            in case randomURLToken (si_verifier e) of
                 Inl err \<Rightarrow> (fs, Inl err)
               | Inr verifier \<Rightarrow>
                  (case randomURLToken (si_state e) of
                     Inl err \<Rightarrow> (fs, Inl err)
                   | Inr state \<Rightarrow>
                       if \<not> si_openBrowser e (buildGoogleAuthURL c clientID redirectURI (pkceChallenge sha256 verifier) state)
                       then (fs, Inl BrowserErr)
                       else
                        (case si_event e of
                           SignCtxDone \<Rightarrow> (fs, Inl CtxErr)
                         | SignTimeout \<Rightarrow> (fs, Inl SignInTimeout)
                         | SignCallback q \<Rightarrow>
                            (case callback_result q of
                               Inl err \<Rightarrow> (fs, Inl err)
                             | Inr (code, st) \<Rightarrow>
                                 if st \<noteq> state then (fs, Inl StateMismatch)
                                 else if code = [] then (fs, Inl MissingCode)
                                 else finish_sign_in c e fs clientID clientSecret apiKey tokenPath redirectURI verifier code)))))"

definition OpenBrowser_command :: "string \<Rightarrow> string \<Rightarrow> string list" where
  "OpenBrowser_command goos u =
     (if goos = ''windows'' then [''rundll32'', ''url.dll,FileProtocolHandler'', u]
      else if goos = ''darwin'' then [''open'', u] else [''xdg-open'', u])"

section \<open>Service accounts\<close>

text \<open>The Admin SDK looks users up by address (\<open>lookup\<close>) and mints custom tokens (\<open>mint\<close>).\<close>

record AuthSource =
  as_uid :: string
  as_apiKey :: string
  as_token :: string
  as_expires :: time

definition fb_New :: "fb_err option \<Rightarrow> (string \<Rightarrow> fb_err + string) \<Rightarrow> string \<Rightarrow> string \<Rightarrow> string \<Rightarrow> fb_err + AuthSource" where
  "fb_New sdk lookup email uid apiKey =
     (if email = [] \<and> uid = [] then Inl (EmptyArg ''email or uid'')
      else if apiKey = [] then Inl (EmptyArg ''apiKey'')
      else
       (case sdk of
          Some e \<Rightarrow> Inl e
        | None \<Rightarrow>
           (case (if uid = [] then lookup email else Inr uid) of
              Inl e \<Rightarrow> Inl e
            | Inr u \<Rightarrow> Inr \<lparr>as_uid = u, as_apiKey = apiKey, as_token = [], as_expires = 0\<rparr>)))"

definition sa_Token :: "codecs \<Rightarrow> (string \<Rightarrow> fb_err + string) \<Rightarrow> AuthSource \<Rightarrow> token_call \<Rightarrow> AuthSource \<times> (fb_err + string)" where
  "sa_Token c mint s call =
     (if as_token s \<noteq> [] \<and> tc_now call < as_expires s - 2 * minute then (s, Inr (as_token s))
      else
       (case mint (as_uid s) of
          Inl e \<Rightarrow> (s, Inl e)
        | Inr custom \<Rightarrow>
           (case exchangeCustomTokenForIDToken c (tc_do call) (as_apiKey s) custom of
              Inl e \<Rightarrow> (s, Inl e)
            | Inr t \<Rightarrow> (s\<lparr>as_token := t, as_expires := tc_after call + 58 * minute\<rparr>, Inr t))))"

section \<open>Notification requests\<close>

definition NotifyCommandReady ::
  "(fb_err + string) \<Rightarrow> (NotificationPayload \<Rightarrow> string option) \<Rightarrow> (string \<Rightarrow> string option \<Rightarrow> string \<Rightarrow> rt_err + string)
     \<Rightarrow> string \<Rightarrow> NotificationPayload \<Rightarrow> (fb_err + rt_err) option" where
  "NotifyCommandReady token marshal push uid p =
     (case token of
        Inl e \<Rightarrow> Some (Inl e)
      | Inr t \<Rightarrow> (case push (''/users/'' @ uid @ ''/notifications'') (marshal p) t of Inl e \<Rightarrow> Some (Inr e) | Inr _ \<Rightarrow> None))"

section \<open>The interface of a token source\<close>

text \<open>A run of calls on a source.\<close>

fun token_run :: "('s \<Rightarrow> 'c \<Rightarrow> 's \<times> 'r) \<Rightarrow> 's \<Rightarrow> 'c list \<Rightarrow> 's \<times> 'r list" where
  "token_run token s [] = (s, [])"
| "token_run token s (call # calls) =
     (case token s call of (s1, r) \<Rightarrow> case token_run token s1 calls of (s2, rs) \<Rightarrow> (s2, r # rs))"

lemma fst_token_run: "fst (token_run token s (call # calls)) = fst (token_run token (fst (token s call)) calls)"
  by (simp split: prod.splits)

text \<open>
  \<^verbatim>\<open>TokenSource\<close> as its clients use it: a token that is cached and not about to expire is returned as it
  is, and a token that is returned is the cached one.
\<close>

locale token_source =
  fixes token :: "'s \<Rightarrow> token_call \<Rightarrow> 's \<times> (fb_err + string)"
    and cached :: "'s \<Rightarrow> string"
    and expires_at :: "'s \<Rightarrow> time"
  assumes hit: "cached s \<noteq> [] \<Longrightarrow> tc_now call < expires_at s - 2 * minute \<Longrightarrow> token s call = (s, Inr (cached s))"
    and returned: "token s call = (s', Inr t) \<Longrightarrow> t = cached s'"
begin

lemma run_hits:
  assumes "cached s \<noteq> []" and "\<forall>call \<in> set calls. tc_now call < expires_at s - 2 * minute"
  shows "token_run token s calls = (s, replicate (length calls) (Inr (cached s)))"
  using assms(2) by (induction calls) (simp_all add: hit [OF assms(1)])

lemma reused:
  assumes "token s call = (s', Inr t)" and "t \<noteq> []" and "\<forall>c \<in> set calls. tc_now c < expires_at s' - 2 * minute"
  shows "token_run token s (call # calls) = (s', Inr t # replicate (length calls) (Inr t))"
  using run_hits [of s' calls] returned [OF assms(1)] assms by simp

end

lemma writeTokenFile_ok: "writeTokenFile fs w path tok = (fs', None) \<longleftrightarrow> w = WriteOk \<and> fs' = fs(path \<mapsto> tok @ newline)"
  by (auto simp: writeTokenFile_def split: write_out.splits)

interpretation refresh_source: token_source "refresh_Token c" "\<lambda>st. rs_idToken (fst st)" "\<lambda>st. rs_expires (fst st)" for c
proof
  fix st call st' t
  show "rs_idToken (fst st) \<noteq> [] \<Longrightarrow> tc_now call < rs_expires (fst st) - 2 * minute
      \<Longrightarrow> refresh_Token c st call = (st, Inr (rs_idToken (fst st)))"
    by (cases st) (simp add: refresh_Token_def)
  show "refresh_Token c st call = (st', Inr t) \<Longrightarrow> t = rs_idToken (fst st')"
    by (auto simp: refresh_Token_def Let_def split: prod.splits if_splits sum.splits option.splits)
qed

interpretation service_account: token_source "sa_Token c mint" as_token as_expires for c mint
  by unfold_locales (auto simp: sa_Token_def split: if_splits sum.splits)

section \<open>The refresh token on disk\<close>

lemma TrimSpace_newline:
  assumes "s \<noteq> []" and "visible (hd s)" and "visible (last s)"
  shows "TrimSpace (s @ newline) = s"
proof -
  have front: "strip_any space_encodings (s @ newline) = s @ newline"
    using assms(1,2) by (intro strip_space_visible) simp_all
  let ?es = "map rev space_encodings"
  have "find (\<lambda>e. e \<noteq> [] \<and> HasPrefix (rev (s @ newline)) e) ?es = Some newline"
    by (simp add: space_encodings_def chars_def newline_def HasPrefix_def)
  then have "strip_any ?es (rev (s @ newline)) = strip_any ?es (rev s)"
    by (subst strip_any.simps) (simp add: newline_def)
  then show ?thesis using front strip_space_rev_visible [OF assms(1,3)] by (simp add: TrimSpace_def)
qed

text \<open>Once a source of either kind has returned a token, the calls made until two minutes before it expires
  return the same token and change nothing, without a request to any service.\<close>

theorem token_reused_until_expiry:
  assumes "refresh_Token c (s, fs) call = ((s', fs'), Inr t)" and "t \<noteq> []"
    and "sa_Token c mint a call = (a', Inr u)" and "u \<noteq> []"
    and "\<forall>call' \<in> set calls. tc_now call' < min (rs_expires s') (as_expires a') - 2 * minute"
  shows "token_run (refresh_Token c) (s, fs) (call # calls) = ((s', fs'), Inr t # replicate (length calls) (Inr t))
    \<and> token_run (sa_Token c mint) a (call # calls) = (a', Inr u # replicate (length calls) (Inr u))"
proof -
  have "\<forall>call' \<in> set calls. tc_now call' < rs_expires (fst (s', fs')) - 2 * minute"
    and "\<forall>call' \<in> set calls. tc_now call' < as_expires a' - 2 * minute"
    using assms(5) by auto
  then show ?thesis
    using refresh_source.reused [OF assms(1,2), of calls] service_account.reused [OF assms(3,4), of calls] by blast
qed

definition demo_codecs :: codecs where
  "demo_codecs = \<lparr>j_code = id, j_claim = (\<lambda>s. Some \<lparr>cr_UID = ''u'', cr_CustomToken = s\<rparr>), j_custom = id,
     j_signin = (\<lambda>s. Some \<lparr>fi_IDToken = ''id'', fi_RefreshToken = ''r1'', fi_ExpiresIn = [], fi_UserID = ''u''\<rparr>),
     j_refresh = (\<lambda>s. Some \<lparr>fi_IDToken = ''id'', fi_RefreshToken = ''r2'', fi_ExpiresIn = [], fi_UserID = ''u''\<rparr>),
     j_google = Some, j_idp = (@), j_claims = (\<lambda>b. None), form_Encode = (\<lambda>kvs. concat (map snd kvs)), QueryEscape = id,
     sscanf_int = (\<lambda>s. None)\<rparr>"

definition demo_do :: http_do where
  "demo_do rq = Inr (200, ''ok'')"

definition demo_call :: "time \<Rightarrow> token_call" where
  "demo_call now = \<lparr>tc_now = now, tc_do = demo_do, tc_after = now, tc_write = WriteOk\<rparr>"

definition demo_source :: RefreshAuthSource where
  "demo_source = \<lparr>rs_apiKey = ''k'', rs_tokenPath = ''f'', rs_refreshToken = ''r1'', rs_uid = [], rs_idToken = [], rs_expires = 0\<rparr>"

definition demo_account :: AuthSource where
  "demo_account = \<lparr>as_uid = ''u'', as_apiKey = ''k'', as_token = [], as_expires = 0\<rparr>"

lemmas demo_firebase = demo_codecs_def demo_do_def demo_call_def demo_source_def demo_account_def

theorem token_reused_until_expiry_witness:
  "snd (token_run (refresh_Token demo_codecs) (demo_source, Map.empty) [demo_call 0, demo_call (55 * minute)]) = [Inr ''id'', Inr ''id'']
   \<and> snd (token_run (sa_Token demo_codecs Inr) demo_account [demo_call 0, demo_call (55 * minute)]) = [Inr ''id'', Inr ''id'']"
proof -
  obtain s fs where s: "refresh_Token demo_codecs (demo_source, Map.empty) (demo_call 0) = ((s, fs), Inr ''id'')" "rs_expires s = hour"
    by (simp add: demo_firebase refresh_Token_def exchangeRefreshTokenForIDToken_def post_def token_response_def expires_in_def
        writeTokenFile_def expiry_of_def second_def minute_def hour_def)
  obtain a where a: "sa_Token demo_codecs Inr demo_account (demo_call 0) = (a, Inr ''id'')" "as_expires a = 58 * minute"
    by (simp add: demo_firebase sa_Token_def exchangeCustomTokenForIDToken_def post_def)
  have "tc_now (demo_call (55 * minute)) < min (rs_expires s) (as_expires a) - 2 * minute"
    using s(2) a(2) by (simp add: demo_call_def minute_def hour_def second_def)
  then show ?thesis
    using token_reused_until_expiry [OF s(1) _ a(1), of "[demo_call (55 * minute)]"] by simp
qed

text \<open>The file holds the token the source would present next.\<close>

definition persisted :: "RefreshAuthSource \<times> files \<Rightarrow> bool" where
  "persisted st \<longleftrightarrow> (case st of (s, fs) \<Rightarrow>
     rs_refreshToken s \<noteq> [] \<and> rs_tokenPath s \<noteq> [] \<and> rs_apiKey s \<noteq> []
     \<and> (\<exists>raw. fs (rs_tokenPath s) = Some raw \<and> TrimSpace raw = rs_refreshToken s))"

definition answers_visible :: "codecs \<Rightarrow> bool" where
  "answers_visible c \<longleftrightarrow>
     (\<forall>raw f. j_refresh c raw = Some f \<or> j_signin c raw = Some f \<longrightarrow> list_all visible (fi_RefreshToken f))"

lemma TrimSpace_token: "s \<noteq> [] \<Longrightarrow> list_all visible s \<Longrightarrow> TrimSpace (s @ newline) = s"
  by (rule TrimSpace_newline) (simp_all add: list_all_iff)

lemma exchange_visible:
  assumes "answers_visible c"
  shows "exchangeRefreshTokenForIDToken c do k r = Inr out \<Longrightarrow> list_all visible (ir_RefreshToken out)"
    and "signInWithCustomToken c do k r = Inr out \<Longrightarrow> list_all visible (ir_RefreshToken out)"
    and "signInWithGoogleIDToken c do k r u = Inr out \<Longrightarrow> list_all visible (ir_RefreshToken out)"
  using assms unfolding answers_visible_def
  by (auto simp: exchangeRefreshTokenForIDToken_def signInWithCustomToken_def signInWithGoogleIDToken_def token_response_def
      split: sum.splits option.splits)

lemma NewRefreshSource_persisted: "NewRefreshSource fs path key = Inr s \<Longrightarrow> persisted (s, fs)"
  by (auto simp: NewRefreshSource_def persisted_def Let_def split: if_splits option.splits)

lemma Pair_persisted:
  assumes "answers_visible c" and "Pair_codes c do fs0 w now projectID region apiKey code path = (fs, Inr s)"
  shows "persisted (s, fs)"
  using assms(2) exchange_visible(2) [OF assms(1)]
  by (auto simp: Pair_codes_def persisted_def writeTokenFile_ok TrimSpace_token split: if_splits sum.splits prod.splits option.splits)

lemma finish_sign_in_ok:
  assumes "finish_sign_in c e fs0 clientID secret apiKey path uri verifier code = (fs, Inr s)"
  shows "rs_tokenPath s = path \<and> rs_apiKey s = apiKey \<and> rs_refreshToken s \<noteq> []
    \<and> fs = fs0(path \<mapsto> rs_refreshToken s @ newline) \<and> (answers_visible c \<longrightarrow> list_all visible (rs_refreshToken s))"
  using assms exchange_visible(3) [of c]
  by (auto simp: finish_sign_in_def writeTokenFile_ok split: if_splits sum.splits prod.splits option.splits)

lemma GoogleSignIn_ok:
  assumes "GoogleSignIn c sha256 e fs0 clientID secret apiKey path = (fs, Inr s)"
  shows "apiKey \<noteq> [] \<and> path \<noteq> [] \<and> (\<exists>port verifier state q. si_port e = Some port \<and> si_verifier e = Some verifier \<and> si_state e = Some state
    \<and> si_openBrowser e (buildGoogleAuthURL c clientID (''http://127.0.0.1:'' @ port)
         (pkceChallenge sha256 (RawURL_EncodeToString verifier)) (RawURL_EncodeToString state))
    \<and> si_event e = SignCallback q \<and> q ''error'' = [] \<and> q ''state'' = RawURL_EncodeToString state \<and> q ''code'' \<noteq> []
    \<and> finish_sign_in c e fs0 clientID secret apiKey path (''http://127.0.0.1:'' @ port) (RawURL_EncodeToString verifier) (q ''code'')
        = (fs, Inr s))"
  using assms
  by (auto simp: GoogleSignIn_def callback_result_def randomURLToken_def Let_def
      split: if_splits option.splits sum.splits sign_in_ev.splits prod.splits)

lemma GoogleSignIn_failed:
  assumes "GoogleSignIn c sha256 e fs0 clientID secret apiKey path = (fs, Inl err)"
  shows "fs = fs0 \<or> err = WriteErr"
  using assms
  by (auto simp: GoogleSignIn_def finish_sign_in_def writeTokenFile_def Let_def
      split: if_splits option.splits sum.splits sign_in_ev.splits prod.splits write_out.splits)

lemma GoogleSignIn_persisted:
  assumes "answers_visible c" and "GoogleSignIn c sha256 e fs0 clientID secret apiKey path = (fs, Inr s)"
  shows "persisted (s, fs)"
  using assms(1) GoogleSignIn_ok [OF assms(2)] finish_sign_in_ok
  by (fastforce simp: persisted_def TrimSpace_token)

lemma refresh_Token_persisted:
  assumes "answers_visible c" and "persisted st" and "tc_write call = WriteOk"
  shows "persisted (fst (refresh_Token c st call))"
  using assms(2,3) exchange_visible(1) [OF assms(1)]
  by (auto simp: refresh_Token_def persisted_def Let_def writeTokenFile_def TrimSpace_token split: sum.splits prod.splits option.splits)

lemma token_run_persisted:
  assumes "answers_visible c" and "persisted st" and "\<forall>call \<in> set calls. tc_write call = WriteOk"
  shows "persisted (fst (token_run (refresh_Token c) st calls))"
  using assms(2,3)
proof (induction calls arbitrary: st)
  case (Cons call calls)
  then show ?case using refresh_Token_persisted [OF assms(1), of st call] by (simp add: fst_token_run del: token_run.simps)
qed simp

text \<open>C27: However a source was obtained, from the file, by a pairing code or by a browser sign-in, and
  whatever refresh tokens the service rotates in, a restart continues with the token the source held
  last, as long as the token files could be written.\<close>

theorem refresh_token_survives_restart:
  assumes "answers_visible c"
    and "NewRefreshSource fs path key = Inr s
      \<or> Pair_codes c do fs0 w now projectID region key code path = (fs, Inr s)
      \<or> GoogleSignIn c sha256 e fs0 clientID secret key path = (fs, Inr s)"
    and "\<forall>call \<in> set calls. tc_write call = WriteOk"
    and "token_run (refresh_Token c) (s, fs) calls = ((s', fs'), rs)"
  shows "\<exists>s2. NewRefreshSource fs' (rs_tokenPath s') (rs_apiKey s') = Inr s2 \<and> rs_refreshToken s2 = rs_refreshToken s'"
proof -
  have "persisted (s, fs)"
    using assms(2) by (auto dest: NewRefreshSource_persisted Pair_persisted [OF assms(1)] GoogleSignIn_persisted [OF assms(1)])
  then have "persisted (s', fs')" using token_run_persisted [OF assms(1) _ assms(3), of "(s, fs)"] assms(4) by simp
  then show ?thesis by (auto simp: persisted_def NewRefreshSource_def)
qed

lemma demo_answers_visible: "answers_visible demo_codecs"
  by (auto simp: answers_visible_def demo_codecs_def visible_def)

theorem refresh_token_survives_restart_witness:
  "\<exists>fs s' fs' s2. Pair_codes demo_codecs demo_do Map.empty WriteOk 0 ''p'' ''r'' ''k'' ''123456'' ''f'' = (fs, Inr s2)
     \<and> fst (token_run (refresh_Token demo_codecs) (s2, fs) [demo_call (2 * hour)]) = (s', fs') \<and> rs_refreshToken s' = ''r2''
     \<and> (\<exists>s3. NewRefreshSource fs' ''f'' ''k'' = Inr s3 \<and> rs_refreshToken s3 = ''r2'')"
proof -
  define s where "s = \<lparr>rs_apiKey = ''k'', rs_tokenPath = ''f'', rs_refreshToken = ''r1'', rs_uid = ''u'', rs_idToken = ''id'', rs_expires = hour\<rparr>"
  define fs where "fs = [''f'' \<mapsto> ''r1'' @ newline]"
  have p: "Pair_codes demo_codecs demo_do Map.empty WriteOk 0 ''p'' ''r'' ''k'' ''123456'' ''f'' = (fs, Inr s)"
    by (simp add: Pair_codes_def demo_firebase looksLikeSixDigits_def claimPairingCode_def signInWithCustomToken_def post_def
        token_response_def expires_in_def writeTokenFile_def expiry_of_def s_def fs_def second_def hour_def minute_def)
  have r: "token_run (refresh_Token demo_codecs) (s, fs) [demo_call (2 * hour)]
      = ((s\<lparr>rs_refreshToken := ''r2'', rs_expires := 3 * hour\<rparr>, [''f'' \<mapsto> ''r2'' @ newline]), [Inr ''id''])"
    by (simp add: demo_firebase refresh_Token_def exchangeRefreshTokenForIDToken_def post_def token_response_def expires_in_def
        writeTokenFile_def expiry_of_def s_def fs_def second_def minute_def hour_def)
  show ?thesis
    using refresh_token_survives_restart [OF demo_answers_visible disjI2 [OF disjI1 [OF p]] _ r] p r
    by (auto simp: s_def demo_call_def)
qed

lemma refresh_Token_unrotated:
  assumes "\<forall>raw f. j_refresh c raw = Some f \<longrightarrow> fi_RefreshToken f = [] \<or> fi_RefreshToken f = r" and "rs_refreshToken s = r"
  shows "\<exists>s' res. refresh_Token c (s, fs) call = ((s', fs), res) \<and> rs_refreshToken s' = r"
  using assms
  by (auto simp: refresh_Token_def exchangeRefreshTokenForIDToken_def token_response_def Let_def split: sum.splits option.splits)

text \<open>A rotated refresh token that could not be written is not written later either: as long as the service
  does not rotate again, the file keeps what the failed write left, and a restart does not get the
  token the source holds.\<close>

theorem failed_persist_not_retried:
  assumes "refresh_Token c (s, fs) call = ((s1, fs1), Inl WriteErr)" and "tc_write call = WriteFails left"
    and "\<forall>raw f. j_refresh c raw = Some f \<longrightarrow> fi_RefreshToken f = [] \<or> fi_RefreshToken f = rs_refreshToken s1"
    and "token_run (refresh_Token c) (s1, fs1) calls = ((s', fs'), rs)"
  shows "fs' (rs_tokenPath s) = left \<and> rs_refreshToken s' = rs_refreshToken s1 \<and> rs_refreshToken s1 \<noteq> rs_refreshToken s"
proof -
  have one: "fs1 (rs_tokenPath s) = left" "rs_refreshToken s1 \<noteq> rs_refreshToken s"
    using assms(1,2)
    by (auto simp: refresh_Token_def exchangeRefreshTokenForIDToken_def post_def writeTokenFile_def Let_def
        split: if_splits sum.splits prod.splits option.splits)
  have "fs2 = fs1 \<and> rs_refreshToken s2 = rs_refreshToken s1"
    if "token_run (refresh_Token c) (t, fs1) calls = ((s2, fs2), rs2)" "rs_refreshToken t = rs_refreshToken s1" for t s2 fs2 rs2
    using that
  proof (induction calls arbitrary: t rs2)
    case (Cons call calls)
    obtain t' r where t': "refresh_Token c (t, fs1) call = ((t', fs1), r)" "rs_refreshToken t' = rs_refreshToken s1"
      using refresh_Token_unrotated [OF assms(3) Cons.prems(2), of fs1 call] by blast
    then show ?case using Cons.prems(1) Cons.IH [OF _ t'(2)] by (auto split: prod.splits)
  qed simp
  then show ?thesis using assms(4) one by blast
qed

theorem failed_persist_not_retried_witness:
  "\<exists>s1 fs1 s' fs' rs. refresh_Token demo_codecs (demo_source, [''f'' \<mapsto> ''r1'']) ((demo_call 0)\<lparr>tc_write := WriteFails (Some ''r1'')\<rparr>) = ((s1, fs1), Inl WriteErr)
     \<and> token_run (refresh_Token demo_codecs) (s1, fs1) [demo_call minute, demo_call (2 * hour)] = ((s', fs'), rs)
     \<and> fs' ''f'' = Some ''r1'' \<and> rs_refreshToken s' \<noteq> ''r1''"
proof -
  let ?call = "(demo_call 0)\<lparr>tc_write := WriteFails (Some ''r1'')\<rparr>"
  obtain s1 fs1 where s1: "refresh_Token demo_codecs (demo_source, [''f'' \<mapsto> ''r1'']) ?call = ((s1, fs1), Inl WriteErr)"
      "rs_refreshToken s1 = ''r2''"
    by (simp add: demo_firebase refresh_Token_def exchangeRefreshTokenForIDToken_def post_def token_response_def expires_in_def
        writeTokenFile_def)
  obtain s' fs' rs where r: "token_run (refresh_Token demo_codecs) (s1, fs1) [demo_call minute, demo_call (2 * hour)] = ((s', fs'), rs)"
    by (metis surj_pair)
  show ?thesis
    using failed_persist_not_retried [OF s1(1) _ _ r] s1 r by (auto simp: demo_codecs_def demo_source_def)
qed

section \<open>What a sign-in establishes\<close>

text \<open>C29: A browser sign-in succeeds only on a callback that carries the random state the opened address
  carried and no error; the code it brings is redeemed with the verifier whose challenge that
  address announced; and exactly then the refresh token is on disk. Without success no token is
  written, except what a failed write of a verified token leaves.\<close>

theorem google_sign_in_bound:
  assumes "GoogleSignIn c sha256 e fs0 clientID secret key path = (fs, res)"
  shows "(\<forall>s. res = Inr s \<longrightarrow>
      (\<exists>port vb sb q t. si_verifier e = Some vb \<and> si_state e = Some sb
         \<and> si_openBrowser e (buildGoogleAuthURL c clientID (''http://127.0.0.1:'' @ port)
              (pkceChallenge sha256 (RawURL_EncodeToString vb)) (RawURL_EncodeToString sb))
         \<and> si_event e = SignCallback q \<and> q ''error'' = [] \<and> RawURL_DecodeString (q ''state'') = Some sb
         \<and> exchangeAuthCodeForGoogleIDToken c (si_do e) clientID secret (q ''code'') (''http://127.0.0.1:'' @ port)
              (RawURL_EncodeToString vb) = Inr t)
      \<and> fs = fs0(path \<mapsto> rs_refreshToken s @ newline) \<and> rs_refreshToken s \<noteq> [])
    \<and> (\<forall>err. res = Inl err \<longrightarrow> fs = fs0 \<or> err = WriteErr)"
proof (intro conjI allI impI)
  fix s assume r: "res = Inr s"
  note ok = GoogleSignIn_ok [OF assms [unfolded r]]
  then obtain port vb sb q where q: "si_verifier e = Some vb" "si_state e = Some sb"
    "si_openBrowser e (buildGoogleAuthURL c clientID (''http://127.0.0.1:'' @ port)
       (pkceChallenge sha256 (RawURL_EncodeToString vb)) (RawURL_EncodeToString sb))"
    "si_event e = SignCallback q" "q ''error'' = []" "q ''state'' = RawURL_EncodeToString sb"
    "finish_sign_in c e fs0 clientID secret key path (''http://127.0.0.1:'' @ port) (RawURL_EncodeToString vb) (q ''code'') = (fs, Inr s)"
    by blast
  show "fs = fs0(path \<mapsto> rs_refreshToken s @ newline)" "rs_refreshToken s \<noteq> []" using finish_sign_in_ok [OF q(7)] by blast+
  obtain t where "exchangeAuthCodeForGoogleIDToken c (si_do e) clientID secret (q ''code'') (''http://127.0.0.1:'' @ port)
      (RawURL_EncodeToString vb) = Inr t"
    using q(7) by (auto simp: finish_sign_in_def split: sum.splits)
  then show "\<exists>port vb sb q t. si_verifier e = Some vb \<and> si_state e = Some sb
         \<and> si_openBrowser e (buildGoogleAuthURL c clientID (''http://127.0.0.1:'' @ port)
              (pkceChallenge sha256 (RawURL_EncodeToString vb)) (RawURL_EncodeToString sb))
         \<and> si_event e = SignCallback q \<and> q ''error'' = [] \<and> RawURL_DecodeString (q ''state'') = Some sb
         \<and> exchangeAuthCodeForGoogleIDToken c (si_do e) clientID secret (q ''code'') (''http://127.0.0.1:'' @ port)
              (RawURL_EncodeToString vb) = Inr t"
    using q by (metis RawURL_round_trip)
next
  fix err assume "res = Inl err"
  then show "fs = fs0 \<or> err = WriteErr" using assms GoogleSignIn_failed by blast
qed

definition demo_sign_in :: "(string \<Rightarrow> string) \<Rightarrow> sign_in_env" where
  "demo_sign_in q = \<lparr>si_port = Some ''4000'', si_verifier = Some [1], si_state = Some [2], si_openBrowser = (\<lambda>u. True),
     si_event = SignCallback q, si_do = demo_do, si_write = WriteOk, si_now = 0\<rparr>"

definition demo_query :: "string \<Rightarrow> string" where
  "demo_query k = (if k = ''state'' then RawURL_EncodeToString [2] else if k = ''code'' then ''c'' else [])"

theorem google_sign_in_bound_witness:
  "\<exists>s. GoogleSignIn demo_codecs id (demo_sign_in demo_query) Map.empty ''cl'' [] ''k'' ''f'' = ([''f'' \<mapsto> ''r1'' @ newline], Inr s)
     \<and> RawURL_DecodeString (demo_query ''state'') = Some [2]"
proof -
  obtain fs s where r: "GoogleSignIn demo_codecs id (demo_sign_in demo_query) Map.empty ''cl'' [] ''k'' ''f'' = (fs, Inr s)" "rs_refreshToken s = ''r1''"
    by (simp add: GoogleSignIn_def demo_sign_in_def demo_query_def randomURLToken_def callback_result_def finish_sign_in_def
        exchangeAuthCodeForGoogleIDToken_def signInWithGoogleIDToken_def post_def demo_firebase token_response_def writeTokenFile_def)
  then show ?thesis using google_sign_in_bound [OF r(1)] by (auto simp: demo_sign_in_def)
qed

end
