(* ===== verification/Update.thy ===== *)
theory Update
  imports Rtdb
begin

text \<open>
  \<^verbatim>\<open>windows/cmd/peershd/update.go\<close>: the host replaces its own executable by the binary of the latest
  release. The release service is a function from addresses to responses, the digest is an
  argument, the files are a map from paths to contents, and what the operating system decides
  (whether a file can be created, renamed or removed) is part of the environment of a run.
\<close>

section \<open>Choosing and checking a release\<close>

record releaseAsset =
  ra_Name :: string
  ra_URL :: string

record gh_release =
  rl_TagName :: string
  rl_Assets :: "releaseAsset list"

datatype update_err = NoRepo | FlagErr | FetchRelease | NoAsset string | SelfPath | ResolveSelf | DownloadErr | FetchSum
  | HashErr | ChecksumMismatch string string | NoSumSibling | RenameLocked | RenameOld | RenameNew

type_synonym http_get = "string \<Rightarrow> (nat \<times> bytes) option"

definition text_of :: "bytes \<Rightarrow> string" where
  "text_of bs = map char_of_byte bs"

definition fetchLatestRelease :: "(bytes \<Rightarrow> gh_release option) \<Rightarrow> http_get \<Rightarrow> string \<Rightarrow> gh_release option" where
  "fetchLatestRelease decode get repo =
     (case get (''https://api.github.com/repos/'' @ repo @ ''/releases/latest'') of
        None \<Rightarrow> None
      | Some (status, body) \<Rightarrow>
          if status \<noteq> 200 then None
          else (case decode body of None \<Rightarrow> None | Some rel \<Rightarrow> if rl_TagName rel = [] then None else Some rel))"

text \<open>The loop over the assets: an exact name always replaces the choice, a name with the platform's
  prefix only fills an empty one.\<close>

fun pick_bin :: "string \<Rightarrow> string \<Rightarrow> string \<Rightarrow> releaseAsset option \<Rightarrow> releaseAsset list \<Rightarrow> releaseAsset option" where
  "pick_bin want base exeSuffix bin [] = bin"
| "pick_bin want base exeSuffix bin (a # as) =
     (let bin1 = (if ra_Name a = want @ exeSuffix \<or> ra_Name a = base @ exeSuffix then Some a else bin);
          bin2 = (if bin1 = None \<and> HasPrefix (ra_Name a) want \<and> \<not> HasSuffix (ra_Name a) ''.sha256'' then Some a else bin1)
      in pick_bin want base exeSuffix bin2 as)"

definition pickAssets :: "string \<Rightarrow> string \<Rightarrow> releaseAsset list \<Rightarrow> string \<Rightarrow> (releaseAsset \<times> releaseAsset option) option" where
  "pickAssets goos goarch assets base =
     (let want = base @ ''-'' @ goos @ ''-'' @ goarch;
          exeSuffix = (if goos = ''windows'' then ''.exe'' else [])
      in case pick_bin want base exeSuffix None assets of
           None \<Rightarrow> None
         | Some bin \<Rightarrow> Some (bin, find (\<lambda>a. ra_Name a = ra_Name bin @ ''.sha256'' \<or> ra_Name a = ''SHA256SUMS'') assets))"

text \<open>\<^verbatim>\<open>strings.Fields\<close> cuts a string at runs of the code points \<^verbatim>\<open>strings.TrimSpace\<close> removes.\<close>

function fields_from :: "string \<Rightarrow> string \<Rightarrow> string list" where
  "fields_from w [] = (if w = [] then [] else [rev w])"
| "fields_from w (c # cs) =
     (case find (\<lambda>e. e \<noteq> [] \<and> HasPrefix (c # cs) e) space_encodings of
        None \<Rightarrow> fields_from (c # w) cs
      | Some e \<Rightarrow> (if w = [] then [] else [rev w]) @ fields_from [] (drop (length e) (c # cs)))"
  by pat_completeness auto
termination
proof (relation "measure (\<lambda>(w, s). length s)", simp, simp)
  fix w c cs e
  assume "find (\<lambda>e. e \<noteq> [] \<and> HasPrefix (c # cs) e) space_encodings = Some e"
  then have "e \<noteq> []" by (auto simp: find_Some_iff)
  then show "(([], drop (length e) (c # cs)), w, c # cs) \<in> measure (\<lambda>(w, s). length s)" by (cases e) auto
qed

definition Fields :: "string \<Rightarrow> string list" where
  "Fields s = fields_from [] s"

fun expected_digest :: "string \<Rightarrow> string list \<Rightarrow> string option" where
  "expected_digest binaryName [] = None"
| "expected_digest binaryName (l # ls) =
     (let line = TrimSpace l; fields = Fields line
      in if line = [] \<or> HasPrefix line ''#'' then expected_digest binaryName ls
         else if length fields = 1 \<and> length (fields ! 0) = 64 then Some (ToLower (fields ! 0))
         else if length fields \<ge> 2 \<and> HasSuffix (last fields) binaryName then Some (ToLower (fields ! 0))
         else expected_digest binaryName ls)"

definition fetchExpectedSHA256 :: "http_get \<Rightarrow> string \<Rightarrow> string \<Rightarrow> string option" where
  "fetchExpectedSHA256 get u binaryName =
     (case get u of
        None \<Rightarrow> None
      | Some (status, body) \<Rightarrow>
          if status \<noteq> 200 then None
          else expected_digest binaryName (split_on (char_of (10 :: nat)) (TrimSpace (text_of body))))"

definition normalizeVersion :: "string \<Rightarrow> string" where
  "normalizeVersion v = (let t = TrimSpace v in if HasPrefix t ''v'' then drop 1 t else t)"

definition isFileInUse :: "string \<Rightarrow> bool \<Rightarrow> bool \<Rightarrow> bool" where
  "isFileInUse goos sharing_violation text_matches \<longleftrightarrow> goos = ''windows'' \<and> (sharing_violation \<or> text_matches)"

section \<open>The installation\<close>

type_synonym file_map = "string \<Rightarrow> bytes option"

text \<open>A rename that is not permitted, or of a missing file, changes nothing.\<close>

definition rename :: "bool \<Rightarrow> string \<Rightarrow> string \<Rightarrow> file_map \<Rightarrow> file_map \<times> bool" where
  "rename permitted src dst fs =
     (case fs src of
        None \<Rightarrow> (fs, False)
      | Some body \<Rightarrow> if permitted then (fs(src := None, dst \<mapsto> body), True) else (fs, False))"

definition remove_file :: "bool \<Rightarrow> string \<Rightarrow> file_map \<Rightarrow> file_map" where
  "remove_file permitted path fs = (if permitted then fs(path := None) else fs)"

datatype copy_out = OpenFails | CopyFails bytes | CopyOk

definition downloadFile :: "http_get \<Rightarrow> copy_out \<Rightarrow> string \<Rightarrow> string \<Rightarrow> file_map \<Rightarrow> file_map \<times> bool" where
  "downloadFile get w u dst fs =
     (case get u of
        None \<Rightarrow> (fs, False)
      | Some (status, body) \<Rightarrow>
          if status \<noteq> 200 then (fs, False)
          else (case w of
                  OpenFails \<Rightarrow> (fs, False)
                | CopyFails partial \<Rightarrow> (fs(dst \<mapsto> partial), False)
                | CopyOk \<Rightarrow> (fs(dst \<mapsto> body), True)))"

definition sha256File :: "(bytes \<Rightarrow> bytes) \<Rightarrow> bool \<Rightarrow> string \<Rightarrow> file_map \<Rightarrow> string option" where
  "sha256File sha256 readable path fs =
     (case fs path of None \<Rightarrow> None | Some body \<Rightarrow> if readable then Some (hex_encode (sha256 body)) else None)"

record update_env =
  up_Repo :: string
  up_Version :: string
  up_goos :: string
  up_goarch :: string
  up_flags :: "(bool \<times> bool) option"
  up_decode :: "bytes \<Rightarrow> gh_release option"
  up_get :: http_get
  up_exe :: "string option"
  up_eval :: "string \<Rightarrow> string option"
  up_copy :: copy_out
  up_readable :: bool
  up_sha256 :: "bytes \<Rightarrow> bytes"
  up_remove_old :: bool
  up_rename_old :: bool
  up_in_use :: bool
  up_rename_new :: bool
  up_restore :: bool
  up_remove_final :: bool
  up_remove_new :: bool

datatype update_out = UpToDate | NewerAvailable | Updated | UpdateErr update_err

text \<open>The swap: the running binary is moved aside, the verified one takes its place, and if that fails the
  old one is put back.\<close>

definition swap :: "update_env \<Rightarrow> string \<Rightarrow> file_map \<Rightarrow> file_map \<times> update_out" where
  "swap e exePath fs =
     (let newPath = exePath @ ''.new''; oldPath = exePath @ ''.old'';
          fs1 = remove_file (up_remove_old e) oldPath fs
      in case rename (up_rename_old e) exePath oldPath fs1 of
           (fs2, False) \<Rightarrow> (fs2, UpdateErr (if up_in_use e then RenameLocked else RenameOld))
         | (fs2, True) \<Rightarrow>
             (case rename (up_rename_new e) newPath exePath fs2 of
                (fs3, False) \<Rightarrow> (fst (rename (up_restore e) oldPath exePath fs3), UpdateErr RenameNew)
              | (fs3, True) \<Rightarrow> (remove_file (up_remove_final e) oldPath fs3, Updated)))"

text \<open>Download, verification and swap, followed by the deferred removal of the download.\<close>

definition install :: "update_env \<Rightarrow> releaseAsset \<Rightarrow> releaseAsset option \<Rightarrow> string \<Rightarrow> file_map \<Rightarrow> file_map \<times> update_out" where
  "install e asset sumAsset exePath fs =
     (let newPath = exePath @ ''.new''
      in case downloadFile (up_get e) (up_copy e) (ra_URL asset) newPath fs of
           (fs1, False) \<Rightarrow> (fs1, UpdateErr DownloadErr)
         | (fs1, True) \<Rightarrow>
             (case sumAsset of
                None \<Rightarrow> (fs1, UpdateErr NoSumSibling)
              | Some s \<Rightarrow>
                 (case fetchExpectedSHA256 (up_get e) (ra_URL s) (ra_Name asset) of
                    None \<Rightarrow> (fs1, UpdateErr FetchSum)
                  | Some want \<Rightarrow>
                     (case sha256File (up_sha256 e) (up_readable e) newPath fs1 of
                        None \<Rightarrow> (fs1, UpdateErr HashErr)
                      | Some got \<Rightarrow> if want \<noteq> got then (fs1, UpdateErr (ChecksumMismatch want got)) else swap e exePath fs1))))"

text \<open>Everything before the download: what to install and where.\<close>

definition update_plan :: "update_env \<Rightarrow> update_out + (releaseAsset \<times> releaseAsset option \<times> string)" where
  "update_plan e =
     (if up_Repo e = [] then Inl (UpdateErr NoRepo)
      else
       (case up_flags e of
          None \<Rightarrow> Inl (UpdateErr FlagErr)
        | Some (checkOnly, force) \<Rightarrow>
           (case fetchLatestRelease (up_decode e) (up_get e) (up_Repo e) of
              None \<Rightarrow> Inl (UpdateErr FetchRelease)
            | Some rel \<Rightarrow>
                if \<not> force \<and> normalizeVersion (up_Version e) = normalizeVersion (rl_TagName rel) then Inl UpToDate
                else if checkOnly then Inl NewerAvailable
                else
                 (case pickAssets (up_goos e) (up_goarch e) (rl_Assets rel) ''peershd'' of
                    None \<Rightarrow> Inl (UpdateErr (NoAsset ''peershd''))
                  | Some (asset, sumAsset) \<Rightarrow>
                     (case up_exe e of
                        None \<Rightarrow> Inl (UpdateErr SelfPath)
                      | Some exe \<Rightarrow>
                         (case up_eval e exe of
                            None \<Rightarrow> Inl (UpdateErr ResolveSelf)
                          | Some exePath \<Rightarrow> Inr (asset, sumAsset, exePath)))))))"

definition runUpdate :: "update_env \<Rightarrow> file_map \<Rightarrow> file_map \<times> update_out" where
  "runUpdate e fs =
     (case update_plan e of
        Inl out \<Rightarrow> (fs, out)
      | Inr (asset, sumAsset, exePath) \<Rightarrow>
         (case install e asset sumAsset exePath fs of
            (fs', out) \<Rightarrow> (remove_file (up_remove_new e) (exePath @ ''.new'') fs', out)))"

section \<open>What an update can do to the executable\<close>

text \<open>The download has the digest that the release announces for it.\<close>

definition checked :: "update_env \<Rightarrow> releaseAsset \<Rightarrow> releaseAsset option \<Rightarrow> bytes \<Rightarrow> bool" where
  "checked e asset sumAsset body \<longleftrightarrow>
     (\<exists>s. sumAsset = Some s \<and> up_get e (ra_URL asset) = Some (200, body)
        \<and> fetchExpectedSHA256 (up_get e) (ra_URL s) (ra_Name asset) = Some (hex_encode (up_sha256 e body)))"

text \<open>Afterwards the executable is the old one, or an acceptable new one, or it was moved aside and
  could not be put back.\<close>

definition exe_after :: "update_env \<Rightarrow> string \<Rightarrow> bytes \<Rightarrow> (bytes \<Rightarrow> bool) \<Rightarrow> file_map \<times> update_out \<Rightarrow> bool" where
  "exe_after e p old ok r \<longleftrightarrow>
     (fst r p = Some old \<and> snd r \<noteq> Updated)
     \<or> (\<exists>body. ok body \<and> fst r p = Some body \<and> snd r = Updated)
     \<or> (\<not> up_rename_new e \<and> \<not> up_restore e \<and> fst r p = None \<and> fst r (p @ ''.old'') = Some old \<and> snd r = UpdateErr RenameNew)"

definition others_kept :: "string \<Rightarrow> file_map \<Rightarrow> file_map \<Rightarrow> bool" where
  "others_kept p fs fs' \<longleftrightarrow> (\<forall>q. q = p \<or> q = p @ ''.new'' \<or> q = p @ ''.old'' \<or> fs' q = fs q)"

lemma swap_effect:
  assumes "fs p = Some old" and "fs (p @ ''.new'') = Some body" and "ok body"
  shows "exe_after e p old ok (swap e p fs) \<and> others_kept p fs (fst (swap e p fs))"
  using assms
  by (auto simp: exe_after_def others_kept_def swap_def Let_def rename_def remove_file_def split: prod.splits bool.splits option.splits if_splits)

lemma downloadFile_effect:
  assumes "downloadFile get w u dst fs = (fs', ok)"
  shows "q \<noteq> dst \<Longrightarrow> fs' q = fs q" and "ok \<Longrightarrow> \<exists>body. get u = Some (200, body) \<and> fs' dst = Some body"
  using assms by (auto simp: downloadFile_def split: option.splits prod.splits if_splits copy_out.splits)

lemma install_effect:
  assumes "fs p = Some old"
  shows "exe_after e p old (checked e asset sumAsset) (install e asset sumAsset p fs) \<and> others_kept p fs (fst (install e asset sumAsset p fs))"
proof -
  obtain fs1 ok where d: "downloadFile (up_get e) (up_copy e) (ra_URL asset) (p @ ''.new'') fs = (fs1, ok)" by fastforce
  note eff = downloadFile_effect [OF d]
  have p: "fs1 p = Some old" using eff(1) [of p] assms by simp
  have i: "install e asset sumAsset p fs = (if \<not> ok then (fs1, UpdateErr DownloadErr)
      else case sumAsset of
             None \<Rightarrow> (fs1, UpdateErr NoSumSibling)
           | Some s \<Rightarrow>
              (case fetchExpectedSHA256 (up_get e) (ra_URL s) (ra_Name asset) of
                 None \<Rightarrow> (fs1, UpdateErr FetchSum)
               | Some want \<Rightarrow>
                  (case sha256File (up_sha256 e) (up_readable e) (p @ ''.new'') fs1 of
                     None \<Rightarrow> (fs1, UpdateErr HashErr)
                   | Some got \<Rightarrow> if want \<noteq> got then (fs1, UpdateErr (ChecksumMismatch want got)) else swap e p fs1)))"
    by (cases ok) (simp_all add: install_def d del: append.simps)
  consider "fst (install e asset sumAsset p fs) = fs1" "snd (install e asset sumAsset p fs) \<noteq> Updated"
    | body where "fs1 (p @ ''.new'') = Some body" "checked e asset sumAsset body" "install e asset sumAsset p fs = swap e p fs1"
  proof (cases ok)
    case False
    then show ?thesis using that(1) by (simp add: i)
  next
    case True
    then obtain body where body: "up_get e (ra_URL asset) = Some (200, body)" "fs1 (p @ ''.new'') = Some body" using eff(2) by blast
    show ?thesis
    proof (cases "checked e asset sumAsset body \<and> up_readable e")
      case t: True
      then show ?thesis using that(2) [OF body(2)] True body unfolding i by (auto simp: checked_def sha256File_def)
    next
      case f: False
      then have "fst (install e asset sumAsset p fs) = fs1 \<and> snd (install e asset sumAsset p fs) \<noteq> Updated"
        using True body unfolding i by (auto simp: checked_def sha256File_def split: option.splits)
      then show ?thesis using that(1) by blast
    qed
  qed
  then show ?thesis
  proof cases
    case 1
    then show ?thesis using p eff(1) by (auto simp: exe_after_def others_kept_def)
  next
    case (2 body)
    then show ?thesis using swap_effect [where ok = "checked e asset sumAsset", OF p 2(1,2), of e] eff(1)
      unfolding others_kept_def by metis
  qed
qed

lemma update_plan_Inl: "update_plan e = Inl out \<Longrightarrow> out \<noteq> Updated"
  by (auto simp: update_plan_def split: if_splits option.splits)

lemma update_plan_Inr:
  assumes "update_plan e = Inr r"
  shows "\<exists>rel asset sumAsset x p. fetchLatestRelease (up_decode e) (up_get e) (up_Repo e) = Some rel
    \<and> pickAssets (up_goos e) (up_goarch e) (rl_Assets rel) ''peershd'' = Some (asset, sumAsset)
    \<and> up_exe e = Some x \<and> up_eval e x = Some p \<and> r = (asset, sumAsset, p)"
  using assms by (auto simp: update_plan_def split: if_splits option.splits)

text \<open>C13: Whatever fails during an update, the executable afterwards is the old one, or the binary the
  platform's asset of the latest release downloads, with the digest that release announces for it;
  only if moving it into place fails and moving the old binary back fails too, the executable is
  missing, and then the old one is still there under its second name. No other file changes.\<close>

theorem update_installs_verified:
  assumes "up_exe e = Some x" and "up_eval e x = Some p" and "fs p = Some old"
  shows "exe_after e p old
      (\<lambda>body. \<exists>rel asset sumAsset. fetchLatestRelease (up_decode e) (up_get e) (up_Repo e) = Some rel
          \<and> pickAssets (up_goos e) (up_goarch e) (rl_Assets rel) ''peershd'' = Some (asset, sumAsset) \<and> checked e asset sumAsset body)
      (runUpdate e fs)
    \<and> others_kept p fs (fst (runUpdate e fs))"
proof -
  let ?ok = "\<lambda>body. \<exists>rel asset sumAsset. fetchLatestRelease (up_decode e) (up_get e) (up_Repo e) = Some rel
          \<and> pickAssets (up_goos e) (up_goarch e) (rl_Assets rel) ''peershd'' = Some (asset, sumAsset) \<and> checked e asset sumAsset body"
  show ?thesis
  proof (cases "update_plan e")
    case (Inl out)
    then show ?thesis using assms(3) update_plan_Inl [OF Inl] by (simp add: runUpdate_def exe_after_def others_kept_def)
  next
    case (Inr r)
    then obtain asset sumAsset where r: "r = (asset, sumAsset, p)" and ok: "checked e asset sumAsset body \<Longrightarrow> ?ok body" for body
      using update_plan_Inr [of e r] assms(1,2) by fastforce
    obtain fs' out where i: "install e asset sumAsset p fs = (fs', out)" by fastforce
    have "exe_after e p old ?ok (fs', out)" "others_kept p fs fs'"
      using install_effect [of fs p old e asset sumAsset, OF assms(3)] ok unfolding i exe_after_def by (simp_all, blast)
    then show ?thesis unfolding runUpdate_def Inr r by (auto simp: i exe_after_def others_kept_def remove_file_def)
  qed
qed

definition demo_update :: update_env where
  "demo_update = \<lparr>up_Repo = ''o/r'', up_Version = ''1'', up_goos = ''linux'', up_goarch = ''amd64'', up_flags = Some (False, False),
     up_decode = (\<lambda>b. Some \<lparr>rl_TagName = ''v2'', rl_Assets = [\<lparr>ra_Name = ''peershd-linux-amd64'', ra_URL = ''b''\<rparr>, \<lparr>ra_Name = ''SHA256SUMS'', ra_URL = ''s''\<rparr>]\<rparr>),
     up_get = (\<lambda>u. Some (200, if u = ''s'' then map byte_of_char ''0102 peershd-linux-amd64'' else [1, 2])),
     up_exe = Some ''x'', up_eval = Some, up_copy = CopyOk, up_readable = True, up_sha256 = id, up_remove_old = True,
     up_rename_old = True, up_in_use = False, up_rename_new = True, up_restore = True, up_remove_final = True, up_remove_new = True\<rparr>"

lemma fields_from_visible: "visible c \<Longrightarrow> fields_from w (c # cs) = fields_from (c # w) cs"
proof -
  assume v: "visible c"
  have "find (\<lambda>e. e \<noteq> [] \<and> HasPrefix (c # cs) e) space_encodings = None"
    using v space_encodings_not_visible HasPrefix_hd [of "c # cs"] by (auto simp: find_None_iff)
  then show ?thesis by simp
qed

lemma fields_from_space: "fields_from w (CHR '' '' # cs) = (if w = [] then [] else [rev w]) @ fields_from [] cs"
proof -
  have "char_of (9 :: nat) = CHR 0x09" "char_of (10 :: nat) = CHR 0x0A" "char_of (11 :: nat) = CHR 0x0B"
    "char_of (12 :: nat) = CHR 0x0C" "char_of (13 :: nat) = CHR 0x0D" "char_of (32 :: nat) = CHR '' ''"
    by code_simp+
  then have "find (\<lambda>e. e \<noteq> [] \<and> HasPrefix (CHR '' '' # cs) e) space_encodings = Some [CHR '' '']"
    by (simp add: space_encodings_def chars_def HasPrefix_def)
  then show ?thesis by simp
qed

lemma demo_plan:
  "update_plan demo_update = Inr (\<lparr>ra_Name = ''peershd-linux-amd64'', ra_URL = ''b''\<rparr>, Some \<lparr>ra_Name = ''SHA256SUMS'', ra_URL = ''s''\<rparr>, ''x'')"
proof -
  have "normalizeVersion ''1'' \<noteq> normalizeVersion ''v2''"
    by (simp add: normalizeVersion_def TrimSpace_visible visible_def HasPrefix_def)
  then show ?thesis by (simp add: update_plan_def demo_update_def fetchLatestRelease_def pickAssets_def HasPrefix_def HasSuffix_def)
qed

lemma demo_digest: "fetchExpectedSHA256 (up_get demo_update) ''s'' ''peershd-linux-amd64'' = Some ''0102''"
proof -
  let ?l = "''0102 peershd-linux-amd64''"
  have l: "TrimSpace ?l = ?l" by (rule TrimSpace_visible) (simp_all add: visible_def)
  have f: "Fields ?l = [''0102'', ''peershd-linux-amd64'']"
    by (simp add: Fields_def fields_from_visible fields_from_space visible_def del: fields_from.simps(2))
  have "text_of (map byte_of_char ?l) = ?l" by (simp add: text_of_def)
  moreover have "split_on (char_of (10 :: nat)) ?l = [?l]" by (rule split_on_single) code_simp
  ultimately show ?thesis
    using l f by (simp add: fetchExpectedSHA256_def demo_update_def HasPrefix_def HasSuffix_def del: list.map)
qed

theorem update_installs_verified_witness:
  "fst (runUpdate demo_update [''x'' \<mapsto> [9]]) ''x'' = Some [1, 2] \<and> snd (runUpdate demo_update [''x'' \<mapsto> [9]]) = Updated"
proof -
  let ?r = "runUpdate demo_update [''x'' \<mapsto> [9]]"
  have d: "hex_encode [1, 2] = ''0102''" by code_simp
  have "snd ?r = Updated"
    unfolding runUpdate_def demo_plan install_def
    using demo_digest d
    by (simp add: downloadFile_def sha256File_def swap_def rename_def remove_file_def demo_update_def)
  moreover have "body = [1, 2]"
    if "fetchLatestRelease (up_decode demo_update) (up_get demo_update) (up_Repo demo_update) = Some rel"
      "pickAssets (up_goos demo_update) (up_goarch demo_update) (rl_Assets rel) ''peershd'' = Some (asset, s)"
      "checked demo_update asset s body" for rel asset s body
  proof -
    have "asset = \<lparr>ra_Name = ''peershd-linux-amd64'', ra_URL = ''b''\<rparr>"
      using that(1,2) by (auto simp: demo_update_def fetchLatestRelease_def pickAssets_def HasPrefix_def HasSuffix_def)
    then show ?thesis using that(3) by (auto simp: checked_def) (simp add: demo_update_def)
  qed
  moreover have "up_exe demo_update = Some ''x''" "up_eval demo_update ''x'' = Some ''x''" by (simp_all add: demo_update_def)
  ultimately show ?thesis
    using update_installs_verified [of demo_update "''x''" "''x''" "[''x'' \<mapsto> [9]]" "[9]"]
    unfolding exe_after_def by auto
qed

text \<open>A release that offers both names installs the bare one when it is listed later.\<close>

lemma bare_asset_overrides_platform_asset:
  "pickAssets ''windows'' ''amd64'' [\<lparr>ra_Name = ''peershd-windows-amd64.exe'', ra_URL = u\<rparr>, \<lparr>ra_Name = ''peershd.exe'', ra_URL = v\<rparr>] ''peershd''
     = Some (\<lparr>ra_Name = ''peershd.exe'', ra_URL = v\<rparr>, None)"
  by (simp add: pickAssets_def)

end
