(* ===== verification/Prompt_Hook.thy ===== *)
theory Prompt_Hook
  imports Shell Cwd_Tracker
begin

text \<open>
  \<^verbatim>\<open>windows/shell/shell.go\<close>, the files that hook the prompts of zsh and bash, and the meeting of the
  three prompts (PowerShell, cmd, POSIX) with the tracker in \<^verbatim>\<open>windows/session\<close> that reads them. The
  temporary directory, the results of the writes and the way a shell prints its prompt are arguments.
\<close>

section \<open>The hook files\<close>

text \<open>The format of the emitter's \<^verbatim>\<open>printf\<close>.\<close>

definition osc_format :: string where
  "osc_format = [CHR 0x5C] @ ''e]9;9;%s'' @ [CHR 0x5C] @ ''a''"

definition oscHookEmitter :: string where
  "oscHookEmitter = ''_peersh_osc99() { printf '' @ [CHR 0x27] @ osc_format @ [CHR 0x27] @ '' '' @ [CHR 0x22] @ ''$PWD'' @ [CHR 0x22] @ ''; }''"

text \<open>Sources the user's own file of that name when it exists.\<close>

definition source_user :: "string \<Rightarrow> string" where
  "source_user f =
     (let q = [CHR 0x22] @ ''${HOME}/'' @ f @ [CHR 0x22] in ''[[ -f '' @ q @ '' ]] && source '' @ q @ line_feed)"

definition zsh_register :: string where
  "zsh_register =
     ''autoload -Uz add-zsh-hook 2>/dev/null && add-zsh-hook precmd _peersh_osc99 || precmd_functions+=(_peersh_osc99)'' @ line_feed"

definition bash_register :: string where
  "bash_register =
     ''case '' @ [CHR 0x22] @ '';${PROMPT_COMMAND};'' @ [CHR 0x22] @ '' in *'' @ [CHR 0x22] @ '';_peersh_osc99;'' @ [CHR 0x22]
     @ ''*) ;; *) PROMPT_COMMAND='' @ [CHR 0x22] @ ''_peersh_osc99${PROMPT_COMMAND:+;${PROMPT_COMMAND}}'' @ [CHR 0x22] @ '';; esac'' @ line_feed"

definition hook_files :: "(string \<times> string) list" where
  "hook_files =
     [(''.zshenv'', source_user ''.zshenv''),
      (''.zprofile'', source_user ''.zprofile''),
      (''.zshrc'', source_user ''.zshrc'' @ oscHookEmitter @ line_feed @ zsh_register),
      (''bashrc'', source_user ''.bash_profile'' @ source_user ''.bashrc'' @ oscHookEmitter @ line_feed @ bash_register)]"

datatype hook_err = TempDirErr | HookWriteErr string

text \<open>The package's variables; \<open>oscHookOnce\<close> tells whether the initialisation has run.\<close>

record hook_vars =
  oscHookOnce :: bool
  oscHookDir :: string
  oscHookBashRC :: string
  oscHookErr :: "hook_err option"
  hook_written :: "(string \<times> string) list"

definition hook_start :: hook_vars where
  "hook_start = \<lparr>oscHookOnce = False, oscHookDir = [], oscHookBashRC = [], oscHookErr = None, hook_written = []\<rparr>"

text \<open>The loop over the map, in the order it happens to iterate, up to the first write that fails.\<close>

fun write_hooks :: "string \<Rightarrow> (string \<Rightarrow> bool) \<Rightarrow> (string \<times> string) list \<Rightarrow> (string \<times> string) list \<times> string option" where
  "write_hooks dir write [] = ([], None)"
| "write_hooks dir write ((name, body) # fs) =
     (let p = Join2 dir name
      in if \<not> write p then ([], Some p)
         else (case write_hooks dir write fs of (w, e) \<Rightarrow> ((p, body) # w, e)))"

definition oscHookInit :: "string option \<Rightarrow> (string \<Rightarrow> bool) \<Rightarrow> (string \<times> string) list \<Rightarrow> hook_vars \<Rightarrow> hook_vars" where
  "oscHookInit mkdtemp write order v =
     (case mkdtemp of
        None \<Rightarrow> v\<lparr>oscHookErr := Some TempDirErr\<rparr>
      | Some dir \<Rightarrow>
         (case write_hooks dir write order of
            (w, Some p) \<Rightarrow> v\<lparr>oscHookErr := Some (HookWriteErr p), hook_written := w\<rparr>
          | (w, None) \<Rightarrow> v\<lparr>oscHookDir := dir, oscHookBashRC := Join2 dir ''bashrc'', hook_written := w\<rparr>))"

definition hook_Do :: "string option \<Rightarrow> (string \<Rightarrow> bool) \<Rightarrow> (string \<times> string) list \<Rightarrow> hook_vars \<Rightarrow> hook_vars" where
  "hook_Do mkdtemp write order v =
     (if oscHookOnce v then v else (oscHookInit mkdtemp write order v)\<lparr>oscHookOnce := True\<rparr>)"

definition oscHookZDOTDIR ::
  "string option \<Rightarrow> (string \<Rightarrow> bool) \<Rightarrow> (string \<times> string) list \<Rightarrow> hook_vars \<Rightarrow> hook_vars \<times> string \<times> hook_err option" where
  "oscHookZDOTDIR mkdtemp write order v =
     (let v' = hook_Do mkdtemp write order v in (v', oscHookDir v', oscHookErr v'))"

definition oscHookBashrc ::
  "string option \<Rightarrow> (string \<Rightarrow> bool) \<Rightarrow> (string \<times> string) list \<Rightarrow> hook_vars \<Rightarrow> hook_vars \<times> string \<times> hook_err option" where
  "oscHookBashrc mkdtemp write order v =
     (let v' = hook_Do mkdtemp write order v in (v', oscHookBashRC v', oscHookErr v'))"

text \<open>A failure is remembered: every later terminal of the process has no hook.\<close>

lemma hook_failure_sticky:
  assumes "oscHookZDOTDIR md w ord hook_start = (v, d, Some e)"
  shows "oscHookZDOTDIR md' w' ord' v = (v, [], Some e) \<and> oscHookBashrc md' w' ord' v = (v, [], Some e)"
  using assms
  by (auto simp: oscHookZDOTDIR_def oscHookBashrc_def hook_Do_def oscHookInit_def hook_start_def Let_def
      split: option.splits prod.splits if_splits)

section \<open>What the prompts print\<close>

text \<open>The prompts a shell may show: those of the POSIX hook, of cmd, and of PowerShell with the user's own prompt
  \<open>base\<close>, in a directory of the file system or elsewhere.\<close>

datatype prompt_kind = PosixPrompt | CmdPrompt | PsPrompt string | PsElsewhere string

text \<open>What follows \<^verbatim>\<open>prompt\<close> in cmd's last argument, and the string of the PowerShell function.\<close>

definition cmd_prompt :: string where
  "cmd_prompt = drop 7 (cmdArgs ! 2)"

definition ps_prompt :: string where
  "ps_prompt = ''$([char]27)]9;9;$($PWD.ProviderPath)$([char]7)$base''"

fun prompt_format :: "prompt_kind \<Rightarrow> string" where
  "prompt_format PosixPrompt = osc_format"
| "prompt_format CmdPrompt = cmd_prompt"
| "prompt_format (PsPrompt base) = ps_prompt"
| "prompt_format (PsElsewhere base) = ''$base''"

lemma ps_prompt_shipped: "\<exists>a b. powerShellWrapperScript = a @ [CHR 0x22] @ ps_prompt @ [CHR 0x22] @ b"
proof -
  have split: "concat (map f [l1, l2, l3, l4, x @ y, l6, l7, l8, l9]) = (f l1 @ f l2 @ f l3 @ f l4 @ x) @ (y @ line_feed @ f l6 @ f l7 @ f l8 @ f l9)"
    if "\<And>l. f l = l @ line_feed" for f and l1 l2 l3 l4 x y l6 l7 l8 l9 :: string
    by (simp add: that)
  have later: "\<exists>a b. s = a @ y @ z @ y @ b \<Longrightarrow> \<exists>a b. x @ s = a @ y @ z @ y @ b" for s x y z :: string
    by (metis append_assoc)
  have here: "\<exists>a b. y @ z @ y @ c = a @ y @ z @ y @ b" for y z c :: string
    by (metis append_Nil)
  show ?thesis
    unfolding powerShellWrapperScript_def split [OF refl] ps_prompt_def [symmetric] append_assoc
    by (rule here | rule later)+
qed

text \<open>How a shell prints a format is its own: an argument \<open>ex\<close> of the model. What its manual says is a table of
  escapes, and that every character that is not special stands for itself; \<open>known\<close> tells that a format
  has no other special characters, \<open>expand\<close> is the text then printed.\<close>

definition esc :: string where "esc = [CHR 0x1B]"
definition bel :: string where "bel = [CHR 0x07]"

fun escapes :: "prompt_kind \<Rightarrow> string \<Rightarrow> (string \<times> string) list" where
  "escapes PosixPrompt pwd = [([CHR 0x5C] @ ''e'', esc), ([CHR 0x5C] @ ''a'', bel), (''%s'', pwd)]"
| "escapes CmdPrompt pwd = [(''$E'', esc), (''$P'', pwd), (''$G'', ''>'')]"
| "escapes (PsPrompt base) pwd =
     [(''$([char]27)'', esc), (''$([char]7)'', bel), (''$($PWD.ProviderPath)'', pwd), (''$base'', base)]"
| "escapes (PsElsewhere base) pwd = [(''$base'', base)]"

fun special :: "prompt_kind \<Rightarrow> string" where
  "special PosixPrompt = [CHR 0x5C, CHR ''%'']"
| "special CmdPrompt = ''$''"
| "special _ = [CHR ''$'', CHR 0x60, CHR 0x22]"

definition escape_at :: "(string \<times> string) list \<Rightarrow> string \<Rightarrow> (string \<times> string) option" where
  "escape_at tab s = find (\<lambda>(k, v). HasPrefix s k) tab"

fun expand :: "(string \<times> string) list \<Rightarrow> nat \<Rightarrow> string \<Rightarrow> string" where
  "expand tab skip [] = []"
| "expand tab (Suc skip) (c # s) = expand tab skip s"
| "expand tab 0 (c # s) =
     (case escape_at tab (c # s) of
        None \<Rightarrow> c # expand tab 0 s
      | Some (k, v) \<Rightarrow> v @ expand tab (length k - 1) s)"

fun known :: "(string \<times> string) list \<Rightarrow> string \<Rightarrow> nat \<Rightarrow> string \<Rightarrow> bool" where
  "known tab sp skip [] = True"
| "known tab sp (Suc skip) (c # s) = known tab sp skip s"
| "known tab sp 0 (c # s) =
     (case escape_at tab (c # s) of
        None \<Rightarrow> c \<notin> set sp \<and> known tab sp 0 s
      | Some (k, v) \<Rightarrow> known tab sp (length k - 1) s)"

definition as_documented :: "(prompt_kind \<Rightarrow> string \<Rightarrow> string \<Rightarrow> string) \<Rightarrow> bool" where
  "as_documented ex \<longleftrightarrow> (\<forall>k pwd s. known (escapes k pwd) (special k) 0 s \<longrightarrow> ex k pwd s = expand (escapes k pwd) 0 s)"

definition prompt_text :: "(prompt_kind \<Rightarrow> string \<Rightarrow> string \<Rightarrow> string) \<Rightarrow> prompt_kind \<Rightarrow> string \<Rightarrow> string" where
  "prompt_text ex k pwd = ex k pwd (prompt_format k)"

lemma shipped_formats_known: "known (escapes k pwd) (special k) 0 (prompt_format k)"
  by (cases k) (simp_all add: osc_format_def cmd_prompt_def cmdArgs_def ps_prompt_def escape_at_def HasPrefix_def)

lemma prompt_expansions:
  "expand (escapes PosixPrompt pwd) 0 osc_format = esc @ '']9;9;'' @ pwd @ bel"
  "expand (escapes CmdPrompt pwd) 0 cmd_prompt = esc @ '']9;9;'' @ pwd @ esc @ [CHR 0x5C] @ pwd @ ''> ''"
  "expand (escapes (PsPrompt base) pwd) 0 ps_prompt = esc @ '']9;9;'' @ pwd @ bel @ base"
  "expand (escapes (PsElsewhere base) pwd) 0 ''$base'' = base"
  by (simp_all add: osc_format_def cmd_prompt_def cmdArgs_def ps_prompt_def escape_at_def HasPrefix_def esc_def bel_def)

section \<open>The tracker reads the prompts\<close>

definition to_bytes :: "string \<Rightarrow> bytes" where
  "to_bytes s = map byte_of_char s"

lemma string_of_to_bytes [simp]: "string_of_bytes (to_bytes s) = s"
  by (simp add: string_of_bytes_def to_bytes_def comp_def)

lemma to_bytes_append [simp]: "to_bytes (a @ b) = to_bytes a @ to_bytes b" "to_bytes [] = []"
  by (simp_all add: to_bytes_def)

text \<open>The directory a prompt stands for: none when PowerShell is outside the file system.\<close>

fun prompt_dir :: "prompt_kind \<Rightarrow> string \<Rightarrow> string list" where
  "prompt_dir (PsElsewhere base) pwd = []"
| "prompt_dir _ pwd = [pwd]"

fun prompt_segments :: "prompt_kind \<Rightarrow> string \<Rightarrow> segment list" where
  "prompt_segments PosixPrompt pwd = [OscBel (to_bytes pwd)]"
| "prompt_segments CmdPrompt pwd = [OscST (to_bytes pwd), Text (to_bytes (pwd @ ''> ''))]"
| "prompt_segments (PsPrompt base) pwd = [OscBel (to_bytes pwd), Text (to_bytes base)]"
| "prompt_segments (PsElsewhere base) pwd = [Text (to_bytes base)]"

lemma prompt_render:
  assumes "as_documented ex"
  shows "to_bytes (prompt_text ex k pwd) = concat (map render (prompt_segments k pwd))"
proof -
  have "prompt_text ex k pwd = expand (escapes k pwd) 0 (prompt_format k)"
    using assms shipped_formats_known by (simp add: as_documented_def prompt_text_def)
  then show ?thesis
    by (cases k) (simp_all only: prompt_format.simps prompt_expansions,
        simp_all add: to_bytes_def esc_def bel_def osc99_open_def byte_of_char_def)
qed

definition prompt_ok :: "prompt_kind \<Rightarrow> string \<Rightarrow> bool" where
  "prompt_ok k pwd \<longleftrightarrow>
     (case k of
        PsElsewhere base \<Rightarrow> ESC \<notin> set (to_bytes base)
      | PsPrompt base \<Rightarrow> plain_dir (to_bytes pwd) \<and> ESC \<notin> set (to_bytes base)
      | _ \<Rightarrow> plain_dir (to_bytes pwd))"

lemma feed_segments:
  "\<forall>g \<in> set gs. segment_ok g \<Longrightarrow> Feed NewCWDTracker (concat (map render gs)) = (NewCWDTracker, concat (map reported gs))"
proof (induction gs)
  case (Cons g gs)
  then have "Feed NewCWDTracker (render g) = (NewCWDTracker, reported g)"
    by (intro feed_segment) (simp_all add: NewCWDTracker_def)
  with Cons show ?case by (simp add: Feed_append)
qed simp

lemma feed_prompt:
  assumes "as_documented ex" "prompt_ok k pwd"
  shows "Feed NewCWDTracker (to_bytes (prompt_text ex k pwd)) = (NewCWDTracker, prompt_dir k pwd)"
proof -
  have "plain_dir (to_bytes pwd) \<Longrightarrow> ESC \<notin> set (to_bytes (pwd @ ''> ''))"
    by (simp add: plain_dir_def) (simp add: to_bytes_def byte_of_char_def)
  then have "\<forall>g \<in> set (prompt_segments k pwd). segment_ok g"
    using assms(2) by (cases k) (simp_all add: prompt_ok_def)
  moreover have "concat (map reported (prompt_segments k pwd)) = prompt_dir k pwd" by (cases k) simp_all
  ultimately show ?thesis using feed_segments by (simp only: prompt_render [OF assms(1)])
qed


definition manual_shell :: "prompt_kind \<Rightarrow> string \<Rightarrow> string \<Rightarrow> string" where
  "manual_shell k pwd s = expand (escapes k pwd) 0 s"


end
