(* ===== verification/Host_Run.thy ===== *)
theory Host_Run
  imports Host_Serve
begin

text \<open>
  \<^verbatim>\<open>windows/cmd/peershd/main.go\<close>, the host as it runs with a pre-shared key: the goroutine that is
  registered with the signaling server (\<^verbatim>\<open>runSignaling\<close>), the loop that accepts QUIC connections at the
  end of \<^verbatim>\<open>run\<close>, and the sweeper of the grants they share. Each takes its steps when its event comes;
  the events of the three arrive as one list.
\<close>

section \<open>The loops\<close>

datatype accept_err = AcceptCanceled | AcceptNetClosed | AcceptOther

datatype host_ev = SigRecv host_recv | Accepted string | AcceptFails accept_err | AuthzSweep

text \<open>\<open>hr_signaling\<close> tells whether \<^verbatim>\<open>runSignaling\<close> is in its loop, \<open>hr_result\<close> what \<^verbatim>\<open>run\<close> has returned.\<close>

record host_run =
  hr_authz :: "Authz option"
  hr_signaling :: bool
  hr_result :: "accept_err option option"

text \<open>\<^verbatim>\<open>runSignaling\<close> dials once and returns when that fails.\<close>

definition runSignaling :: "bool \<Rightarrow> host_run \<Rightarrow> host_run" where
  "runSignaling dial_ok h = h\<lparr>hr_signaling := dial_ok\<rparr>"

definition signaling_step :: "(string \<Rightarrow> bytes option) \<Rightarrow> host_run \<Rightarrow> time \<Rightarrow> host_recv \<Rightarrow> host_run" where
  "signaling_step parseIP h now r =
     (if \<not> hr_signaling h then h
      else
       (case r of
          RecvConnect m \<Rightarrow> h\<lparr>hr_authz := fst (handle_connect parseIP (hr_authz h) m now)\<rparr>
        | _ \<Rightarrow> h\<lparr>hr_signaling := False\<rparr>))"

text \<open>A connection is handed to \<^verbatim>\<open>serveConn\<close>, which admits the device or not.\<close>

definition accept_step :: "host_run \<Rightarrow> time \<Rightarrow> string \<Rightarrow> host_run \<times> (time \<times> string) list" where
  "accept_step h now peerID =
     (if hr_result h \<noteq> None then (h, [])
      else (case admit (hr_authz h) peerID now of
              (a, granted) \<Rightarrow> (h\<lparr>hr_authz := a\<rparr>, if granted then [(now, peerID)] else [])))"

definition accept_fails :: "host_run \<Rightarrow> accept_err \<Rightarrow> host_run" where
  "accept_fails h e =
     (if hr_result h \<noteq> None then h
      else h\<lparr>hr_result := Some (if e = AcceptCanceled \<or> e = AcceptNetClosed then None else Some e)\<rparr>)"

fun host_loop_step :: "(string \<Rightarrow> bytes option) \<Rightarrow> host_run \<Rightarrow> time \<times> host_ev \<Rightarrow> host_run \<times> (time \<times> string) list" where
  "host_loop_step parseIP h (t, SigRecv r) = (signaling_step parseIP h t r, [])"
| "host_loop_step parseIP h (t, Accepted d) = accept_step h t d"
| "host_loop_step parseIP h (t, AcceptFails e) = (accept_fails h e, [])"
| "host_loop_step parseIP h (t, AuthzSweep) = (h\<lparr>hr_authz := map_option (\<lambda>a. authz_Sweep a t) (hr_authz h)\<rparr>, [])"

fun host_run_steps :: "(string \<Rightarrow> bytes option) \<Rightarrow> host_run \<Rightarrow> (time \<times> host_ev) list \<Rightarrow> host_run \<times> (time \<times> string) list" where
  "host_run_steps parseIP h [] = (h, [])"
| "host_run_steps parseIP h (e # es) =
     (case host_loop_step parseIP h e of
        (h', out) \<Rightarrow> (case host_run_steps parseIP h' es of (h'', out') \<Rightarrow> (h'', out @ out')))"

definition host_begin :: "duration \<Rightarrow> bool \<Rightarrow> host_run" where
  "host_begin lifetime dial_ok =
     runSignaling dial_ok \<lparr>hr_authz = Some (authz_New lifetime), hr_signaling = False, hr_result = None\<rparr>"

section \<open>After the registration is lost\<close>

text \<open>Every grant expires by \<open>T\<close>.\<close>

definition grants_end :: "time \<Rightarrow> duration \<Rightarrow> host_run \<Rightarrow> bool" where
  "grants_end T lifetime h \<longleftrightarrow>
     (\<exists>a. hr_authz h = Some a \<and> gomap_ok (pending a) \<and> ttl a = lifetime \<and> (\<forall>d u. gm_get (pending a) d = Some u \<longrightarrow> u \<le> T + lifetime))"

lemma grants_end_mono:
  assumes "grants_end T l h" "T \<le> T'"
  shows "grants_end T' l h"
proof -
  obtain a where "hr_authz h = Some a" "gomap_ok (pending a)" "ttl a = l" and u: "\<forall>d u. gm_get (pending a) d = Some u \<longrightarrow> u \<le> T + l"
    using assms(1) unfolding grants_end_def by blast
  moreover have "\<forall>d u. gm_get (pending a) d = Some u \<longrightarrow> u \<le> T' + l"
    using u assms(2) by (meson add_right_mono order_trans)
  ultimately show ?thesis unfolding grants_end_def by blast
qed

lemma host_run_append:
  "host_run_steps parseIP h (xs @ ys) =
     (case host_run_steps parseIP h xs of (h', out) \<Rightarrow> (case host_run_steps parseIP h' ys of (h'', out') \<Rightarrow> (h'', out @ out')))"
  by (induction xs arbitrary: h) (auto split: prod.splits)

text \<open>A step at \<open>t\<close> makes no grant that lasts beyond \<open>t\<close> plus the lifetime, and none at all when the
  signaling loop has ended; what it admits was granted.\<close>

lemma host_step_grants:
  assumes "grants_end T l h" "host_loop_step parseIP h (t, e) = (h', out)" "hr_signaling h \<longrightarrow> t \<le> T"
  shows "grants_end T l h' \<and> (hr_signaling h' \<longrightarrow> hr_signaling h) \<and> (\<forall>(u, d) \<in> set out. u = t \<and> u \<le> T + l)"
proof -
  obtain a where a: "hr_authz h = Some a" "gomap_ok (pending a)" "ttl a = l" "\<forall>d u. gm_get (pending a) d = Some u \<longrightarrow> u \<le> T + l"
    using assms(1) by (auto simp: grants_end_def)
  show ?thesis
  proof (cases e)
    case (SigRecv r)
    then show ?thesis using assms(2,3) a
      by (auto simp: signaling_step_def grants_end_def handle_connect_def authz_Allow_def simp del: map_of_eq_Some_iff
          split: if_splits host_recv.splits)
  next
    case (Accepted d)
    then show ?thesis using assms(2) a
      by (auto simp: accept_step_def admit_def authz_Check_def grants_end_def not_less simp del: map_of_eq_Some_iff
          split: if_splits option.splits prod.splits) (meson order_trans)+
  next
    case (AcceptFails x)
    then show ?thesis using assms(2) a by (auto simp: accept_fails_def grants_end_def simp del: map_of_eq_Some_iff split: if_splits)
  next
    case AuthzSweep
    then show ?thesis using assms(2) a
      by (auto simp: authz_Sweep_def grants_end_def gm_get_retain simp del: map_of_eq_Some_iff split: option.splits if_splits)
  qed
qed

lemma host_run_grants:
  assumes "grants_end T l h" "hr_signaling h \<longrightarrow> (\<forall>(t, e) \<in> set es. t \<le> T)" "host_run_steps parseIP h es = (h', out)"
  shows "grants_end T l h' \<and> (\<forall>(u, d) \<in> set out. u \<in> fst ` set es \<and> u \<le> T + l)"
  using assms
proof (induction es arbitrary: h out)
  case (Cons x es)
  obtain t e where x: "x = (t, e)" by (cases x)
  obtain h1 o1 where st: "host_loop_step parseIP h (t, e) = (h1, o1)" by fastforce
  obtain o2 where run: "host_run_steps parseIP h1 es = (h', o2)" "out = o1 @ o2"
    using Cons.prems(3) x st by (auto split: prod.splits)
  have g: "grants_end T l h1" "hr_signaling h1 \<longrightarrow> hr_signaling h" and o1: "\<forall>(u, d) \<in> set o1. u = t \<and> u \<le> T + l"
    using host_step_grants [OF Cons.prems(1) st] Cons.prems(2) x by auto
  have "hr_signaling h1 \<longrightarrow> (\<forall>(t, e) \<in> set es. t \<le> T)" using g(2) Cons.prems(2) by auto
  from Cons.IH [OF g(1) this run(1)] show ?case using o1 run(2) x by auto
qed auto

text \<open>C25: With a pre-shared key the host registers once: when the signaling server's connection ends, for whatever
  reason, the host keeps accepting connections but admits no device any more, beyond those announced before and
  at most for the lifetime of a grant; it stays unreachable until it is restarted.\<close>

theorem host_unreachable_without_signaling:
  assumes "sorted (map fst (es @ (T, SigRecv r) # es'))" "\<forall>m. r \<noteq> RecvConnect m" "0 \<le> lifetime"
    and "host_run_steps parseIP (host_begin lifetime dial_ok) (es @ (T, SigRecv r) # es') = (h, admitted)"
    and "(t, d) \<in> set admitted"
  shows "t \<le> T + lifetime \<and> \<not> hr_signaling h"
proof -
  let ?h0 = "host_begin lifetime dial_ok"
  obtain h1 o1 h2 o2 where r1: "host_run_steps parseIP ?h0 es = (h1, o1)"
    and r2: "host_run_steps parseIP (signaling_step parseIP h1 T r) es' = (h2, o2)" and h: "h = h2" "admitted = o1 @ o2"
    using assms(4) by (auto simp: host_run_append split: prod.splits)
  have before: "\<forall>(t, e) \<in> set es. t \<le> T" using assms(1) by (auto simp: sorted_append)
  have "grants_end T lifetime ?h0"
    by (simp add: grants_end_def host_begin_def runSignaling_def authz_New_def)
  from host_run_grants [OF this _ r1] before
  have g1: "grants_end T lifetime h1" and o1: "\<forall>(u, d) \<in> set o1. u \<in> fst ` set es" by auto
  have off: "\<not> hr_signaling (signaling_step parseIP h1 T r)"
    using assms(2) by (cases r) (auto simp: signaling_step_def)
  have "grants_end T lifetime (signaling_step parseIP h1 T r)"
    using g1 assms(2) by (cases r) (auto simp: signaling_step_def grants_end_def simp del: map_of_eq_Some_iff)
  from host_run_grants [OF this _ r2] off have o2: "\<forall>(u, d) \<in> set o2. u \<le> T + lifetime" by auto
  have stays: "\<not> hr_signaling k \<Longrightarrow> \<not> hr_signaling (fst (host_run_steps parseIP k xs))" for k xs
  proof (induction xs arbitrary: k)
    case (Cons x xs)
    obtain t e where x: "x = (t, e)" by (cases x)
    obtain k' w where st: "host_loop_step parseIP k (t, e) = (k', w)" by fastforce
    have "\<not> hr_signaling k'" using Cons.prems st
      by (cases e) (auto simp: signaling_step_def accept_step_def accept_fails_def split: if_splits prod.splits)
    from Cons.IH [OF this] show ?case using x st by (cases "host_run_steps parseIP k' xs") simp
  qed simp
  have "t \<le> T + lifetime"
    using assms(5) h(2) o1 o2 before assms(3) by fastforce
  moreover have "\<not> hr_signaling h" using stays [OF off, of es'] r2 h(1) by simp
  ultimately show ?thesis by blast
qed

theorem host_unreachable_without_signaling_witness:
  "(8, ''M'') \<in> set (snd (host_run_steps (\<lambda>s. None) (host_begin 60 True)
      [(5, SigRecv (RecvConnect demo_connect)), (6, SigRecv RecvFailed), (8, Accepted ''M''), (9, SigRecv (RecvConnect demo_connect)), (10, Accepted ''M'')]))
   \<and> (8 :: time) \<le> 6 + 60"
proof -
  let ?es = "[(5, SigRecv (RecvConnect demo_connect))]"
  let ?es' = "[(8, Accepted ''M''), (9, SigRecv (RecvConnect demo_connect)), (10, Accepted ''M'')]"
  obtain h where run: "host_run_steps (\<lambda>s. None) (host_begin 60 True) (?es @ (6, SigRecv RecvFailed) # ?es') = (h, [(8, ''M'')])"
    by (simp add: host_begin_def runSignaling_def signaling_step_def handle_connect_def authz_Allow_def authz_New_def demo_connect_def
        accept_step_def admit_def authz_Check_def)
  have "(8 :: time) \<le> 6 + 60 \<and> \<not> hr_signaling h"
    by (rule host_unreachable_without_signaling [OF _ _ _ run]) simp_all
  then show ?thesis using run by simp
qed

end
