(* ===== verification/Transport.thy ===== *)
theory Transport
  imports Peer_Tls Net Punching
begin

text \<open>
  \<^verbatim>\<open>core/transport\<close>: the QUIC transport over a socket its caller owns, the certificate a device makes of
  its key (\<^verbatim>\<open>peertls.CertFromEd25519\<close>), and the development certificates of \<^verbatim>\<open>devtls\<close>. QUIC, X.509,
  random numbers, files and the calendar are arguments.
\<close>

section \<open>A device's certificate\<close>

record cert_template =
  ct_SerialNumber :: int
  ct_CommonName :: string
  ct_NotBefore :: time
  ct_NotAfter :: time
  ct_ServerAuth :: bool
  ct_ClientAuth :: bool
  ct_DNSNames :: "string list"
  ct_IPAddresses :: "string list"

record cert_env =
  xe_serial :: "int option"
  xe_now :: time
  xe_AddDate :: "time \<Rightarrow> int \<Rightarrow> int \<Rightarrow> int \<Rightarrow> time"
  xe_public :: "bytes \<Rightarrow> bytes"
  xe_Create :: "cert_template \<Rightarrow> bytes \<Rightarrow> bytes \<Rightarrow> bytes option"
  xe_Parse :: "bytes \<Rightarrow> public_key option"
  xe_sha256 :: "bytes \<Rightarrow> bytes"

record tls_cert =
  tcert_Certificate :: "bytes list"
  tcert_PrivateKey :: bytes
  tcert_Leaf :: public_key

datatype cert_err = BadKeySize nat | SerialErr | CreateErr

text \<open>\<open>None\<close> is a panic.\<close>

definition mustParse :: "cert_env \<Rightarrow> bytes \<Rightarrow> public_key option" where
  "mustParse x der = xe_Parse x der"

definition PrivateKeySize :: nat where
  "PrivateKeySize = 64"

definition dev_template :: "cert_env \<Rightarrow> int \<Rightarrow> string \<Rightarrow> cert_template" where
  "dev_template x serial cn =
     \<lparr>ct_SerialNumber = serial, ct_CommonName = cn, ct_NotBefore = xe_now x - hour, ct_NotAfter = xe_AddDate x (xe_now x) 2 0 0,
      ct_ServerAuth = True, ct_ClientAuth = True, ct_DNSNames = [''localhost''], ct_IPAddresses = [''127.0.0.1'', ''::1'']\<rparr>"

definition CertFromEd25519 :: "cert_env \<Rightarrow> bytes \<Rightarrow> (cert_err + tls_cert) option" where
  "CertFromEd25519 x priv =
     (if length priv \<noteq> PrivateKeySize then Some (Inl (BadKeySize (length priv)))
      else
        let pub = xe_public x priv
        in (case xe_serial x of
              None \<Rightarrow> Some (Inl SerialErr)
            | Some serial \<Rightarrow>
               (case xe_Create x (dev_template x serial (''peersh-'' @ Derive (xe_sha256 x) pub)) pub priv of
                  None \<Rightarrow> Some (Inl CreateErr)
                | Some der \<Rightarrow>
                   (case mustParse x der of
                      None \<Rightarrow> None
                    | Some leaf \<Rightarrow> Some (Inr \<lparr>tcert_Certificate = [der], tcert_PrivateKey = priv, tcert_Leaf = leaf\<rparr>)))))"

section \<open>The transport\<close>

definition ALPN :: string where
  "ALPN = ''peersh/1''"

record quic_Config =
  HandshakeIdleTimeout :: duration
  MaxIdleTimeout :: duration
  KeepAlivePeriod :: duration

definition defaultQUICConfig :: quic_Config where
  "defaultQUICConfig = \<lparr>HandshakeIdleTimeout = 10 * second, MaxIdleTimeout = 60 * second, KeepAlivePeriod = 15 * second\<rparr>"

datatype net_addr = UDPAddr udp_addr | OtherAddr string

datatype transport_err = ListenErr string | NotUDPAddr string | DialErr string | ErrAddrType

text \<open>A \<^verbatim>\<open>quic.Transport\<close> is its state; the outcomes of the calls into QUIC are arguments. The socket is the
  caller's: \<open>tp_conn\<close> names it and no operation closes it.\<close>

record Transport =
  tp_conn :: nat
  tp_tls :: tls_config
  tp_closed :: bool

definition transport_New :: "nat \<Rightarrow> tls_config \<Rightarrow> Transport" where
  "transport_New pc cfg = \<lparr>tp_conn = pc, tp_tls = cfg, tp_closed = False\<rparr>"

definition transport_Listen :: "(Transport \<Rightarrow> tls_config \<Rightarrow> quic_Config \<Rightarrow> string + 'l) \<Rightarrow> Transport \<Rightarrow> transport_err + 'l" where
  "transport_Listen listen t =
     (case listen t (tp_tls t) defaultQUICConfig of Inl e \<Rightarrow> Inl (ListenErr e) | Inr l \<Rightarrow> Inr l)"

definition transport_Dial ::
  "(Transport \<Rightarrow> udp_addr \<Rightarrow> tls_config \<Rightarrow> quic_Config \<Rightarrow> string + 'c) \<Rightarrow> Transport \<Rightarrow> net_addr \<Rightarrow> transport_err + 'c" where
  "transport_Dial dial t addr =
     (case addr of
        OtherAddr ty \<Rightarrow> Inl (NotUDPAddr ty)
      | UDPAddr a \<Rightarrow> (case dial t a (tp_tls t) defaultQUICConfig of Inl e \<Rightarrow> Inl (DialErr e) | Inr c \<Rightarrow> Inr c))"

definition transport_Close :: "Transport \<Rightarrow> Transport" where
  "transport_Close t = t\<lparr>tp_closed := True\<rparr>"

text \<open>The error the package documents for an address that is not a UDP address is never returned.\<close>

lemma dial_never_ErrAddrType: "transport_Dial dial t addr \<noteq> Inl ErrAddrType"
  by (simp add: transport_Dial_def split: net_addr.splits sum.splits)

text \<open>An idle connection is kept alive: the period of the keep-alives fits several times into the idle
  timeout.\<close>

lemma keep_alive_fits: "3 * KeepAlivePeriod defaultQUICConfig < MaxIdleTimeout defaultQUICConfig"
  by (simp add: defaultQUICConfig_def second_def)

section \<open>Who is at the other end\<close>

text \<open>Creating a certificate and parsing it gives back its public key.\<close>

definition x509_ok :: "cert_env \<Rightarrow> bool" where
  "x509_ok x \<longleftrightarrow> (\<forall>tmpl pub priv der. xe_Create x tmpl pub priv = Some der \<longrightarrow> xe_Parse x der = Some (Ed25519 pub))"

lemma CertFromEd25519_form:
  assumes "x509_ok x" "CertFromEd25519 x priv = Some (Inr c)"
  shows "\<exists>der. tcert_Certificate c = [der] \<and> xe_Parse x der = Some (Ed25519 (xe_public x priv)) \<and> tcert_Leaf c = Ed25519 (xe_public x priv)"
  using assms by (auto simp: CertFromEd25519_def mustParse_def x509_ok_def Let_def split: if_splits option.splits)

text \<open>C17: Two devices that present the certificates they made of their keys identify each other: the client accepts
  the host exactly when it pinned no name or the name derived from the host's key, the host accepts the
  client and knows it under the name derived from the client's key, both agree on the protocol, and making
  a certificate never panics.\<close>

theorem peers_identify_each_other:
  assumes "x509_ok x" "xe_Parse x' = xe_Parse x" "xe_Create x' = xe_Create x"
    and "CertFromEd25519 x privH = Some (Inr host)" "CertFromEd25519 x' privC = Some (Inr client)"
    and "server = ServerTLSConfig (xe_sha256 x) (xe_Parse x)" "dialer = ClientTLSConfig (xe_sha256 x) (xe_Parse x) expected"
  shows "(tc_Verify dialer (tcert_Certificate host) = None
        \<longleftrightarrow> expected = [] \<or> expected = Derive (xe_sha256 x) (xe_public x privH))
    \<and> tc_Verify server (tcert_Certificate client) = None
    \<and> PeerDeviceID (xe_sha256 x) [tcert_Leaf client] = Derive (xe_sha256 x) (xe_public x' privC)
    \<and> ALPN \<in> set (tc_NextProtos server) \<inter> set (tc_NextProtos dialer)
    \<and> CertFromEd25519 x priv \<noteq> None"
proof -
  have ok': "x509_ok x'" using assms(1-3) by (simp add: x509_ok_def)
  have "CertFromEd25519 x priv \<noteq> None"
    using assms(1) by (auto simp: CertFromEd25519_def mustParse_def x509_ok_def Let_def split: option.splits)
  then show ?thesis
    using CertFromEd25519_form [OF assms(1,4)] CertFromEd25519_form [OF ok' assms(5)] assms(2,6,7)
    by (auto simp: ServerTLSConfig_def ClientTLSConfig_def verifyEd25519Leaf_def PeerDeviceID_def ALPN_def alpn_def Let_def split: if_splits)
qed

definition demo_x509 :: cert_env where
  "demo_x509 = \<lparr>xe_serial = Some 7, xe_now = 0, xe_AddDate = (\<lambda>t y m d. t), xe_public = drop 32, xe_Create = (\<lambda>tmpl pub priv. Some pub),
     xe_Parse = (\<lambda>der. Some (Ed25519 der)), xe_sha256 = (\<lambda>b. replicate 32 0)\<rparr>"

theorem peers_identify_each_other_witness:
  "tc_Verify (ServerTLSConfig (xe_sha256 demo_x509) (xe_Parse demo_x509)) [replicate 32 2] = None
   \<and> PeerDeviceID (xe_sha256 demo_x509) [Ed25519 (replicate 32 2)] = Derive (xe_sha256 demo_x509) (replicate 32 2)"
proof -
  have ok: "x509_ok demo_x509" by (simp add: x509_ok_def demo_x509_def)
  have cert: "CertFromEd25519 demo_x509 (replicate 64 b) = Some (Inr \<lparr>tcert_Certificate = [replicate 32 b],
      tcert_PrivateKey = replicate 64 b, tcert_Leaf = Ed25519 (replicate 32 b)\<rparr>)" for b
    by (simp add: CertFromEd25519_def demo_x509_def mustParse_def PrivateKeySize_def Let_def)
  from peers_identify_each_other [OF ok refl refl cert [of 1] cert [of 2] refl refl, of "[]" "[]"]
  show ?thesis by (simp add: demo_x509_def)
qed

section \<open>Development certificates\<close>

text \<open>A file is whole or cut off by an error while it was written.\<close>

datatype pem_file = Whole bytes | Partial

datatype write_res = WriteOk | OpenErr | EncodeErr

definition CertFile :: string where
  "CertFile = ''cert.pem''"

definition writePEM :: "write_res \<Rightarrow> (string, pem_file) gomap \<Rightarrow> string \<Rightarrow> bytes \<Rightarrow> (string, pem_file) gomap \<times> bool" where
  "writePEM w files path der =
     (case w of
        OpenErr \<Rightarrow> (files, False)
      | EncodeErr \<Rightarrow> (gm_put path Partial files, False)
      | WriteOk \<Rightarrow> (gm_put path (Whole der) files, True))"

datatype dev_err = DevDirEmpty | DevMkdir | DevGenerateKey | DevSerial | DevCreate | DevWrite | DevMarshal | DevLoad

text \<open>What one start meets: the directory, the generator, the two writes; \<open>load\<close> is
  \<^verbatim>\<open>tls.LoadX509KeyPair\<close> on the two files' contents.\<close>

record dev_env =
  de_mkdir :: bool
  de_generated :: "(bytes \<times> bytes) option"
  de_cert :: cert_env
  de_marshal :: "bytes \<Rightarrow> bytes option"
  de_write_cert :: write_res
  de_write_key :: write_res
  de_load :: "pem_file option \<Rightarrow> pem_file option \<Rightarrow> tls_cert option"

definition dev_load :: "dev_env \<Rightarrow> (string, pem_file) gomap \<Rightarrow> string \<Rightarrow> string \<Rightarrow> dev_err + tls_cert" where
  "dev_load e files certPath keyPath =
     (case de_load e (gm_get files certPath) (gm_get files keyPath) of None \<Rightarrow> Inl DevLoad | Some c \<Rightarrow> Inr c)"

definition devtls_generate ::
  "dev_env \<Rightarrow> (string, pem_file) gomap \<Rightarrow> string \<Rightarrow> string \<Rightarrow> (string, pem_file) gomap \<times> (dev_err + tls_cert)" where
  "devtls_generate e files certPath keyPath =
     (case de_generated e of
        None \<Rightarrow> (files, Inl DevGenerateKey)
      | Some (pub, priv) \<Rightarrow>
         (case xe_serial (de_cert e) of
            None \<Rightarrow> (files, Inl DevSerial)
          | Some serial \<Rightarrow>
             (case xe_Create (de_cert e) (dev_template (de_cert e) serial ''peersh-dev'') pub priv of
                None \<Rightarrow> (files, Inl DevCreate)
              | Some der \<Rightarrow>
                 (case writePEM (de_write_cert e) files certPath der of
                    (f1, False) \<Rightarrow> (f1, Inl DevWrite)
                  | (f1, True) \<Rightarrow>
                     (case de_marshal e priv of
                        None \<Rightarrow> (f1, Inl DevMarshal)
                      | Some keyDER \<Rightarrow>
                         (case writePEM (de_write_key e) f1 keyPath keyDER of
                            (f2, False) \<Rightarrow> (f2, Inl DevWrite)
                          | (f2, True) \<Rightarrow> (f2, dev_load e f2 certPath keyPath)))))))"

definition devtls_LoadOrGenerate ::
  "dev_env \<Rightarrow> (string, pem_file) gomap \<Rightarrow> string \<Rightarrow> (string, pem_file) gomap \<times> (dev_err + tls_cert)" where
  "devtls_LoadOrGenerate e files dir =
     (if dir = [] then (files, Inl DevDirEmpty)
      else if \<not> de_mkdir e then (files, Inl DevMkdir)
      else
        let certPath = Join2 dir CertFile; keyPath = Join2 dir KeyFile_name
        in if gm_get files certPath \<noteq> None \<and> gm_get files keyPath \<noteq> None then (files, dev_load e files certPath keyPath)
           else devtls_generate e files certPath keyPath)"

definition devtls_ServerTLSConfig :: tls_config where
  "devtls_ServerTLSConfig =
     \<lparr>tc_RequireClientCert = False, tc_InsecureSkipVerify = False, tc_NextProtos = [''peersh/1''], tc_Verify = (\<lambda>certs. None)\<rparr>"

definition DevClientTLSConfig :: tls_config where
  "DevClientTLSConfig =
     \<lparr>tc_RequireClientCert = False, tc_InsecureSkipVerify = True, tc_NextProtos = [''peersh/1''], tc_Verify = (\<lambda>certs. None)\<rparr>"

text \<open>However the writes of earlier starts failed, a certificate and a key that are both whole belong together:
  they were written by one call (a key is never there without a certificate). \<open>made\<close> are the pairs the calls so far could write.\<close>

definition pair_ok :: "(bytes \<times> bytes) set \<Rightarrow> string \<Rightarrow> (string, pem_file) gomap \<Rightarrow> bool" where
  "pair_ok made dir files \<longleftrightarrow>
     (gm_get files (Join2 dir KeyFile_name) \<noteq> None \<longrightarrow> gm_get files (Join2 dir CertFile) \<noteq> None)
   \<and> (\<forall>c k. gm_get files (Join2 dir CertFile) = Some (Whole c) \<and> gm_get files (Join2 dir KeyFile_name) = Some (Whole k) \<longrightarrow> (c, k) \<in> made)"

definition made_by :: "dev_env \<Rightarrow> (bytes \<times> bytes) set" where
  "made_by e =
     {(der, k). \<exists>pub priv serial. de_generated e = Some (pub, priv) \<and> xe_serial (de_cert e) = Some serial
        \<and> xe_Create (de_cert e) (dev_template (de_cert e) serial ''peersh-dev'') pub priv = Some der \<and> de_marshal e priv = Some k}"

lemma devtls_generate_files:
  "fst (devtls_generate e files c k) = files \<or> (\<exists>x. fst (devtls_generate e files c k) = gm_put c x files)
    \<or> (\<exists>der key x. (der, key) \<in> made_by e \<and> x \<in> {Whole key, Partial}
        \<and> fst (devtls_generate e files c k) = gm_put k x (gm_put c (Whole der) files))"
  unfolding devtls_generate_def writePEM_def made_by_def
  by (cases "de_write_cert e"; cases "de_write_key e") (auto split: option.splits prod.splits)

lemma dev_pair_preserved:
  assumes "pair_ok made dir files" "Join2 dir CertFile \<noteq> Join2 dir KeyFile_name"
  shows "pair_ok (made \<union> made_by e) dir (fst (devtls_LoadOrGenerate e files dir))"
proof -
  let ?c = "Join2 dir CertFile" and ?k = "Join2 dir KeyFile_name"
  have keep: "pair_ok (made \<union> made_by e) dir files" using assms(1) by (auto simp: pair_ok_def simp del: map_of_eq_Some_iff map_of_eq_None_iff)
  show ?thesis
  proof (cases "fst (devtls_LoadOrGenerate e files dir) = files")
    case False
    then have gen: "fst (devtls_LoadOrGenerate e files dir) = fst (devtls_generate e files ?c ?k)"
      and "gm_get files ?c = None \<or> gm_get files ?k = None"
      by (auto simp: devtls_LoadOrGenerate_def Let_def simp del: map_of_eq_Some_iff map_of_eq_None_iff split: if_splits)
    then have "gm_get files ?k = None" using assms(1) by (auto simp: pair_ok_def simp del: map_of_eq_Some_iff map_of_eq_None_iff)
    then show ?thesis
      using devtls_generate_files [of e files ?c ?k] keep assms(2) unfolding gen
      by (auto simp: pair_ok_def simp del: map_of_eq_Some_iff map_of_eq_None_iff)
  qed (use keep in simp)
qed

text \<open>A key file cut off by an error is never replaced: every later start fails to load it.\<close>

lemma partial_key_sticks:
  assumes "gm_get files (Join2 dir KeyFile_name) = Some Partial" "gm_get files (Join2 dir CertFile) = Some c"
    and "\<forall>c. de_load e c (Some Partial) = None" "dir \<noteq> []" "de_mkdir e"
  shows "devtls_LoadOrGenerate e files dir = (files, Inl DevLoad)"
  using assms by (simp add: devtls_LoadOrGenerate_def dev_load_def Let_def del: map_of_eq_Some_iff)

end
