(* ===== verification/Telemetry.thy ===== *)
theory Telemetry
  imports Wake_Pump
begin

text \<open>
  \<^verbatim>\<open>windows/firebase/metrics.go\<close>: the counters of the wake path, and what \<^verbatim>\<open>Runtime\<close> (\<^verbatim>\<open>devices.go\<close>) and the
  wake listener record in them. A collector is its value: a counter a number, a labelled counter a function of
  the label, a histogram the list of the observed values. Telemetry that is switched off is \<open>None\<close>, the
  nil pointer of the code.
\<close>

record 'f Metrics =
  WakeEventReceived :: nat
  WakeEventLatency :: "'f list"
  SignalingWSOpen :: "'f list"
  HeartbeatCount :: "string \<Rightarrow> nat"
  RtdbListenerReconnect :: nat
  RtdbListenerActive :: nat
  NotificationDispatched :: "string \<Rightarrow> nat"
  NotificationDispatchFailures :: "string \<Rightarrow> nat"

definition NewMetrics :: "'f Metrics" where
  "NewMetrics = \<lparr>WakeEventReceived = 0, WakeEventLatency = [], SignalingWSOpen = [], HeartbeatCount = (\<lambda>l. 0), RtdbListenerReconnect = 0,
     RtdbListenerActive = 0, NotificationDispatched = (\<lambda>l. 0), NotificationDispatchFailures = (\<lambda>l. 0)\<rparr>"

text \<open>\<^verbatim>\<open>Register\<close>: the first collector the registry refuses ends it.\<close>

definition collector_names :: "string list" where
  "collector_names =
     [''peersh_wake_event_received_total'', ''peersh_wake_event_latency_seconds'', ''peersh_signaling_ws_open_seconds'',
      ''peersh_heartbeat_total'', ''peersh_rtdb_listener_reconnect_total'', ''peersh_rtdb_listener_active'',
      ''peersh_notification_dispatched_total'', ''peersh_notification_dispatch_failures_total'']"

fun register_all :: "('r \<Rightarrow> string \<Rightarrow> 'e + 'r) \<Rightarrow> 'r \<Rightarrow> string list \<Rightarrow> 'r \<times> 'e option" where
  "register_all reg r [] = (r, None)"
| "register_all reg r (n # ns) = (case reg r n of Inl e \<Rightarrow> (r, Some e) | Inr r' \<Rightarrow> register_all reg r' ns)"

definition metrics_Register :: "('r \<Rightarrow> string \<Rightarrow> 'e + 'r) \<Rightarrow> 'r \<Rightarrow> 'r \<times> 'e option" where
  "metrics_Register reg r = register_all reg r collector_names"

definition inc :: "string \<Rightarrow> (string \<Rightarrow> nat) \<Rightarrow> string \<Rightarrow> nat" where
  "inc l c = c(l := Suc (c l))"

definition ObserveWakeReceived :: "'f Metrics option \<Rightarrow> 'f Metrics option" where
  "ObserveWakeReceived m = (case m of None \<Rightarrow> None | Some x \<Rightarrow> Some (x\<lparr>WakeEventReceived := Suc (WakeEventReceived x)\<rparr>))"

definition ObserveWakeLatencySeconds :: "'f :: {zero, linorder} \<Rightarrow> 'f Metrics option \<Rightarrow> 'f Metrics option" where
  "ObserveWakeLatencySeconds s m =
     (case m of None \<Rightarrow> None
      | Some x \<Rightarrow> if s \<le> 0 then Some x else Some (x\<lparr>WakeEventLatency := WakeEventLatency x @ [s]\<rparr>))"

definition ObserveWSOpenSeconds :: "'f :: {zero, linorder} \<Rightarrow> 'f Metrics option \<Rightarrow> 'f Metrics option" where
  "ObserveWSOpenSeconds s m =
     (case m of None \<Rightarrow> None
      | Some x \<Rightarrow> if s < 0 then Some x else Some (x\<lparr>SignalingWSOpen := SignalingWSOpen x @ [s]\<rparr>))"

definition ObserveHeartbeat :: "bool \<Rightarrow> 'f Metrics option \<Rightarrow> 'f Metrics option" where
  "ObserveHeartbeat success m =
     (case m of None \<Rightarrow> None
      | Some x \<Rightarrow> Some (x\<lparr>HeartbeatCount := inc (if success then ''success'' else ''failure'') (HeartbeatCount x)\<rparr>))"

definition ObserveRtdbReconnect :: "'f Metrics option \<Rightarrow> 'f Metrics option" where
  "ObserveRtdbReconnect m =
     (case m of None \<Rightarrow> None | Some x \<Rightarrow> Some (x\<lparr>RtdbListenerReconnect := Suc (RtdbListenerReconnect x)\<rparr>))"

definition SetRtdbListenerActive :: "bool \<Rightarrow> 'f Metrics option \<Rightarrow> 'f Metrics option" where
  "SetRtdbListenerActive up m =
     (case m of None \<Rightarrow> None | Some x \<Rightarrow> Some (x\<lparr>RtdbListenerActive := (if up then 1 else 0)\<rparr>))"

definition ObserveNotificationDispatched :: "string \<Rightarrow> 'f Metrics option \<Rightarrow> 'f Metrics option" where
  "ObserveNotificationDispatched why m =
     (case m of None \<Rightarrow> None | Some x \<Rightarrow> Some (x\<lparr>NotificationDispatched := inc why (NotificationDispatched x)\<rparr>))"

definition ObserveNotificationDispatchFailure :: "string \<Rightarrow> 'f Metrics option \<Rightarrow> 'f Metrics option" where
  "ObserveNotificationDispatchFailure why m =
     (case m of None \<Rightarrow> None | Some x \<Rightarrow> Some (x\<lparr>NotificationDispatchFailures := inc why (NotificationDispatchFailures x)\<rparr>))"

section \<open>The callers\<close>

text \<open>\<^verbatim>\<open>Runtime.Heartbeat\<close>, and the observations of the listener's loop: each round after the first counts
  a reconnection, and a round whose stream opened (\<open>True\<close>) sets the gauge while it lasts.\<close>

definition Runtime_Heartbeat :: "rt_err option \<Rightarrow> 'f Metrics option \<Rightarrow> 'f Metrics option \<times> rt_err option" where
  "Runtime_Heartbeat err m = (ObserveHeartbeat (err = None) m, err)"

definition consume_opens :: "'f Metrics option \<Rightarrow> 'f Metrics option" where
  "consume_opens m = SetRtdbListenerActive True m"

definition consume_ends :: "'f Metrics option \<Rightarrow> 'f Metrics option" where
  "consume_ends m = SetRtdbListenerActive False m"

fun wl_observe :: "bool \<Rightarrow> bool list \<Rightarrow> 'f Metrics option \<Rightarrow> 'f Metrics option" where
  "wl_observe first [] m = m"
| "wl_observe first (opened # rounds) m =
     (let m1 = (if first then m else ObserveRtdbReconnect m);
          m2 = (if opened then consume_ends (consume_opens m1) else m1)
      in wl_observe False rounds m2)"

lemma metrics_nil [simp]:
  "ObserveWakeReceived None = None" "ObserveWakeLatencySeconds s None = None" "ObserveWSOpenSeconds s None = None"
  "ObserveHeartbeat b None = None" "ObserveRtdbReconnect None = None" "SetRtdbListenerActive b None = None"
  "ObserveNotificationDispatched w None = None" "ObserveNotificationDispatchFailure w None = None"
  by (simp_all add: ObserveWakeReceived_def ObserveWakeLatencySeconds_def ObserveWSOpenSeconds_def ObserveHeartbeat_def
      ObserveRtdbReconnect_def SetRtdbListenerActive_def ObserveNotificationDispatched_def ObserveNotificationDispatchFailure_def)

text \<open>Over a run of the listener the reconnections are the rounds but one, and the gauge is down
  between two streams and at the end.\<close>

lemma wl_observe_counts:
  "RtdbListenerActive x = 0 \<Longrightarrow>
   \<exists>y. wl_observe first rounds (Some x) = Some y \<and> RtdbListenerActive y = 0
     \<and> RtdbListenerReconnect y = RtdbListenerReconnect x + (length rounds - (if first \<and> rounds \<noteq> [] then 1 else 0))"
proof (induction rounds arbitrary: x first)
  case (Cons r rounds)
  let ?m = "if first then Some x else ObserveRtdbReconnect (Some x)"
  obtain z where z: "(if r then consume_ends (consume_opens ?m) else ?m) = Some z" "RtdbListenerActive z = 0"
    "RtdbListenerReconnect z = RtdbListenerReconnect x + (if first then 0 else 1)"
    using Cons.prems
    by (cases first; cases r) (simp_all add: consume_ends_def consume_opens_def SetRtdbListenerActive_def ObserveRtdbReconnect_def)
  from Cons.IH [OF z(2), of False] show ?case using z by (auto simp: Let_def)
qed simp

text \<open>The heartbeats of a run: each is counted once, under its outcome.\<close>

lemma heartbeats_counted:
  "\<exists>y. fold (\<lambda>e m. fst (Runtime_Heartbeat e m)) es (Some x) = Some y
     \<and> HeartbeatCount y ''success'' = HeartbeatCount x ''success'' + length (filter (\<lambda>e. e = None) es)
     \<and> HeartbeatCount y ''failure'' = HeartbeatCount x ''failure'' + length (filter (\<lambda>e. e \<noteq> None) es)"
proof (induction es arbitrary: x)
  case (Cons e es)
  obtain z where z: "fst (Runtime_Heartbeat e (Some x)) = Some z"
    "HeartbeatCount z ''success'' = HeartbeatCount x ''success'' + (if e = None then 1 else 0)"
    "HeartbeatCount z ''failure'' = HeartbeatCount x ''failure'' + (if e = None then 0 else 1)"
    by (simp add: Runtime_Heartbeat_def ObserveHeartbeat_def inc_def)
  from Cons.IH [of z] show ?case using z by auto
qed simp

end
