(* ===== verification/Pty_Bindings.thy ===== *)
theory Pty_Bindings
  imports Service Prompt_Hook
begin

text \<open>
  \<^verbatim>\<open>windows/pty\<close>: the pseudo terminals of Windows (\<^verbatim>\<open>pty_windows.go\<close>) and macOS (\<^verbatim>\<open>pty_darwin.go\<close>) behind one
  interface, and the variant that refuses (\<^verbatim>\<open>pty_other.go\<close>). What the operating system's calls return are
  arguments; reading and writing pass through. The command line, the environment and the exit code of
  macOS are in \<open>Service\<close>.
\<close>

datatype pty_err = StartErr string | ResizeErr | WaitErr | Unsupported

text \<open>The grid of a terminal: sixteen bits each, widened for Windows.\<close>

record winsize =
  ws_Cols :: u16
  ws_Rows :: u16

definition win_spawn :: "(string \<Rightarrow> int \<Rightarrow> int \<Rightarrow> 'p option) \<Rightarrow> string \<Rightarrow> string list \<Rightarrow> string list \<Rightarrow> u16 \<Rightarrow> u16 \<Rightarrow> pty_err + 'p" where
  "win_spawn start executable args env cols rows =
     (case start (buildCmdline executable args) (uint cols) (uint rows) of
        None \<Rightarrow> Inl (StartErr executable)
      | Some p \<Rightarrow> Inr p)"

definition win_Resize :: "(int \<Rightarrow> int \<Rightarrow> bool) \<Rightarrow> u16 \<Rightarrow> u16 \<Rightarrow> pty_err option" where
  "win_Resize resize cols rows = (if resize (uint cols) (uint rows) then None else Some ResizeErr)"

text \<open>\<open>None\<close> is an error of the wait itself; the exit code is a 32-bit number.\<close>

definition win_Wait :: "u32 option \<Rightarrow> int \<times> pty_err option" where
  "win_Wait r = (case r of None \<Rightarrow> (-1, Some WaitErr) | Some c \<Rightarrow> (uint c, None))"

definition unix_spawn ::
  "(string \<Rightarrow> string list \<Rightarrow> string list \<Rightarrow> winsize \<Rightarrow> 'p option) \<Rightarrow> string list \<Rightarrow> string \<Rightarrow> string list \<Rightarrow> string list \<Rightarrow> u16 \<Rightarrow> u16
     \<Rightarrow> pty_err + 'p" where
  "unix_spawn start environ executable args env cols rows =
     (case start executable args (unix_env environ env) \<lparr>ws_Cols = cols, ws_Rows = rows\<rparr> of
        None \<Rightarrow> Inl (StartErr executable)
      | Some p \<Rightarrow> Inr p)"

definition unix_Resize :: "(winsize \<Rightarrow> bool) \<Rightarrow> u16 \<Rightarrow> u16 \<Rightarrow> pty_err option" where
  "unix_Resize setsize cols rows = (if setsize \<lparr>ws_Cols = cols, ws_Rows = rows\<rparr> then None else Some ResizeErr)"

text \<open>\<^verbatim>\<open>Close\<close> kills the child when there is one, then releases the terminal.\<close>

record child =
  ch_process :: bool
  ch_killed :: bool
  ch_master_open :: bool

definition unix_Close :: "child \<Rightarrow> child" where
  "unix_Close c = c\<lparr>ch_killed := (ch_killed c \<or> ch_process c), ch_master_open := False\<rparr>"

definition other_spawn :: "string \<Rightarrow> string list \<Rightarrow> string list \<Rightarrow> u16 \<Rightarrow> u16 \<Rightarrow> pty_err + 'p" where
  "other_spawn executable args env cols rows = Inl Unsupported"

section \<open>The environment a shell sees\<close>

text \<open>Of several entries for a variable the last one counts.\<close>

definition env_lookup :: "string list \<Rightarrow> string \<Rightarrow> string option" where
  "env_lookup env k =
     map_option (\<lambda>e. drop (Suc (length k)) e) (find (\<lambda>e. HasPrefix e (k @ ''='')) (rev env))"

lemma env_lookup_append: "env_lookup (a @ b) k = (case env_lookup b k of Some v \<Rightarrow> Some v | None \<Rightarrow> env_lookup a k)"
proof -
  have "find P (x @ y) = (case find P x of Some e \<Rightarrow> Some e | None \<Rightarrow> find P y)" for P and x y :: "string list"
    by (induction x) auto
  then show ?thesis by (simp add: env_lookup_def split: option.splits)
qed

lemma env_lookup_set: "env_lookup [k @ CHR ''='' # v] k = Some v" "\<not> HasPrefix e (k @ ''='') \<Longrightarrow> env_lookup [e] k = None" "env_lookup [] k = None"
  by (simp_all add: env_lookup_def HasPrefix_def)

text \<open>C34: A zsh the host starts on macOS finds the hook: whatever environment the host itself has, the shell's
  \<^verbatim>\<open>ZDOTDIR\<close> is the directory the hook files were written to, its \<^verbatim>\<open>TERM\<close> names a terminal, and every
  other variable is inherited.\<close>

theorem shell_finds_hook:
  assumes "spawn_target e cmd args = Inr (exe, as, env)" "cmd \<in> set [[], ''auto'', ''zsh'']" "\<not> sh_windows e" "Base exe = ''zsh''"
    and "sh_hook e = Some dir"
  shows "env_lookup (unix_env environ env) ''ZDOTDIR'' = Some dir
    \<and> env_lookup (unix_env environ env) ''TERM'' = Some ''xterm-256color''
    \<and> (\<forall>k. k \<noteq> ''ZDOTDIR'' \<and> k \<noteq> ''TERM'' \<and> CHR ''='' \<notin> set k \<longrightarrow> env_lookup (unix_env environ env) k = env_lookup environ k)"
proof -
  have first: "first_on_path e ns = Inr r \<Longrightarrow> \<exists>p. r = posixResolved e p" for ns r
    by (induction ns) (auto split: option.splits)
  obtain p where "exe = sr_Path (posixResolved e p)" "env = sr_Env (posixResolved e p)"
    using assms(1-3) first
    by (fastforce simp: spawn_target_def shell_names_def Resolve_def posixLoginShell_def split: sum.splits if_splits option.splits)
  then have "Base p = ''zsh''" and "env = sr_Env (posixResolved e p)" using assms(4) by (simp_all only: sr_Path_posixResolved)
  then have env: "env = [''ZDOTDIR'' @ CHR ''='' # dir]" using assms(5) by (simp add: posixResolved_def)
  have term_entry: "''TERM=xterm-256color'' = ''TERM'' @ CHR ''='' # ''xterm-256color''" by simp
  have other: "\<not> HasPrefix (n @ CHR ''='' # v) (k @ ''='')" if "k \<noteq> n" "CHR ''='' \<notin> set k" "CHR ''='' \<notin> set n" for n v k :: string
  proof
    assume "HasPrefix (n @ CHR ''='' # v) (k @ ''='')"
    then obtain w where "n @ CHR ''='' # v = k @ CHR ''='' # w" by (auto simp: HasPrefix_iff)
    then have "takeWhile (\<lambda>c. c \<noteq> CHR ''='') (n @ CHR ''='' # v) = takeWhile (\<lambda>c. c \<noteq> CHR ''='') (k @ CHR ''='' # w)" by simp
    then show False using that span_mark(1) by metis
  qed
  have "env_lookup env k = (if k = ''ZDOTDIR'' then Some dir else None)" if "CHR ''='' \<notin> set k" for k
    using that other [of k "''ZDOTDIR''" dir] env_lookup_set(1) [of "''ZDOTDIR''" dir] env_lookup_set(2) [of "''ZDOTDIR'' @ CHR ''='' # dir" k]
    unfolding env by simp
  moreover have "env_lookup [''TERM=xterm-256color''] k = (if k = ''TERM'' then Some ''xterm-256color'' else None)" if "CHR ''='' \<notin> set k" for k
    using that other [of k "''TERM''" "''xterm-256color''"] env_lookup_set(1) [of "''TERM''" "''xterm-256color''"]
      env_lookup_set(2) [of "''TERM'' @ CHR ''='' # ''xterm-256color''" k] unfolding term_entry by simp
  ultimately show ?thesis unfolding unix_env_def env_lookup_append by simp
qed

theorem shell_finds_hook_witness:
  "env_lookup (unix_env [''ZDOTDIR=/old'', ''HOME=/h''] [''ZDOTDIR=/tmp/h'']) ''ZDOTDIR'' = Some ''/tmp/h''"
proof -
  let ?e = "demo_shell_env\<lparr>sh_LookPath := (\<lambda>n. Some ''/bin/zsh'')\<rparr>"
  have b: "Base ''/bin/zsh'' = ''zsh''" by code_simp
  have s: "spawn_target ?e ''zsh'' [] = Inr (''/bin/zsh'', [''-l'', ''-i''], [''ZDOTDIR=/tmp/h''])"
    using b by (simp add: spawn_target_def shell_names_def Resolve_def posixResolved_def demo_shell_env_def)
  have "\<not> sh_windows ?e" "sh_hook ?e = Some ''/tmp/h''" by (simp_all add: demo_shell_env_def)
  from shell_finds_hook [OF s _ this(1) b this(2), of "[''ZDOTDIR=/old'', ''HOME=/h'']"] show ?thesis by simp
qed

end
