(* ===== verification/Spec2Isabelle.thy ===== *)
theory Spec2Isabelle
  imports Client_Streams Cli Firestore Service Wake_Pump Wire Pty_Manager Ws_Handler Signaling_Client Peer_Auth Punching Pwsh_Manager Files Sqlite Config Signaling_Main Host_Serve Rtdb Firebase_Auth Update Shell Prompt_Hook Host_Run Transport Telemetry Pty_Bindings
begin

text \<open>
  \<^bold>\<open>peersh\<close>: a remote shell. A signaling server introduces clients and hosts to each other, the
  two punch through their routers and talk QUIC, and the host runs shells under pseudo
  terminals that survive a lost connection.

  \<^bold>\<open>The program and its theories.\<close> Directory names are those of the repository; a definition has the name
  of the Go function or type it translates, with a prefix where two of them clash (\<open>fs_\<close> Firestore, \<open>sq_\<close>
  SQL, \<open>rt_\<close> Realtime Database, \<open>cli_\<close> command-line client, \<open>wl_\<close> wake listener).

  \<^item> Shared: \<open>Peersh_Prelude\<close> (byte strings, machine integers, Go's maps, times and durations with their
    saturating arithmetic, string functions), \<open>Filepath\<close>, \<open>Net\<close> and \<open>Base64\<close> (the parts of Go's library the
    program's own behaviour rests on), \<open>Signal_Proto\<close> (the messages of the signaling channel).
  \<^item> \<^verbatim>\<open>core\<close>: \<open>Wire\<close> (\<^verbatim>\<open>core/wire\<close>, framing), \<open>Devid\<close> (\<^verbatim>\<open>core/devid\<close>), \<open>Peer_Tls\<close>
    (\<^verbatim>\<open>core/transport/peertls\<close>, verification), \<open>Transport\<close> (\<^verbatim>\<open>core/transport\<close>, a device's certificate and the
    development certificates), \<open>Auth\<close> (\<^verbatim>\<open>core/auth\<close>), \<open>Punching\<close> (\<^verbatim>\<open>core/punching\<close>), \<open>Store\<close>,
    \<open>Sqlite\<close> and \<open>Firestore\<close> (\<^verbatim>\<open>core/store\<close> and its three implementations), \<open>Signaling_Client\<close>
    (\<^verbatim>\<open>core/signaling\<close>).
  \<^item> \<^verbatim>\<open>server\<close>: \<open>Config\<close>, \<open>Ratelimit\<close>, \<open>Room\<close>, \<open>Admin\<close>, \<open>Ws_Handler\<close> (the life of a connection from its
    upgrade to its end) and \<open>Signaling_Main\<close> (the program).
  \<^item> \<^verbatim>\<open>windows\<close>, the host: \<open>Ring_Buffer\<close>, \<open>Pty_Session\<close> and \<open>Pty_Manager\<close> (\<^verbatim>\<open>ptyhost\<close>), \<open>Cwd_Tracker\<close>
    (\<^verbatim>\<open>session\<close>), \<open>Pwsh_Host\<close> and \<open>Pwsh_Manager\<close> (\<^verbatim>\<open>pwsh\<close>), \<open>Peer_Auth\<close> (\<^verbatim>\<open>peerauth\<close>), \<open>Shell\<close> and
    \<open>Prompt_Hook\<close> (\<^verbatim>\<open>shell\<close>), \<open>Pty_Bindings\<close> (\<^verbatim>\<open>pty\<close>), \<open>Rtdb\<close>, \<open>Firebase_Auth\<close> and \<open>Telemetry\<close> (\<^verbatim>\<open>firebase\<close>), and of \<^verbatim>\<open>cmd/peershd\<close>: \<open>Files\<close>, \<open>Notify\<close>, \<open>Host_Main\<close> (start-up),
    \<open>Host_Serve\<close> (connections and their streams), \<open>Host_Run\<close> (the accept loop and the registration), \<open>Wake_Pump\<close> (background loops), \<open>Update\<close> (self-update) and
    \<open>Service\<close> (installation, the dispatch of \<^verbatim>\<open>main\<close>, the command lines of \<^verbatim>\<open>windows/pty\<close>).
  \<^item> Clients: \<open>Client_Open\<close> and \<open>Client_Streams\<close> (\<^verbatim>\<open>mobile-core\<close>), \<open>Cli\<close> (\<^verbatim>\<open>cli/cmd/peersh-cli\<close>).
  \<^item> This theory holds what spans both ends of the signaling channel: a client with a valid secret is
    registered, a refused Connect is retried, the largest file answer does not fit a frame.

  \<^bold>\<open>State and operations.\<close> A Go struct is a record, an operation is a function from the state to the new state
  and its result, and a failing operation returns a sum whose left side is the error. Shared objects that
  several parties mutate (terminal sessions, PowerShell hosts) live in a heap, a function from addresses.
  A critical section of a mutex is one step. Concurrency is an explicit list of steps: the interleavings of
  \<open>pty_reach\<close>, the inputs of a connection, the cases a \<^verbatim>\<open>select\<close> takes, the ticks of a timer; clock readings
  are arguments, one for every call of \<^verbatim>\<open>time.Now\<close>. Machine integers are words where they wrap
  (frame lengths, protocol fields, Unix times), lengths are natural numbers.

  \<^bold>\<open>What is an argument.\<close> Code that is not in the repository is a parameter: SHA-256, HMAC, Ed25519 and
  X.509, protobuf and JSON codecs, HTTP, WebSocket and QUIC, SQL and Firestore, the operating system's files,
  processes and random numbers. What is relied on is a premise of the theorem that needs it: a codec is
  inverted by its decoder, the Firestore calls that succeed do what their documentation says
  (\<open>firestore_laws\<close>), file-system queries agree with each other. No injectivity of a hash is assumed:
  where identity matters, the theorem says that the presented key derives the expected name.

  \<^bold>\<open>Interfaces\<close> are locales, each interpreted on the code's model in the theory that provides it:
  \<open>scrollback\<close> by \<open>Ring_Buffer\<close>; \<open>replay_guard\<close> by the nonce cache of \<open>Auth\<close>; \<open>table\<close> and \<open>del_table\<close> by the five
  tables of the memory store; \<open>directory\<close> by \<open>Room\<close>; \<open>psk_backend\<close> by the store behind \<open>Admin\<close>; \<open>psk_upsert\<close> by
  the memory and the SQL store in \<open>Signaling_Main\<close>; \<open>token_source\<close> by both sources of \<open>Firebase_Auth\<close>.

  \<^bold>\<open>What the lemmas show.\<close>
  \<^item> Terminals: the ring buffer holds exactly the last bytes of what was written; a reattaching client gets
    the scrollback and then the live output with no gap and no repetition, over any interleaving; a sweep
    never takes an attached terminal; one user's operations neither see nor change another's terminals.
  \<^item> Identity: a registered device's name is derived from the key it presented; Connects carry the
    name the server registered; two devices that present certificates of their keys identify each other; the host serves a device only after an announced Connect, once and within a minute;
    the sessions of both clients are with the device that was asked for.
  \<^item> Prompts: what the installed prompts print leads the tracker to the shell's directory, and a zsh started
    on macOS finds the hook files.
  \<^item> Loops: the wake listener reconnects until it is cancelled, the host with a pre-shared key does not: it is
    unreachable after the first loss of its signaling connection.
  \<^item> Authentication: a signed Register is accepted at most once within the window, for every valid
    configuration whose nonce window is long enough; rate limits bound the admitted requests; tokens are reused,
    renewed and survive a restart.
  \<^item> Stores: the memory store refines maps; the SQL store refines the same maps when a put keeps the first
    time of creation; Firestore returns what was put and never holds a document its readers cannot type.
  \<^item> Streams: frames, server-sent events and base64 survive a round trip; commands, terminals and file
    requests reach the client exactly as the host produced them; a file answer stays below the working directory.
  \<^item> Client: opening a session ends with bounded retries and releases its sockets on failure.
  \<^item> Start: the command lines of terminals and logon tasks split into what was meant, and an installation
    never installs again; a self-update leaves the old or a verified new executable.
  \<^item> Where the code and its comments disagree, a lemma of the theory shows what the code does, e.g. the
    races of \<open>Attach\<close> with \<open>Sweep\<close> and of the replay with live output, the skew check that overflows, a wake
    request that fires again, a failed command that is reported as a success.

  \<^bold>\<open>Bounds and termination.\<close> Loops are structural recursions over their inputs or have a measure; no
  definition uses fuel. The retries are bounded by the attempt counter of the code (five), and
  \<open>negotiation_terminates\<close> states the bound together with the pauses. Loops that run for the life of a
  process are functions of the finite list of the steps they have taken.

  \<^bold>\<open>Not modelled.\<close> The methods of \<^verbatim>\<open>core/transport/transport.go\<close> on connections and streams, which pass their call to
  QUIC, reading and writing of pseudo terminals, logging and the texts printed for the user, what a shell does
  with the prompt text it is given (a premise states its manual), generated protobuf code,
  the Flutter application and the Cloud Functions (other languages). Memory and goroutine leaks are
  out of scope, except for sockets and sessions, which the models count.
\<close>

section \<open>A client and the server\<close>

text \<open>C9: The client's handshake and the server's fit together: a client that holds a user's unrevoked secret and
  a device ID derived from its key, whose clock is within the skew and whose nonce is new, is
  registered under that user and device, and learns it, when the user's rate limit admits the
  request and the frames reach the other side. \<open>enc\<close> is the encoding of frames; decoding inverts it
  on the four frames of the exchange.\<close>

theorem psk_client_is_registered:
  assumes codec: "\<forall>f \<in> {hello_frame opts, Frame_Register reg,
      Frame_ServerHello \<lparr>sh_ProtocolVersion = ProtocolVersion, sh_ServerId = ServerID s\<rparr>, ack_frame s True []}.
      unmarshal_frame env (enc f) = Some f"
    and psk: "Authenticate env = psk_Authenticate hmac get_psk" "AuthBuilder env = None" "AppCheckVerifier env = None"
    and opts: "o_FirebaseIDToken opts = []" "o_UserID opts \<noteq> []" "get_psk (o_UserID opts) = Inr rec" "\<not> IsRevoked rec"
      "o_Secret opts = r_Secret rec" "Verify (sha256 env) (o_DeviceID opts) (o_PublicKey opts) = None"
    and signed: "build_register hmac (marshal_register env) (Some nonce) t0 opts = Inr reg" "length nonce = NonceLength"
    and clocks: "unix_ok (time_unix t0)" "unix_ok (time_unix t2)" "0 \<le> ClockSkew (provider s)" "ClockSkew (provider s) \<le> maxDuration"
      "\<bar>time_unix t2 - time_unix t0\<bar> \<le> ClockSkew (provider s) div second"
    and fresh: "snd (nonce_Add (Nonces (provider s)) (o_UserID opts) nonce t2)"
    and admitted: "snd (bucket_Allow (fl64 env) (UserLimit s) (o_UserID opts) t1)"
    and sent: "\<forall>k f. send_ok env k f"
  shows "\<exists>s' c' sh ack. handshake env s c (WsMsg True (enc (hello_frame opts))) (WsMsg True (enc (Frame_Register reg))) (t1, t2, t3, t4)
        = (s', c', [(conn c, sh), (conn c', ack)], None)
    \<and> conn_UserID (conn c') = o_UserID opts \<and> conn_DeviceID (conn c') = o_DeviceID opts
    \<and> cl_handshake hmac (marshal_register env) (unmarshal_frame env) (\<lambda>f. True) (Some nonce) t0 opts
        (ConnMsg True (enc sh)) (ConnMsg True (enc ack))
      = ([hello_frame opts, Frame_Register reg], Inr (ServerID s))"
proof -
  have reg: "SignRegister hmac (marshal_register env) (Some nonce) t0 (r_Secret rec) (unsigned_register opts) = Inr reg"
    using signed(1) opts(1,5) by (simp add: build_register_def)
  have ids: "UserId reg = o_UserID opts" "DeviceId reg = o_DeviceID opts" "PublicKey reg = o_PublicKey opts"
    using SignRegister_Credentials [OF reg] by (auto simp: unsigned_register_def)
  obtain pc where creds: "chosen_builder env reg = Some (PskCreds pc)"
    and auth: "snd (Authenticate env (provider s) (Some (PskCreds pc)) t2) = Inr \<lparr>UserID = o_UserID opts, DeviceID = []\<rparr>"
    using SignRegister_authenticates [OF reg signed(2), of get_psk t2 "provider s"] opts(3,4) clocks fresh psk
    by (auto simp: chosen_builder_def PSKCredentialsBuilder_def unsigned_register_def)
  obtain p where p: "Authenticate env (provider s) (Some (PskCreds pc)) t2 = (p, Inr \<lparr>UserID = o_UserID opts, DeviceID = []\<rparr>)"
    using auth by (cases "Authenticate env (provider s) (Some (PskCreds pc)) t2") simp
  obtain ul where ul: "bucket_Allow (fl64 env) (UserLimit s) (o_UserID opts) t1 = (ul, True)"
    using admitted by (cases "bucket_Allow (fl64 env) (UserLimit s) (o_UserID opts) t1") simp
  let ?s1 = "s\<lparr>UserLimit := ul, provider := p\<rparr>"
  obtain s2 c2 where persist: "persist ?s1 c reg \<lparr>UserID = o_UserID opts, DeviceID = []\<rparr> t3 t4 = (s2, c2)" by fastforce
  have c2: "conn_UserID (conn c2) = o_UserID opts" "conn_DeviceID (conn c2) = o_DeviceID opts"
    and same: "ack_frame s2 True [] = ack_frame s True []"
    using persist ids by (auto simp: persist_def ack_frame_def Let_def)
  let ?sh = "Frame_ServerHello \<lparr>sh_ProtocolVersion = ProtocolVersion, sh_ServerId = ServerID s\<rparr>"
  let ?ack = "ack_frame s True []"
  have "register_step env s c reg (t1, t2, t3, t4) = (s2, c2, [(conn c2, ?ack)], None)"
    using ul p persist creds opts(2,6) ids psk(3) sent same
    by (simp add: register_step_def app_check_def Let_def)
  then have "handshake env s c (WsMsg True (enc (hello_frame opts))) (WsMsg True (enc (Frame_Register reg))) (t1, t2, t3, t4)
        = (s2, c2, [(conn c, ?sh), (conn c2, ?ack)], None)"
    using codec sent by (simp add: handshake_def readFrame_def hello_frame_def cl_ProtocolVersion_def ProtocolVersion_def)
  moreover have "cl_handshake hmac (marshal_register env) (unmarshal_frame env) (\<lambda>f. True) (Some nonce) t0 opts
        (ConnMsg True (enc ?sh)) (ConnMsg True (enc ?ack)) = ([hello_frame opts, Frame_Register reg], Inr (ServerID s))"
    using codec signed(1)
    by (simp add: cl_handshake_def cl_readFrame_def ack_frame_def cl_ProtocolVersion_def ProtocolVersion_def)
  ultimately show ?thesis using c2 by blast
qed

definition demo_dial :: DialOptions where
  "demo_dial = \<lparr>o_UserID = ''u'', o_Secret = [1], o_DeviceID = Derive (\<lambda>k. replicate 32 0) [1], o_PublicKey = [1],
     o_Kind = DEVICE_KIND_CLI, o_DisplayName = [], o_ClientID = [], o_FirebaseIDToken = [], o_FirebaseAppCheckToken = []\<rparr>"

definition demo_register :: RegisterMsg where
  "demo_register = (unsigned_register demo_dial)\<lparr>SignedAtUnix := time_unix demo_now, Nonce := replicate 16 7,
     HmacSignature := demo_hmac [1] (replicate 16 7)\<rparr>"

definition demo_psk_server :: "psk_Provider Server" where
  "demo_psk_server = ws_New [] mem_New psk_New AuthProviderPSK room_New None None None 0 None"

definition demo_psk_env :: "psk_Provider Env" where
  "demo_psk_env = \<lparr>Authenticate = psk_Authenticate demo_hmac demo_psk, AuthBuilder = None, AppCheckVerifier = None,
     AppCheckRequired = False, sha256 = (\<lambda>k. replicate 32 0), marshal_register = Some \<circ> Nonce,
     unmarshal_frame = (\<lambda>d. if d = [1] then Some (hello_frame demo_dial) else if d = [2] then Some (Frame_Register demo_register)
       else if d = [3] then Some (Frame_ServerHello \<lparr>sh_ProtocolVersion = ProtocolVersion, sh_ServerId = ServerID demo_psk_server\<rparr>)
       else Some (ack_frame demo_psk_server True [])),
     fl64 = id, send_ok = (\<lambda>c f. True), hs_text = (\<lambda>e. []), room_text = (\<lambda>e. []), dispatch_text = (\<lambda>e. [])\<rparr>"

definition demo_enc :: "Frame \<Rightarrow> bytes" where
  "demo_enc f = (case f of Frame_ClientHello _ \<Rightarrow> [1] | Frame_Register _ \<Rightarrow> [2] | Frame_ServerHello _ \<Rightarrow> [3] | _ \<Rightarrow> [4])"

theorem psk_client_is_registered_witness:
  "\<exists>s' c' sh ack. handshake demo_psk_env demo_psk_server (new_Connection 7) (WsMsg True [1]) (WsMsg True [2]) (5, demo_now, 5, 5)
        = (s', c', [(conn (new_Connection 7), sh), (conn c', ack)], None)
    \<and> conn_UserID (conn c') = ''u''"
proof -
  let ?rec = "\<lparr>r_UserID = ''u'', r_Secret = [1], r_DisplayLabel = [], r_CreatedAt = 1, r_RevokedAt = 0\<rparr>"
  have codec: "\<forall>f \<in> {hello_frame demo_dial, Frame_Register demo_register,
      Frame_ServerHello \<lparr>sh_ProtocolVersion = ProtocolVersion, sh_ServerId = ServerID demo_psk_server\<rparr>, ack_frame demo_psk_server True []}.
      unmarshal_frame demo_psk_env (demo_enc f) = Some f"
    by (simp add: demo_psk_env_def demo_enc_def hello_frame_def ack_frame_def)
  have v: "Verify (\<lambda>k. replicate 32 0) (Derive (\<lambda>k. replicate 32 0) [1]) [1] = None"
    by (simp add: Verify_ok_iff Derive_def rawBytes_def length_base32_encode)
  have signed: "build_register demo_hmac (Some \<circ> Nonce) (Some (replicate 16 7)) demo_now demo_dial = Inr demo_register"
    by (simp add: build_register_def demo_register_def demo_dial_def SignRegister_def CanonicalRegisterBody_def unsigned_register_def Let_def)
  have fresh: "snd (nonce_Add (Nonces psk_New) ''u'' (replicate 16 7) demo_now)"
    by (simp add: psk_New_def nonce_Add_def NewMemoryNonceCache_def gm_retain_def)
  have admitted: "snd (bucket_Allow id (UserLimit demo_psk_server) ''u'' 5)"
    by (simp add: demo_psk_server_def ws_New_def bucket_Allow_def bucket_New_def Let_def)
  show ?thesis
    using psk_client_is_registered [OF codec, where hmac = demo_hmac and get_psk = demo_psk and rec = ?rec and nonce = "replicate 16 7"
        and ?t0.0 = demo_now and ?t1.0 = 5 and ?t2.0 = demo_now and ?t3.0 = 5 and ?t4.0 = 5 and c = "new_Connection 7"]
      v signed fresh admitted
    by (simp add: demo_psk_env_def demo_dial_def demo_psk_server_def ws_New_def demo_enc_def hello_frame_def NonceLength_def
        demo_psk_def IsRevoked_def unix_ok_def demo_now_def time_unix_def second_def psk_New_def maxDuration_def) blast
qed

section \<open>A file and the framing\<close>

text \<open>A file answer of the largest size the host allows itself does not fit into a frame: the host writes it
  without an error, and the client's read of the answer fails. \<open>marshal\<close> is the encoding of an
  answer, which is longer than the body it carries.\<close>

theorem largest_file_unreadable:
  assumes "handleReadFile os mgr reg i path mx = ReadFileResp body enc sz trunc"
    and "int (length body) = MaxFileReadBytes"
    and "marshal (ReadFileResp body enc sz trunc) = Some p" "length body < length p" "length p < 2 ^ 64"
  shows "wire_Write marshal buffer_write [] (snd (serveFilesStream os mgr reg own (ReadFileReq i path mx))) = (None, frame_bytes p)
    \<and> wire_Read unmarshal (frame_bytes p @ r) = Inl ErrFrameTooLarge"
proof -
  have "MaxFrameSize < length p" using assms(2,4) by (simp add: MaxFileReadBytes_def MaxFrameSize_def)
  then show ?thesis using assms(1,3,5) by (simp add: serveFilesStream_def wire_Write_buffer wire_Read_oversized)
qed

theorem largest_file_unreadable_witness:
  "wire_Read (\<lambda>p. Some p) (frame_bytes (replicate (MaxFrameSize + 9) 0) @ []) = Inl ErrFrameTooLarge"
proof -
  let ?os = "(demo_fs 1)\<lparr>Stat := (\<lambda>p. Inr (False, 0)), ReadFile := (\<lambda>p. Inr (replicate MaxFrameSize 0))\<rparr>"
  have n: "normaliseTextEncoding (replicate MaxFrameSize 0) = (''utf-8'', replicate MaxFrameSize 0)"
    by (simp add: normaliseTextEncoding_def)
  have "resolveSessionPath (getwd ?os) ''/w'' '' ./a '' = Inr ''/w/a''" using demo_resolve by (simp add: demo_fs_def)
  then have r: "handleReadFile ?os demo_shell [(1, 0)] 1 '' ./a '' 0 = ReadFileResp (replicate MaxFrameSize 0) ''utf-8'' 0 False"
    using n by (simp add: handleReadFile_def reg_Get_def demo_shell_def NewManager_def Let_def MaxFileReadBytes_def MaxFrameSize_def)
  show ?thesis
    using largest_file_unreadable [OF r, of "\<lambda>f. Some (replicate (MaxFrameSize + 9) 0)" "replicate (MaxFrameSize + 9) 0" "''alice''" "\<lambda>p. Some p" "[]"]
    by (simp add: MaxFileReadBytes_def MaxFrameSize_def)
qed

section \<open>A refused Connect and the retry\<close>

lemma retryable_server_error:
  "isRetryableConnectError (Some (neg_err_Error lib lib' (RecvReply (PumpServerError code msg))))
     \<longleftrightarrow> Contains code ''target_unknown'' \<or> Contains msg ''target_unknown''"
proof -
  have "Contains (''recv reply: server error: '' @ code @ '': '' @ msg) ''target_unknown''
      \<longleftrightarrow> Contains ((''recv reply: server error:'' @ CHR '' '' # code @ [CHR '':'']) @ CHR '' '' # msg) ''target_unknown''"
    by simp
  also have "\<dots> \<longleftrightarrow> Contains (''recv reply: server error:'' @ CHR '' '' # (code @ CHR '':'' # [])) ''target_unknown''
      \<or> Contains msg ''target_unknown''"
    by (rule Contains_separated) simp_all
  also have "Contains (''recv reply: server error:'' @ CHR '' '' # (code @ CHR '':'' # [])) ''target_unknown''
      \<longleftrightarrow> Contains ''recv reply: server error:'' ''target_unknown'' \<or> Contains (code @ CHR '':'' # []) ''target_unknown''"
    by (rule Contains_separated) simp_all
  also have "Contains (code @ CHR '':'' # []) ''target_unknown'' \<longleftrightarrow> Contains code ''target_unknown''"
    by (subst Contains_separated) simp_all
  finally show ?thesis by (simp add: isRetryableConnectError_def HasPrefix_def)
qed

text \<open>C28: The server's refusal and the client's retry fit together: when the server answers a Connect with an
  error, a client that reads it gets that error from \<^verbatim>\<open>Recv\<close>, and tries again exactly when the user has
  no device registered under the target's name. The hypotheses are that decoding inverts the encoding of
  the frame and that the server's texts of the other refusals do not contain the code.\<close>

theorem refused_connect_retried:
  assumes server: "dispatch env s c (Frame_Connect msg) now = (s', c', out, None)" "(k, Frame_ServerError se) \<in> set out"
    and client: "unmarshal (enc (Frame_ServerError se)) = Some (Frame_ServerError se)"
      "readPump_step unmarshal (Dial_client opts sid) (ConnMsg True (enc (Frame_ServerError se))) = Some cl"
    and texts: "\<forall>e. e \<noteq> ErrTargetUnknown \<longrightarrow> \<not> Contains (room_text env e) ''target_unknown''"
  shows "\<exists>err. map snd (Recv_ready False cl) = [Inl err]
    \<and> (isRetryableConnectError (Some (neg_err_Error lib lib' (RecvReply err)))
       \<longleftrightarrow> conn_DeviceID (conn c) \<noteq> TargetDeviceId msg
          \<and> registered_at (registry s) (conn_UserID (conn c)) (TargetDeviceId msg) = None)"
proof -
  obtain e outs where f: "Forward (send_ok env) (registry s) (conn c) msg = (Some e, outs)"
    and se: "se = \<lparr>Code = classifyForwardErr e, Message = room_text env e\<rparr>"
    using server
    by (auto simp: dispatch_def Let_def put_frame_def sendServerError_def Forward_def split: if_splits prod.splits option.splits)
  have "map snd (Recv_ready False cl) = [Inl (PumpServerError (Code se) (Message se))]"
    using client by (auto simp: readPump_step_def cl_readFrame_def Dial_client_def Recv_ready_def recordCloseErr_def)
  moreover have "e = ErrTargetUnknown \<longleftrightarrow> conn_DeviceID (conn c) \<noteq> TargetDeviceId msg
      \<and> registered_at (registry s) (conn_UserID (conn c)) (TargetDeviceId msg) = None"
    using f by (auto simp: Forward_def registered_at_def Let_def split: if_splits option.splits)
  moreover have "Contains (classifyForwardErr e) ''target_unknown'' \<or> Contains (room_text env e) ''target_unknown''
      \<longleftrightarrow> e = ErrTargetUnknown"
    using texts by (cases e) (simp_all add: HasPrefix_def)
  ultimately show ?thesis using retryable_server_error se by auto
qed

lemma refused_connect_retried_witness:
  "let se = \<lparr>Code = ''target_unknown'', Message = []\<rparr>;
       cl = the (readPump_step (\<lambda>b. Some (Frame_ServerError se)) (Dial_client demo_dial ''s'') (ConnMsg True []))
   in \<exists>err. map snd (Recv_ready False cl) = [Inl err]
        \<and> isRetryableConnectError (Some (neg_err_Error (\<lambda>e. []) (\<lambda>e. []) (RecvReply err)))"
proof -
  let ?msg = "\<lparr>TargetDeviceId = ''B'', FromDeviceId = [], Candidates = []\<rparr>"
  let ?se = "\<lparr>Code = ''target_unknown'', Message = []\<rparr>"
  let ?c = "new_Connection 7"
  have id: "conn_DeviceID (conn ?c) \<noteq> TargetDeviceId ?msg" by (simp add: new_Connection_def)
  have reg: "registered_at (registry demo_psk_server) u d = None" for u d
    by (simp add: demo_psk_server_def ws_New_def room_New_def registered_at_def)
  have "snd (bucket_Allow id (DeviceLimit demo_psk_server) (conn_DeviceID (conn ?c)) 5)"
    by (simp add: demo_psk_server_def ws_New_def bucket_Allow_def bucket_New_def Let_def)
  then obtain dl where dl: "bucket_Allow id (DeviceLimit demo_psk_server) (conn_DeviceID (conn ?c)) 5 = (dl, True)"
    by (cases "bucket_Allow id (DeviceLimit demo_psk_server) (conn_DeviceID (conn ?c)) 5") simp
  obtain s' c' where d: "dispatch demo_psk_env demo_psk_server ?c (Frame_Connect ?msg) 5 = (s', c', [(conn ?c, Frame_ServerError ?se)], None)"
    using dl id by (simp add: dispatch_def Let_def Forward_def demo_psk_env_def put_frame_def sendServerError_def new_Connection_def
        demo_psk_server_def ws_New_def room_New_def)
  obtain cl where cl: "readPump_step (\<lambda>b. Some (Frame_ServerError ?se)) (Dial_client demo_dial ''s'') (ConnMsg True []) = Some cl"
    by (simp add: readPump_step_def Dial_client_def cl_readFrame_def)
  have "\<forall>e. e \<noteq> ErrTargetUnknown \<longrightarrow> \<not> Contains (room_text demo_psk_env e) ''target_unknown''"
    by (simp add: demo_psk_env_def)
  from refused_connect_retried [where enc = "\<lambda>f. []" and unmarshal = "\<lambda>b. Some (Frame_ServerError ?se)" and k = "conn (new_Connection 7)",
      OF d _ _ cl this] id reg cl show ?thesis by simp
qed

end
